(* ===== verification/Prelude.thy ===== *)
theory Prelude
  imports Complex_Main "HOL-Library.Word"
begin

text \<open>
  The prelude of the development: the effect type of the modelled Python code (a state
  transformer that returns or raises), its combinators and their laws, and the part of
  Python's \<^verbatim>\<open>str\<close> and \<^verbatim>\<open>int\<close> that the sources use (decimal and hexadecimal
  printing and reading, stripping, splitting, joining).

  Two fact collections carry the component proofs.  \<open>py_eval\<close> unfolds the combinators
  when an effectful definition is run on a state; \<open>py_text\<close> holds the facts on printed
  numbers and split strings.

  A Python string is a list of code points below 256 (type \<^typ>\<open>string\<close>), which is enough to
  distinguish ASCII from non-ASCII text.  Python integers are \<^typ>\<open>int\<close>; lengths and byte
  counts are \<^typ>\<open>nat\<close>.
\<close>

named_theorems py_eval \<open>running the effect combinators\<close>
named_theorems py_text \<open>facts on printed numbers and on splitting strings\<close>

section \<open>Computations that return or raise\<close>

text \<open>
  A call that may raise and that reads or changes state \<open>'s\<close> is a function from the state
  to the outcome, \<open>Inl\<close> for a raised exception and \<open>Inr\<close> for a returned value, and the new
  state.  The state survives an exception, as Python's does.
\<close>

type_synonym ('e, 's, 'a) pym = "'s \<Rightarrow> ('e + 'a) \<times> 's"

definition pret :: "'a \<Rightarrow> ('e, 's, 'a) pym" where
  "pret x s = (Inr x, s)"

definition praise :: "'e \<Rightarrow> ('e, 's, 'a) pym" where
  "praise e s = (Inl e, s)"

definition pbind :: "('e, 's, 'a) pym \<Rightarrow> ('a \<Rightarrow> ('e, 's, 'b) pym) \<Rightarrow> ('e, 's, 'b) pym" where
  "pbind m f s = (case m s of (Inl e, s') \<Rightarrow> (Inl e, s') | (Inr x, s') \<Rightarrow> f x s')"

definition pthen :: "('e, 's, 'a) pym \<Rightarrow> ('e, 's, 'b) pym \<Rightarrow> ('e, 's, 'b) pym" where
  "pthen m k = pbind m (\<lambda>_. k)"

text \<open>\<open>try: m; except BaseException as e: h(e)\<close>.\<close>

definition phandle :: "('e, 's, 'a) pym \<Rightarrow> ('e \<Rightarrow> ('e, 's, 'a) pym) \<Rightarrow> ('e, 's, 'a) pym" where
  "phandle m h s = (case m s of (Inl e, s') \<Rightarrow> h e s' | (Inr x, s') \<Rightarrow> (Inr x, s'))"

text \<open>Run \<open>m\<close> and hand its outcome on as a value, so that nothing is raised.\<close>

definition pattempt :: "('e, 's, 'a) pym \<Rightarrow> ('e, 's, 'e + 'a) pym" where
  "pattempt m s = (case m s of (r, s') \<Rightarrow> (Inr r, s'))"

text \<open>\<open>try: m; finally: f\<close>.\<close>

definition pfinally :: "('e, 's, 'a) pym \<Rightarrow> ('e, 's, 'b) pym \<Rightarrow> ('e, 's, 'a) pym" where
  "pfinally m f s =
     (case m s of
        (r, s') \<Rightarrow> (case f s' of (Inl e, s'') \<Rightarrow> (Inl e, s'') | (Inr _, s'') \<Rightarrow> (r, s'')))"

text \<open>A computation of the world, run where an object's own fields are part of the state.\<close>

definition on_fst :: "('e, 's, 'a) pym \<Rightarrow> ('e, 's \<times> 'c, 'a) pym" where
  "on_fst m s = (case m (fst s) of (r, w) \<Rightarrow> (r, (w, snd s)))"

text \<open>A pure computation that may raise, run without touching the state.\<close>

definition plift :: "'e + 'a \<Rightarrow> ('e, 's, 'a) pym" where
  "plift r s = (r, s)"

text \<open>Sequencing of pure computations that may raise.\<close>

fun rbind :: "'e + 'a \<Rightarrow> ('a \<Rightarrow> 'e + 'b) \<Rightarrow> 'e + 'b" where
  "rbind (Inl e) f = Inl e"
| "rbind (Inr x) f = f x"

definition rguard :: "bool \<Rightarrow> 'e \<Rightarrow> 'e + unit" where
  "rguard ok e = (if ok then Inr () else Inl e)"

lemma pret_eval [py_eval]: "pret x s = (Inr x, s)"
  by (simp add: pret_def)

lemma praise_eval [py_eval]: "praise e s = (Inl e, s)"
  by (simp add: praise_def)

lemma plift_eval [py_eval]: "plift r s = (r, s)"
  by (simp add: plift_def)

lemma pbind_raise [py_eval]: "m s = (Inl e, s') \<Longrightarrow> pbind m f s = (Inl e, s')"
  by (simp add: pbind_def)

lemma pbind_return [py_eval]: "m s = (Inr x, s') \<Longrightarrow> pbind m f s = f x s'"
  by (simp add: pbind_def)

lemma pthen_raise [py_eval]: "m s = (Inl e, s') \<Longrightarrow> pthen m k s = (Inl e, s')"
  by (simp add: pthen_def pbind_def)

lemma pthen_return [py_eval]: "m s = (Inr x, s') \<Longrightarrow> pthen m k s = k s'"
  by (simp add: pthen_def pbind_def)

lemma phandle_raise [py_eval]: "m s = (Inl e, s') \<Longrightarrow> phandle m h s = h e s'"
  by (simp add: phandle_def)

lemma phandle_return [py_eval]: "m s = (Inr x, s') \<Longrightarrow> phandle m h s = (Inr x, s')"
  by (simp add: phandle_def)

lemma pattempt_eval [py_eval]: "m s = (r, s') \<Longrightarrow> pattempt m s = (Inr r, s')"
  by (simp add: pattempt_def)

lemma pbind_eq_Inr:
  "pbind m f s = (Inr y, t) \<longleftrightarrow> (\<exists>x s'. m s = (Inr x, s') \<and> f x s' = (Inr y, t))"
  by (auto simp: pbind_def split: prod.splits sum.splits)

lemma pbind_eq_Inl:
  "pbind m f s = (Inl e, t) \<longleftrightarrow>
     m s = (Inl e, t) \<or> (\<exists>x s'. m s = (Inr x, s') \<and> f x s' = (Inl e, t))"
  by (auto simp: pbind_def split: prod.splits sum.splits)

lemma pthen_eq_Inr:
  "pthen m k s = (Inr y, t) \<longleftrightarrow> (\<exists>x s'. m s = (Inr x, s') \<and> k s' = (Inr y, t))"
  by (simp add: pthen_def pbind_eq_Inr)

lemma pthen_eq_Inl:
  "pthen m k s = (Inl e, t) \<longleftrightarrow>
     m s = (Inl e, t) \<or> (\<exists>x s'. m s = (Inr x, s') \<and> k s' = (Inl e, t))"
  by (simp add: pthen_def pbind_eq_Inl)

lemma pbind_pret [simp]: "pbind (pret x) f = f x"
  by (simp add: fun_eq_iff pbind_def pret_def)

lemma pbind_praise [simp]: "pbind (praise e) f = praise e"
  by (simp add: fun_eq_iff pbind_def praise_def)

lemma pbind_assoc: "pbind (pbind m f) g = pbind m (\<lambda>x. pbind (f x) g)"
  by (auto simp: fun_eq_iff pbind_def split: prod.splits sum.splits)

lemma pbind_plift_Inr [simp]: "pbind (plift (Inr x)) f = f x"
  by (simp add: fun_eq_iff pbind_def plift_def)

lemma pbind_plift_Inl [simp]: "pbind (plift (Inl e)) f = praise e"
  by (simp add: fun_eq_iff pbind_def plift_def praise_def)

lemma rbind_eq_Inr: "rbind r f = Inr y \<longleftrightarrow> (\<exists>x. r = Inr x \<and> f x = Inr y)"
  by (cases r) auto

lemma rbind_eq_Inl: "rbind r f = Inl e \<longleftrightarrow> r = Inl e \<or> (\<exists>x. r = Inr x \<and> f x = Inl e)"
  by (cases r) auto

lemma rguard_eq_Inr [simp]: "rguard ok e = Inr u \<longleftrightarrow> ok"
  by (simp add: rguard_def)

lemma rguard_eq_Inl [simp]: "rguard ok e = Inl e' \<longleftrightarrow> \<not> ok \<and> e' = e"
  by (auto simp: rguard_def)

lemma rguard_True [simp]: "rguard True e = Inr ()"
  by (simp add: rguard_def)

lemma rguard_False [simp]: "rguard False e = Inl e"
  by (simp add: rguard_def)

lemmas pbind_cases = pbind_eq_Inr pbind_eq_Inl pthen_eq_Inr pthen_eq_Inl

section \<open>Computations that return, and that leave something alone\<close>

named_theorems returns_intros \<open>a computation that returns from every state\<close>
named_theorems keeps_intros \<open>a computation that leaves an observation of the state alone\<close>

definition returns :: "('e, 's, 'a) pym \<Rightarrow> bool" where
  "returns m \<longleftrightarrow> (\<forall>s. \<exists>x s'. m s = (Inr x, s'))"

definition keeps :: "('s \<Rightarrow> 'v) \<Rightarrow> ('e, 's, 'a) pym \<Rightarrow> bool" where
  "keeps obs m \<longleftrightarrow> (\<forall>s r s'. m s = (r, s') \<longrightarrow> obs s' = obs s)"

lemma returns_pret [returns_intros]: "returns (pret x)"
  by (simp add: returns_def pret_def)

lemma returns_if [returns_intros]: "returns m \<Longrightarrow> returns n \<Longrightarrow> returns (if c then m else n)"
  by simp

lemma returns_pbind [returns_intros]: "returns m \<Longrightarrow> (\<And>x. returns (f x)) \<Longrightarrow> returns (pbind m f)"
  by (auto simp: returns_def pbind_def split: prod.split sum.split) (metis prod.inject sum.distinct(1))+

lemma returns_pthen [returns_intros]: "returns m \<Longrightarrow> returns k \<Longrightarrow> returns (pthen m k)"
  unfolding pthen_def by (rule returns_pbind)

lemma returns_phandle:
  assumes "\<And>s e s'. m s = (Inl e, s') \<Longrightarrow> P e" "\<And>e. P e \<Longrightarrow> returns (h e)"
  shows "returns (phandle m h)"
  unfolding returns_def
proof
  fix s
  obtain r s1 where r: "m s = (r, s1)" by fastforce
  show "\<exists>x s'. phandle m h s = (Inr x, s')"
    using assms(1) [of s] assms(2) r by (cases r) (auto simp: phandle_def returns_def)
qed

lemma keepsI: "(\<And>s r s'. m s = (r, s') \<Longrightarrow> obs s' = obs s) \<Longrightarrow> keeps obs m"
  by (auto simp: keeps_def)

lemma keepsD: "keeps obs m \<Longrightarrow> m s = (r, s') \<Longrightarrow> obs s' = obs s"
  by (auto simp: keeps_def)

lemma keeps_pret [keeps_intros]: "keeps obs (pret x)"
  by (simp add: keeps_def pret_def)

lemma keeps_praise [keeps_intros]: "keeps obs (praise e)"
  by (simp add: keeps_def praise_def)

lemma keeps_plift [keeps_intros]: "keeps obs (plift r)"
  by (simp add: keeps_def plift_def)

lemma keeps_pbind [keeps_intros]: "keeps obs m \<Longrightarrow> (\<And>x. keeps obs (f x)) \<Longrightarrow> keeps obs (pbind m f)"
  by (fastforce simp: keeps_def pbind_def split: prod.splits sum.splits)

lemma keeps_pbind_result:
  "keeps obs m \<Longrightarrow> (\<And>x s s'. m s = (Inr x, s') \<Longrightarrow> keeps obs (f x)) \<Longrightarrow> keeps obs (pbind m f)"
  by (fastforce simp: keeps_def pbind_def split: prod.splits sum.splits)

lemma keeps_pthen [keeps_intros]: "keeps obs m \<Longrightarrow> keeps obs k \<Longrightarrow> keeps obs (pthen m k)"
  unfolding pthen_def by (rule keeps_pbind)

lemma keeps_phandle [keeps_intros]: "keeps obs m \<Longrightarrow> (\<And>e. keeps obs (h e)) \<Longrightarrow> keeps obs (phandle m h)"
  by (fastforce simp: keeps_def phandle_def split: prod.splits sum.splits)

lemma keeps_if [keeps_intros]: "keeps obs m \<Longrightarrow> keeps obs n \<Longrightarrow> keeps obs (if c then m else n)"
  by simp

lemma keeps_pattempt [keeps_intros]: "keeps obs m \<Longrightarrow> keeps obs (pattempt m)"
  by (fastforce simp: keeps_def pattempt_def split: prod.splits)

lemma keeps_pfinally [keeps_intros]: "keeps obs m \<Longrightarrow> keeps obs f \<Longrightarrow> keeps obs (pfinally m f)"
  by (fastforce simp: keeps_def pfinally_def split: prod.splits sum.splits)

lemma keeps_on_fst [keeps_intros]: "keeps obs m \<Longrightarrow> keeps (obs \<circ> fst) (on_fst m)"
  by (auto simp: keeps_def on_fst_def split: prod.splits)

lemma phandle_eq_Inr:
  "phandle m h s = (Inr x, s') \<longleftrightarrow> m s = (Inr x, s') \<or> (\<exists>e s1. m s = (Inl e, s1) \<and> h e s1 = (Inr x, s'))"
  by (auto simp: phandle_def split: prod.splits sum.splits)

lemma keeps_snd_on_fst: "keeps snd (on_fst m)"
  by (auto simp: keeps_def on_fst_def split: prod.splits)

text \<open>A computation that keeps a predicate of the state, whether it returns or raises.\<close>

named_theorems preserves_intros \<open>a computation that keeps a predicate of the state\<close>

definition preserves :: "('s \<Rightarrow> bool) \<Rightarrow> ('e, 's, 'a) pym \<Rightarrow> bool" where
  "preserves P m \<longleftrightarrow> (\<forall>s r s'. P s \<longrightarrow> m s = (r, s') \<longrightarrow> P s')"

lemma preservesI: "(\<And>s r s'. P s \<Longrightarrow> m s = (r, s') \<Longrightarrow> P s') \<Longrightarrow> preserves P m"
  unfolding preserves_def by blast

lemma preservesD: "preserves P m \<Longrightarrow> m s = (r, s') \<Longrightarrow> P s \<Longrightarrow> P s'"
  unfolding preserves_def by blast

lemma preserves_pret [preserves_intros]: "preserves P (pret x)"
  by (simp add: preserves_def pret_def)

lemma preserves_praise [preserves_intros]: "preserves P (praise e)"
  by (simp add: preserves_def praise_def)

lemma preserves_plift [preserves_intros]: "preserves P (plift r)"
  by (simp add: preserves_def plift_def)

lemma preserves_pbind [preserves_intros]:
  assumes "preserves P m" "\<And>x. preserves P (f x)"
  shows "preserves P (pbind m f)"
proof (rule preservesI)
  fix s r s'
  assume p: "P s" "pbind m f s = (r, s')"
  obtain x s1 where x: "m s = (x, s1)" by (cases "m s")
  have s1: "P s1" by (rule preservesD [OF assms(1) x p(1)])
  show "P s'"
  proof (cases x)
    case (Inl e)
    with p(2) x s1 show ?thesis by (simp add: pbind_def)
  next
    case (Inr y)
    with p(2) x have "f y s1 = (r, s')" by (simp add: pbind_def)
    from preservesD [OF assms(2) this s1] show ?thesis .
  qed
qed

lemma preserves_pthen [preserves_intros]: "preserves P m \<Longrightarrow> preserves P k \<Longrightarrow> preserves P (pthen m k)"
  unfolding pthen_def by (rule preserves_pbind)

lemma preserves_phandle [preserves_intros]:
  assumes "preserves P m" "\<And>e. preserves P (h e)"
  shows "preserves P (phandle m h)"
proof (rule preservesI)
  fix s r s'
  assume p: "P s" "phandle m h s = (r, s')"
  obtain x s1 where x: "m s = (x, s1)" by (cases "m s")
  have s1: "P s1" by (rule preservesD [OF assms(1) x p(1)])
  show "P s'"
  proof (cases x)
    case (Inr y)
    with p(2) x s1 show ?thesis by (simp add: phandle_def)
  next
    case (Inl e)
    with p(2) x have "h e s1 = (r, s')" by (simp add: phandle_def)
    from preservesD [OF assms(2) this s1] show ?thesis .
  qed
qed

lemma preserves_pattempt [preserves_intros]:
  assumes "preserves P m"
  shows "preserves P (pattempt m)"
proof (rule preservesI)
  fix s r s'
  assume p: "P s" "pattempt m s = (r, s')"
  obtain x s1 where x: "m s = (x, s1)" by (cases "m s")
  from preservesD [OF assms x p(1)] p(2) x show "P s'" by (simp add: pattempt_def)
qed

lemma preserves_pfinally [preserves_intros]:
  assumes "preserves P m" "preserves P f"
  shows "preserves P (pfinally m f)"
proof (rule preservesI)
  fix s r s'
  assume p: "P s" "pfinally m f s = (r, s')"
  obtain x s1 where x: "m s = (x, s1)" by (cases "m s")
  obtain y s2 where y: "f s1 = (y, s2)" by (cases "f s1")
  from preservesD [OF assms(2) y preservesD [OF assms(1) x p(1)]] have "P s2" .
  with x y p(2) show "P s'" by (auto simp: pfinally_def split: sum.splits)
qed

lemma preserves_if [preserves_intros]: "preserves P m \<Longrightarrow> preserves P n \<Longrightarrow> preserves P (if c then m else n)"
  by simp

lemma preserves_option [preserves_intros]:
  "preserves P m \<Longrightarrow> (\<And>x. preserves P (f x)) \<Longrightarrow> preserves P (case v of None \<Rightarrow> m | Some x \<Rightarrow> f x)"
  by (cases v) simp_all

lemma preserves_sum [preserves_intros]:
  "(\<And>e. preserves P (f e)) \<Longrightarrow> (\<And>x. preserves P (g x)) \<Longrightarrow> preserves P (case v of Inl e \<Rightarrow> f e | Inr x \<Rightarrow> g x)"
  by (cases v) simp_all

lemma preserves_keeps:
  assumes "keeps obs m"
  shows "preserves (\<lambda>s. Q (obs s)) m"
proof (rule preservesI)
  fix s r s'
  assume "Q (obs s)" "m s = (r, s')"
  with keepsD [OF assms] show "Q (obs s')" by metis
qed

lemma keeps_option [keeps_intros]:
  "keeps obs m \<Longrightarrow> (\<And>x. keeps obs (f x)) \<Longrightarrow> keeps obs (case v of None \<Rightarrow> m | Some x \<Rightarrow> f x)"
  by (cases v) simp_all

lemma keeps_sum [keeps_intros]:
  "(\<And>e. keeps obs (f e)) \<Longrightarrow> (\<And>x. keeps obs (g x)) \<Longrightarrow> keeps obs (case v of Inl e \<Rightarrow> f e | Inr x \<Rightarrow> g x)"
  by (cases v) simp_all

section \<open>Printing and reading numbers\<close>

definition digit_chars :: string where
  "digit_chars = ''0123456789abcdef''"

definition digit_char :: "nat \<Rightarrow> char" where
  "digit_char d = digit_chars ! d"

fun str_base :: "nat \<Rightarrow> nat \<Rightarrow> string" where
  "str_base b n =
     (if n < b \<or> b < 2 then [digit_char n] else str_base b (n div b) @ [digit_char (n mod b)])"

declare str_base.simps [simp del]

text \<open>\<open>str(n)\<close>, \<open>f"{n}"\<close> and \<open>'%x' % n\<close>.\<close>

definition str_nat :: "nat \<Rightarrow> string" where
  "str_nat n = str_base 10 n"

definition hex_nat :: "nat \<Rightarrow> string" where
  "hex_nat n = str_base 16 n"

definition str_int :: "int \<Rightarrow> string" where
  "str_int i = (if i < 0 then CHR ''-'' # str_nat (nat (- i)) else str_nat (nat i))"

definition is_dec_digit :: "char \<Rightarrow> bool" where
  "is_dec_digit c \<longleftrightarrow> c \<in> set ''0123456789''"

definition is_hex_digit :: "char \<Rightarrow> bool" where
  "is_hex_digit c \<longleftrightarrow> c \<in> set ''0123456789abcdefABCDEF''"

fun index_of :: "'a \<Rightarrow> 'a list \<Rightarrow> nat" where
  "index_of x [] = 0"
| "index_of x (y # ys) = (if x = y then 0 else Suc (index_of x ys))"

definition digit_val :: "char \<Rightarrow> nat" where
  "digit_val c =
     (if c \<in> set ''ABCDEF'' then 10 + index_of c ''ABCDEF'' else index_of c digit_chars)"

definition val_base :: "nat \<Rightarrow> string \<Rightarrow> nat" where
  "val_base b cs = foldl (\<lambda>n c. n * b + digit_val c) 0 cs"

text \<open>\<open>int(text, 10)\<close> and \<open>int(text, 16)\<close> on a text of digits only.\<close>

definition dec_val :: "string \<Rightarrow> nat" where
  "dec_val cs = val_base 10 cs"

definition hex_val :: "string \<Rightarrow> nat" where
  "hex_val cs = val_base 16 cs"

lemma val_base_snoc: "val_base b (cs @ [c]) = val_base b cs * b + digit_val c"
  by (simp add: val_base_def)

lemma all_digits_16:
  assumes "list_all P [0..<16]" "d < (16 :: nat)"
  shows "P d"
  using assms by (simp only: list_all_iff set_upt) simp

lemma digit_val_digit_char [py_text]: "d < 16 \<Longrightarrow> digit_val (digit_char d) = d"
  by (rule all_digits_16) (code_simp, assumption)

lemma is_dec_digit_char [py_text]: "d < 10 \<Longrightarrow> is_dec_digit (digit_char d)"
  by (rule all_digits_16 [of "\<lambda>d. d < 10 \<longrightarrow> is_dec_digit (digit_char d)", rule_format])
    (code_simp, simp, assumption)

lemma is_hex_digit_char [py_text]: "d < 16 \<Longrightarrow> is_hex_digit (digit_char d)"
  by (rule all_digits_16) (code_simp, assumption)

lemma digit_char_eq_0: "d < 16 \<Longrightarrow> digit_char d = CHR ''0'' \<longleftrightarrow> d = 0"
  by (rule all_digits_16) (code_simp, assumption)

lemma str_base_not_Nil [simp]: "str_base b n \<noteq> []"
  by (subst str_base.simps) simp

lemma val_base_str_base:
  assumes "2 \<le> b" "b \<le> 16"
  shows "val_base b (str_base b n) = n"
proof (induction n rule: less_induct)
  case (less n)
  show ?case
  proof (cases "n < b")
    case True
    with assms show ?thesis
      by (subst str_base.simps) (simp add: val_base_def digit_val_digit_char)
  next
    case False
    with assms have "n div b < n" by (simp add: div_less_dividend)
    moreover have "n mod b < 16" using assms by (meson less_le_trans mod_less_divisor less_le_trans
          zero_less_numeral)
    ultimately show ?thesis using False assms less.IH
      by (subst str_base.simps) (simp add: val_base_snoc digit_val_digit_char)
  qed
qed

lemma str_base_digits:
  assumes "2 \<le> b" "\<And>d. d < b \<Longrightarrow> P (digit_char d)"
  shows "list_all P (str_base b n)"
proof (induction n rule: less_induct)
  case (less n)
  show ?case
  proof (cases "n < b")
    case True
    with assms show ?thesis by (subst str_base.simps) simp
  next
    case False
    with assms have "n div b < n" "n mod b < b" by (simp_all add: div_less_dividend)
    with False assms less.IH show ?thesis by (subst str_base.simps) simp
  qed
qed

lemma length_str_base:
  assumes "2 \<le> b" "n < b ^ k" "0 < k"
  shows "length (str_base b n) \<le> k"
  using assms(2,3)
proof (induction k arbitrary: n)
  case 0
  then show ?case by simp
next
  case (Suc k)
  show ?case
  proof (cases "n < b")
    case True
    then show ?thesis by (subst str_base.simps) simp
  next
    case False
    with Suc.prems assms(1) have k: "0 < k" by (cases k) auto
    from Suc.prems(1) have "n div b < b ^ k" using assms(1)
      by (simp add: less_mult_imp_div_less mult.commute)
    with Suc.IH k have "length (str_base b (n div b)) \<le> k" by blast
    with False assms(1) show ?thesis by (subst str_base.simps) simp
  qed
qed

lemma hd_str_base:
  assumes "2 \<le> b" "b \<le> 16" "0 < n"
  shows "hd (str_base b n) \<noteq> CHR ''0''"
  using assms(3)
proof (induction n rule: less_induct)
  case (less n)
  show ?case
  proof (cases "n < b")
    case True
    with assms less.prems show ?thesis
      by (subst str_base.simps) (simp add: digit_char_eq_0)
  next
    case False
    with assms have "n div b < n" "0 < n div b"
      by (simp_all add: div_less_dividend div_greater_zero_iff)
    with False assms less.IH show ?thesis by (subst str_base.simps) simp
  qed
qed

lemma str_nat_not_Nil [simp]: "str_nat n \<noteq> []"
  by (simp add: str_nat_def)

lemma hex_nat_not_Nil [simp]: "hex_nat n \<noteq> []"
  by (simp add: hex_nat_def)

lemma dec_val_str_nat [simp]: "dec_val (str_nat n) = n"
  by (simp add: dec_val_def str_nat_def val_base_str_base)

lemma hex_val_hex_nat [simp]: "hex_val (hex_nat n) = n"
  by (simp add: hex_val_def hex_nat_def val_base_str_base)

lemma str_nat_digits [py_text]: "list_all is_dec_digit (str_nat n)"
  by (simp add: str_nat_def str_base_digits is_dec_digit_char)

lemma hex_nat_digits [py_text]: "list_all is_hex_digit (hex_nat n)"
  by (simp add: hex_nat_def str_base_digits is_hex_digit_char)

lemma hd_str_nat [py_text]: "0 < n \<Longrightarrow> hd (str_nat n) \<noteq> CHR ''0''"
  by (simp add: str_nat_def hd_str_base)

lemma hd_hex_nat: "0 < n \<Longrightarrow> hd (hex_nat n) \<noteq> CHR ''0''"
  by (simp add: hex_nat_def hd_str_base)

lemma str_nat_0 [simp]: "str_nat 0 = ''0''"
  by (simp add: str_nat_def str_base.simps digit_char_def digit_chars_def)

lemma hex_nat_0 [simp]: "hex_nat 0 = ''0''"
  by (simp add: hex_nat_def str_base.simps digit_char_def digit_chars_def)

lemma length_hex_nat: "n < 65536 \<Longrightarrow> length (hex_nat n) \<le> 4"
  using length_str_base [of 16 n 4] by (simp add: hex_nat_def)

lemma str_nat_inject [simp]: "str_nat m = str_nat n \<longleftrightarrow> m = n"
  by (metis dec_val_str_nat)

lemma hex_nat_inject [simp]: "hex_nat m = hex_nat n \<longleftrightarrow> m = n"
  by (metis hex_val_hex_nat)

lemma str_int_nonneg: "0 \<le> i \<Longrightarrow> str_int i = str_nat (nat i)"
  by (simp add: str_int_def)

end
