(* ===== verification/Py_Text.thy ===== *)
theory Py_Text
  imports Prelude
begin

text \<open>
  The methods of Python's \<^verbatim>\<open>str\<close> that the sources call: \<^verbatim>\<open>isascii\<close>,
  \<^verbatim>\<open>isspace\<close>, \<^verbatim>\<open>strip\<close>, \<^verbatim>\<open>split\<close>, \<^verbatim>\<open>splitlines\<close>,
  \<^verbatim>\<open>startswith\<close>, \<^verbatim>\<open>find\<close>, \<^verbatim>\<open>rfind\<close>, \<^verbatim>\<open>join\<close> and the \<^verbatim>\<open>repr\<close>
  of a string, with the facts on splitting a joined text that the round trips rest on.
\<close>

definition is_ascii_char :: "char \<Rightarrow> bool" where
  "is_ascii_char c \<longleftrightarrow> (of_char c :: nat) < 128"

definition py_isascii :: "string \<Rightarrow> bool" where
  "py_isascii s = list_all is_ascii_char s"

text \<open>\<open>str.isdecimal\<close>: not empty, decimal digits only.\<close>

definition py_isdecimal :: "string \<Rightarrow> bool" where
  "py_isdecimal s \<longleftrightarrow> s \<noteq> [] \<and> list_all is_dec_digit s"

definition is_space :: "char \<Rightarrow> bool" where
  "is_space c \<longleftrightarrow> (of_char c :: nat) \<in> set [9, 10, 11, 12, 13, 28, 29, 30, 31, 32, 133, 160]"

definition is_line_break :: "char \<Rightarrow> bool" where
  "is_line_break c \<longleftrightarrow> (of_char c :: nat) \<in> set [10, 11, 12, 13, 28, 29, 30, 133]"

definition py_strip :: "string \<Rightarrow> string" where
  "py_strip s = rev (dropWhile is_space (rev (dropWhile is_space s)))"

fun split_by :: "('a \<Rightarrow> bool) \<Rightarrow> 'a list \<Rightarrow> 'a list list" where
  "split_by P [] = [[]]"
| "split_by P (x # xs) =
     (if P x then [] # split_by P xs
      else (case split_by P xs of [] \<Rightarrow> [[x]] | p # ps \<Rightarrow> (x # p) # ps))"

text \<open>\<open>s.split(c)\<close> and \<open>s.split()\<close>.\<close>

definition split_on :: "'a \<Rightarrow> 'a list \<Rightarrow> 'a list list" where
  "split_on c s = split_by (\<lambda>x. x = c) s"

definition py_split :: "string \<Rightarrow> string list" where
  "py_split s = filter (\<lambda>w. w \<noteq> []) (split_by is_space s)"

fun join :: "'a list \<Rightarrow> 'a list list \<Rightarrow> 'a list" where
  "join sep [] = []"
| "join sep [x] = x"
| "join sep (x # y # ys) = x @ sep @ join sep (y # ys)"

fun lines_from :: "string \<Rightarrow> string \<Rightarrow> string list" where
  "lines_from acc [] = (if acc = [] then [] else [rev acc])"
| "lines_from acc (c # cs) =
     (if c = CHR 0x0D then
        (case cs of
           d # ds \<Rightarrow> (if d = CHR 0x0A then rev acc # lines_from [] ds else rev acc # lines_from [] cs)
         | [] \<Rightarrow> [rev acc])
      else if is_line_break c then rev acc # lines_from [] cs
      else lines_from (c # acc) cs)"

definition py_splitlines :: "string \<Rightarrow> string list" where
  "py_splitlines s = lines_from [] s"

definition startswith :: "'a list \<Rightarrow> 'a list \<Rightarrow> bool" where
  "startswith s p \<longleftrightarrow> take (length p) s = p"

text \<open>\<open>s.find(c)\<close> and \<open>s.rfind(c)\<close> for one character; \<open>None\<close> stands for \<open>-1\<close>.\<close>

fun find_char :: "'a \<Rightarrow> 'a list \<Rightarrow> nat option" where
  "find_char c [] = None"
| "find_char c (x # xs) = (if x = c then Some 0 else map_option Suc (find_char c xs))"

fun rfind_char :: "'a \<Rightarrow> 'a list \<Rightarrow> nat option" where
  "rfind_char c [] = None"
| "rfind_char c (x # xs) =
     (case rfind_char c xs of Some i \<Rightarrow> Some (Suc i) | None \<Rightarrow> (if x = c then Some 0 else None))"

text \<open>\<open>repr\<close> of a string, for the messages that quote one.\<close>

definition is_printable :: "char \<Rightarrow> bool" where
  "is_printable c \<longleftrightarrow>
     (let n = (of_char c :: nat) in 32 \<le> n \<and> n < 127 \<or> 161 \<le> n \<and> n \<noteq> 173)"

definition hex2 :: "nat \<Rightarrow> string" where
  "hex2 n = [digit_char (n div 16), digit_char (n mod 16)]"

definition repr_char :: "char \<Rightarrow> char \<Rightarrow> string" where
  "repr_char quote c =
     (if c = quote \<or> c = CHR 0x5C then [CHR 0x5C, c]
      else if c = CHR 0x0A then [CHR 0x5C, CHR ''n'']
      else if c = CHR 0x0D then [CHR 0x5C, CHR ''r'']
      else if c = CHR 0x09 then [CHR 0x5C, CHR ''t'']
      else if is_printable c then [c]
      else [CHR 0x5C, CHR ''x''] @ hex2 (of_char c))"

definition py_repr :: "string \<Rightarrow> string" where
  "py_repr s =
     (let quote = (if CHR 0x27 \<in> set s \<and> CHR 0x22 \<notin> set s then CHR 0x22 else CHR 0x27)
      in quote # concat (map (repr_char quote) s) @ [quote])"

section \<open>Splitting what was joined\<close>

lemma split_by_not_Nil [simp]: "split_by P s \<noteq> []"
  by (cases s) (auto split: list.splits)

lemma split_by_none: "list_all (\<lambda>x. \<not> P x) s \<Longrightarrow> split_by P s = [s]"
  by (induction s) auto

lemma split_by_append_sep:
  assumes "list_all (\<lambda>x. \<not> P x) s" "P c"
  shows "split_by P (s @ c # t) = s # split_by P t"
  using assms by (induction s) auto

lemma split_on_join:
  assumes "parts \<noteq> []" "\<And>p. p \<in> set parts \<Longrightarrow> c \<notin> set p"
  shows "split_on c (join [c] parts) = parts"
  using assms unfolding split_on_def
proof (induction "[c]" parts rule: join.induct)
  case 1
  then show ?case by simp
next
  case (2 x)
  then show ?case by (auto simp: list_all_iff intro!: split_by_none)
next
  case (3 x y ys)
  have "split_by (\<lambda>x. x = c) (x @ c # join [c] (y # ys)) = x # split_by (\<lambda>x. x = c) (join [c] (y # ys))"
    using "3.prems"(2) [of x] by (intro split_by_append_sep) (auto simp: list_all_iff)
  with 3 show ?case by simp
qed

lemma split_by_append:
  "P c \<Longrightarrow> split_by P (s @ c # t) = split_by P s @ split_by P t"
  by (induction s) (auto split: list.splits)

text \<open>A stretch between two separators is one of the parts.\<close>

lemma split_on_middle:
  assumes "c \<notin> set m"
  shows "m \<in> set (split_on c (pre @ c # m @ c # post))"
proof -
  have "split_by (\<lambda>x. x = c) m = [m]" using assms by (intro split_by_none) (auto simp: list_all_iff)
  then show ?thesis by (simp add: split_on_def split_by_append)
qed

lemma join_map_digits:
  assumes "\<And>p. p \<in> set parts \<Longrightarrow> list_all P p" "list_all P sep"
  shows "list_all P (join sep parts)"
  using assms by (induction sep parts rule: join.induct) auto

lemma set_join: "set (join sep parts) \<subseteq> set sep \<union> (\<Union>p \<in> set parts. set p)"
  by (induction sep parts rule: join.induct) auto

lemma startswith_append [simp]: "startswith (p @ s) p"
  by (simp add: startswith_def)

lemma startswith_iff: "startswith s p \<longleftrightarrow> (\<exists>t. s = p @ t)"
  by (metis append_eq_conv_conj startswith_def)

lemma find_char_Some: "find_char c s = Some i \<Longrightarrow> i < length s \<and> s ! i = c \<and> c \<notin> set (take i s)"
  by (induction s arbitrary: i) (auto split: if_splits)

lemma find_char_append: "c \<notin> set s \<Longrightarrow> find_char c (s @ c # t) = Some (length s)"
  by (induction s) auto

lemma find_char_None: "find_char c s = None \<longleftrightarrow> c \<notin> set s"
  by (induction s) auto

lemma rfind_char_append: "c \<notin> set t \<Longrightarrow> rfind_char c (s @ c # t) = Some (length s)"
proof (induction s)
  case Nil
  have "rfind_char c t = None" using Nil by (induction t) auto
  then show ?case by simp
next
  case (Cons x s)
  then show ?case by simp
qed

lemma dropWhile_id: "s = [] \<or> \<not> P (hd s) \<Longrightarrow> dropWhile P s = s"
  by (cases s) auto

text \<open>Stripping leaves a text alone that neither begins nor ends with white space.\<close>

lemma py_strip_id:
  assumes "s = [] \<or> \<not> is_space (hd s) \<and> \<not> is_space (last s)"
  shows "py_strip s = s"
  using assms by (auto simp: py_strip_def dropWhile_id hd_rev)

lemma digit_not_space: "is_dec_digit c \<Longrightarrow> \<not> is_space c"
proof -
  have "list_all (\<lambda>c. \<not> is_space c) ''0123456789''" by code_simp
  then show "is_dec_digit c \<Longrightarrow> \<not> is_space c" by (simp only: is_dec_digit_def list_all_iff) blast
qed

lemma hex_digit_ascii: "is_hex_digit c \<Longrightarrow> is_ascii_char c"
proof -
  have "list_all is_ascii_char ''0123456789abcdefABCDEF''" by code_simp
  then show "is_hex_digit c \<Longrightarrow> is_ascii_char c" by (simp only: is_hex_digit_def list_all_iff)
qed

lemma dec_digit_hex: "is_dec_digit c \<Longrightarrow> is_hex_digit c"
proof -
  have "list_all is_hex_digit ''0123456789''" by code_simp
  then show "is_dec_digit c \<Longrightarrow> is_hex_digit c" by (simp only: is_dec_digit_def list_all_iff)
qed

lemma dec_digit_ascii: "is_dec_digit c \<Longrightarrow> is_ascii_char c"
  by (simp add: dec_digit_hex hex_digit_ascii)

lemma str_nat_isdecimal [py_text]: "py_isdecimal (str_nat n)"
  by (simp add: py_isdecimal_def str_nat_digits)

lemma str_nat_isascii [py_text]: "py_isascii (str_nat n)"
  using str_nat_digits [of n] unfolding py_isascii_def
  by (auto simp: list_all_iff dec_digit_ascii)

lemma str_nat_char:
  assumes "\<not> is_dec_digit c"
  shows "c \<notin> set (str_nat n)"
  using assms str_nat_digits [of n] by (auto simp: list_all_iff)

lemma hex_nat_char:
  assumes "\<not> is_hex_digit c"
  shows "c \<notin> set (hex_nat n)"
  using assms hex_nat_digits [of n] by (auto simp: list_all_iff)

end
