(* ===== verification/Control_Abi.thy ===== *)
theory Control_Abi
  imports Py_Text
begin

text \<open>
  The constants of the hosted control ABI (\<^verbatim>\<open>tools/tcpcc_control.py\<close>): the record magic,
  version and payload limit, the operation codes and their names.
\<close>

definition MAGIC :: int where "MAGIC = 0x32434354"
definition VERSION :: int where "VERSION = 1"
definition MAX_PAYLOAD :: nat where "MAX_PAYLOAD = 256"
definition CONTROL_TIMEOUT :: rat where "CONTROL_TIMEOUT = 8"

definition OP_SOCKET :: int where "OP_SOCKET = 1"
definition OP_BIND :: int where "OP_BIND = 2"
definition OP_LISTEN :: int where "OP_LISTEN = 3"
definition OP_CONNECT :: int where "OP_CONNECT = 4"
definition OP_ACCEPT :: int where "OP_ACCEPT = 5"
definition OP_WRITE :: int where "OP_WRITE = 6"
definition OP_READ :: int where "OP_READ = 7"
definition OP_CLOSE :: int where "OP_CLOSE = 8"
definition OP_SET_CC :: int where "OP_SET_CC = 9"
definition OP_GET_CC :: int where "OP_GET_CC = 10"
definition OP_FINISH :: int where "OP_FINISH = 11"
definition OP_L3_ATTACH :: int where "OP_L3_ATTACH = 12"
definition OP_L3_STATS :: int where "OP_L3_STATS = 13"
definition OP_TCP_INFO :: int where "OP_TCP_INFO = 14"
definition OP_HOST_BACKEND_PROBE :: int where "OP_HOST_BACKEND_PROBE = 15"
definition OP_BRIDGE_START :: int where "OP_BRIDGE_START = 16"
definition OP_BRIDGE_JOIN :: int where "OP_BRIDGE_JOIN = 17"
definition OP_BRIDGE_CANCEL :: int where "OP_BRIDGE_CANCEL = 18"
definition OP_ACCEPT_NONBLOCK :: int where "OP_ACCEPT_NONBLOCK = 19"
definition OP_SHUTDOWN :: int where "OP_SHUTDOWN = 20"
definition OP_BRIDGE_JOIN_RESULT :: int where "OP_BRIDGE_JOIN_RESULT = 21"
definition OP_HELLO :: int where "OP_HELLO = 22"
definition OP_SERVICE_START :: int where "OP_SERVICE_START = 23"
definition OP_SERVICE_DRAIN :: int where "OP_SERVICE_DRAIN = 24"
definition OP_SERVICE_STATS :: int where "OP_SERVICE_STATS = 25"
definition OP_SERVICE_STOP :: int where "OP_SERVICE_STOP = 26"
definition OP_SOCKET_IP :: int where "OP_SOCKET_IP = 27"
definition OP_BIND_IP :: int where "OP_BIND_IP = 28"
definition OP_L3_ATTACH_IP :: int where "OP_L3_ATTACH_IP = 29"
definition OP_RECLAIM_STATS :: int where "OP_RECLAIM_STATS = 30"

definition RECLAIM_STATE_STARTING :: int where "RECLAIM_STATE_STARTING = 0"
definition RECLAIM_STATE_ACTIVE :: int where "RECLAIM_STATE_ACTIVE = 1"
definition RECLAIM_STATE_UNSUPPORTED :: int where "RECLAIM_STATE_UNSUPPORTED = 2"
definition RECLAIM_STATE_FAILED :: int where "RECLAIM_STATE_FAILED = 3"

lemmas op_defs =
  OP_SOCKET_def OP_BIND_def OP_LISTEN_def OP_CONNECT_def OP_ACCEPT_def OP_WRITE_def OP_READ_def
  OP_CLOSE_def OP_SET_CC_def OP_GET_CC_def OP_FINISH_def OP_L3_ATTACH_def OP_L3_STATS_def
  OP_TCP_INFO_def OP_HOST_BACKEND_PROBE_def OP_BRIDGE_START_def OP_BRIDGE_JOIN_def
  OP_BRIDGE_CANCEL_def OP_ACCEPT_NONBLOCK_def OP_SHUTDOWN_def OP_BRIDGE_JOIN_RESULT_def
  OP_HELLO_def OP_SERVICE_START_def OP_SERVICE_DRAIN_def OP_SERVICE_STATS_def
  OP_SERVICE_STOP_def OP_SOCKET_IP_def OP_BIND_IP_def OP_L3_ATTACH_IP_def OP_RECLAIM_STATS_def

definition OP_NAMES :: "(int \<times> string) list" where
  "OP_NAMES =
    [(OP_SOCKET, ''socket''), (OP_BIND, ''bind''), (OP_LISTEN, ''listen''),
     (OP_CONNECT, ''connect''), (OP_ACCEPT, ''accept''), (OP_WRITE, ''write''),
     (OP_READ, ''read''), (OP_CLOSE, ''close''), (OP_SET_CC, ''set-cc''),
     (OP_GET_CC, ''get-cc''), (OP_FINISH, ''finish''), (OP_L3_ATTACH, ''l3-attach''),
     (OP_L3_STATS, ''l3-stats''), (OP_TCP_INFO, ''tcp-info''),
     (OP_HOST_BACKEND_PROBE, ''host-backend-probe''), (OP_BRIDGE_START, ''bridge-start''),
     (OP_BRIDGE_JOIN, ''bridge-join''), (OP_BRIDGE_CANCEL, ''bridge-cancel''),
     (OP_ACCEPT_NONBLOCK, ''accept-nonblock''), (OP_SHUTDOWN, ''shutdown''),
     (OP_BRIDGE_JOIN_RESULT, ''bridge-join-result''), (OP_HELLO, ''hello''),
     (OP_SERVICE_START, ''service-start''), (OP_SERVICE_DRAIN, ''service-drain''),
     (OP_SERVICE_STATS, ''service-stats''), (OP_SERVICE_STOP, ''service-stop''),
     (OP_SOCKET_IP, ''socket-ip''), (OP_BIND_IP, ''bind-ip''),
     (OP_L3_ATTACH_IP, ''l3-attach-ip''), (OP_RECLAIM_STATS, ''reclaim-stats'')]"

text \<open>\<open>OP_NAMES.get(operation, f"op-{operation}")\<close>.\<close>

definition op_name :: "int \<Rightarrow> string" where
  "op_name operation =
     (case map_of OP_NAMES operation of Some n \<Rightarrow> n | None \<Rightarrow> ''op-'' @ str_int operation)"

lemma OP_NAMES_keys: "map fst OP_NAMES = [1..30]"
  by code_simp

lemma OP_NAMES_distinct: "distinct (map fst OP_NAMES)"
  unfolding OP_NAMES_keys by simp

end
