(* ===== verification/Errors.thy ===== *)
theory Errors
  imports Control_Abi
begin

text \<open>
  The values and the exceptions of the modelled code.  \<open>pyval\<close> is a dynamically typed
  argument, used where the source checks the type of what it is given.  \<open>exn\<close> has one
  constructor per exception class that the sources raise, catch or wrap; the reports that
  \<^verbatim>\<open>HostPreflightError\<close> and \<^verbatim>\<open>StaleOwnershipError\<close> carry come first.
  \<open>exn_type_name\<close> and \<open>exn_str\<close> are \<^verbatim>\<open>type(error).__name__\<close> and \<^verbatim>\<open>str(error)\<close>.
\<close>

type_synonym byte = "8 word"
type_synonym bytes = "byte list"

text \<open>A float is modelled by the rational number it stands for; infinities and NaN are left out.\<close>

datatype pyval =
    PNone
  | PBool bool
  | PInt int
  | PFloat rat
  | PStr string
  | PBytes bytes
  | PObject

section \<open>Reports\<close>

text \<open>One preflight check result, and the report made of them.\<close>

record CheckResult =
  ck_id :: string
  ck_status :: string
  ck_severity :: string
  ck_observed :: string
  ck_expected :: string
  ck_remediation :: string

record PreflightReport =
  pr_requested_cc :: string
  pr_checks :: "CheckResult list"

text \<open>
  \<open>NftOwnershipObservation\<close> and \<open>IptablesOwnershipObservation\<close> have the same fields but for
  the name of the first, the table or the chain that carries the marker.
\<close>

record OwnershipObservation =
  ob_name :: string
  ob_status :: string
  ob_owner_pid :: "int option"
  ob_owner_start_time :: "int option"
  ob_tun_name :: "string option"
  ob_detail :: string
  ob_remediation :: string

datatype OwnershipReport =
    NftOwnershipReport "OwnershipObservation list"
  | IptablesOwnershipReport "OwnershipObservation list"

section \<open>Exceptions\<close>

text \<open>The subclasses of \<open>OSError\<close> that the sources tell apart.\<close>

datatype os_kind =
    FileNotFoundError | PermissionError | FileExistsError | BrokenPipeError | TimeoutError
  | PlainOSError

text \<open>
  \<open>OSError k errno text\<close>: \<open>text\<close> is what \<open>str\<close> gives.  \<open>CalledProcessError code stderr text\<close>
  likewise.  The nested constructors keep the wrapped exceptions, as the attributes of the
  source's classes do.
\<close>

datatype exn =
    ValueError string
  | TypeError string
  | RuntimeError string
  | UnicodeDecodeError string
  | OSError os_kind "int option" string
  | EOFError string
  | IndexError string
  | StructError string
  | CalledProcessError int "string option" string
  | TimeoutExpired string
  | KeyboardInterrupt
  | OtherError string string
  | ControlError string
  | ControlProtocolError string
  | ControlOperationError int int
  | CleanupError "(string \<times> exn) list"
  | TunSetupCleanupError exn exn
  | NftCompatibilityError exn
  | LibNftablesError string int string
  | IptablesInstallRollbackError exn "exn list"
  | HostPreflightError PreflightReport
  | StaleOwnershipError OwnershipReport
  | StartupRollbackError exn "(string \<times> exn) list"
  | RuntimeExitedError string
  | RuntimeCleanupError "exn list"
  | ServiceCleanupError "exn option" "exn list"
  | ArgumentTypeError string

type_synonym ('s, 'a) py = "(exn, 's, 'a) pym"

text \<open>The \<open>except\<close> clauses that name a class catch its subclasses too.\<close>

fun is_OSError :: "exn \<Rightarrow> bool" where
  "is_OSError (OSError k n t) = True"
| "is_OSError _ = False"

fun is_FileNotFoundError :: "exn \<Rightarrow> bool" where
  "is_FileNotFoundError (OSError FileNotFoundError n t) = True"
| "is_FileNotFoundError _ = False"

fun is_UnicodeError :: "exn \<Rightarrow> bool" where
  "is_UnicodeError (UnicodeDecodeError t) = True"
| "is_UnicodeError _ = False"

text \<open>\<open>UnicodeError\<close> is a subclass of \<open>ValueError\<close>.\<close>

fun is_ValueError :: "exn \<Rightarrow> bool" where
  "is_ValueError (ValueError t) = True"
| "is_ValueError (UnicodeDecodeError t) = True"
| "is_ValueError _ = False"

fun os_errno :: "exn \<Rightarrow> int option" where
  "os_errno (OSError k n t) = n"
| "os_errno _ = None"

text \<open>\<open>except Exception\<close> catches everything but \<open>KeyboardInterrupt\<close> (and its kin).\<close>

fun is_Exception :: "exn \<Rightarrow> bool" where
  "is_Exception KeyboardInterrupt = False"
| "is_Exception _ = True"

section \<open>Type names and messages\<close>

fun os_kind_name :: "os_kind \<Rightarrow> string" where
  "os_kind_name FileNotFoundError = ''FileNotFoundError''"
| "os_kind_name PermissionError = ''PermissionError''"
| "os_kind_name FileExistsError = ''FileExistsError''"
| "os_kind_name BrokenPipeError = ''BrokenPipeError''"
| "os_kind_name TimeoutError = ''TimeoutError''"
| "os_kind_name PlainOSError = ''OSError''"

fun exn_type_name :: "exn \<Rightarrow> string" where
  "exn_type_name (ValueError t) = ''ValueError''"
| "exn_type_name (TypeError t) = ''TypeError''"
| "exn_type_name (RuntimeError t) = ''RuntimeError''"
| "exn_type_name (UnicodeDecodeError t) = ''UnicodeDecodeError''"
| "exn_type_name (OSError k n t) = os_kind_name k"
| "exn_type_name (EOFError t) = ''EOFError''"
| "exn_type_name (IndexError t) = ''IndexError''"
| "exn_type_name (StructError t) = ''error''"
| "exn_type_name (CalledProcessError c e t) = ''CalledProcessError''"
| "exn_type_name (TimeoutExpired t) = ''TimeoutExpired''"
| "exn_type_name KeyboardInterrupt = ''KeyboardInterrupt''"
| "exn_type_name (OtherError n t) = n"
| "exn_type_name (ControlError t) = ''ControlError''"
| "exn_type_name (ControlProtocolError t) = ''ControlProtocolError''"
| "exn_type_name (ControlOperationError op st) = ''ControlOperationError''"
| "exn_type_name (CleanupError fs) = ''CleanupError''"
| "exn_type_name (TunSetupCleanupError a b) = ''TunSetupCleanupError''"
| "exn_type_name (NftCompatibilityError a) = ''NftCompatibilityError''"
| "exn_type_name (LibNftablesError op c t) = ''LibNftablesError''"
| "exn_type_name (IptablesInstallRollbackError a bs) = ''IptablesInstallRollbackError''"
| "exn_type_name (HostPreflightError r) = ''HostPreflightError''"
| "exn_type_name (StaleOwnershipError r) = ''StaleOwnershipError''"
| "exn_type_name (StartupRollbackError a fs) = ''StartupRollbackError''"
| "exn_type_name (RuntimeExitedError t) = ''RuntimeExitedError''"
| "exn_type_name (RuntimeCleanupError es) = ''RuntimeCleanupError''"
| "exn_type_name (ServiceCleanupError p es) = ''ServiceCleanupError''"
| "exn_type_name (ArgumentTypeError t) = ''ArgumentTypeError''"

text \<open>
  \<open>os.strerror\<close> is the C library's table: a parameter, \<open>None\<close> where it raises
  \<open>ValueError\<close>.
\<close>

definition control_operation_message :: "(int \<Rightarrow> string option) \<Rightarrow> int \<Rightarrow> int \<Rightarrow> string" where
  "control_operation_message strerror operation st =
     (let name = op_name operation;
          detail = (if st < 0
                    then (case strerror (- st) of Some d \<Rightarrow> d | None \<Rightarrow> ''unknown errno'')
                    else ''unexpected non-negative status'')
      in ''hosted '' @ name @ '' failed with status '' @ str_int st @ '': '' @ detail)"

definition preflight_message :: "PreflightReport \<Rightarrow> string" where
  "preflight_message r =
     ''host preflight failed: ''
     @ join '', '' (map ck_id (filter (\<lambda>c. ck_status c = ''fail'') (pr_checks r)))"

definition stale_message :: "OwnershipReport \<Rightarrow> string" where
  "stale_message r =
     (let (backend, obs) =
        (case r of NftOwnershipReport os \<Rightarrow> (''nft'', os) | IptablesOwnershipReport os \<Rightarrow> (''iptables'', os))
      in ''unsafe tcpcc '' @ backend @ '' ownership state: ''
         @ join '', '' (map (\<lambda>i. ob_name i @ ''('' @ ob_status i @ '')'')
             (filter (\<lambda>i. ob_status i \<noteq> ''active'') obs)))"

text \<open>
  The messages of the classes that wrap other errors, over the rendered form
  \<open>type(error).__name__: error\<close> of what they wrap.
\<close>

definition error_text :: "string \<Rightarrow> string \<Rightarrow> string" where
  "error_text type_name text = type_name @ '': '' @ text"

definition cleanup_message :: "(string \<times> string) list \<Rightarrow> string" where
  "cleanup_message failures =
     ''resource cleanup failed: '' @ join ''; '' (map (\<lambda>(label, e). label @ '': '' @ e) failures)"

definition tun_setup_cleanup_message :: "string \<Rightarrow> string \<Rightarrow> string" where
  "tun_setup_cleanup_message setup_error cleanup_error =
     ''TUN setup failed and its queue fd could not be closed: ''
     @ ''setup='' @ setup_error @ ''; '' @ ''cleanup='' @ cleanup_error"

definition nft_compatibility_message :: "string option \<Rightarrow> string" where
  "nft_compatibility_message stderr =
     ''host nftables cannot install tcpcc exact DNAT and ownership '' @ ''metadata: ''
     @ py_strip (case stderr of
                   Some e \<Rightarrow> (if e = [] then ''nftables rejected the dry-run'' else e)
                 | None \<Rightarrow> ''nftables rejected the dry-run'')"

definition lib_nftables_message :: "string \<Rightarrow> int \<Rightarrow> string \<Rightarrow> string" where
  "lib_nftables_message operation return_code stderr =
     ''libnftables '' @ operation @ '' failed ('' @ str_int return_code @ ''): ''
     @ (if py_strip stderr = [] then ''libnftables returned no diagnostic'' else py_strip stderr)"

text \<open>Here the install error is rendered without its type.\<close>

definition iptables_rollback_message :: "string \<Rightarrow> string list \<Rightarrow> string" where
  "iptables_rollback_message install_error cleanup_errors =
     ''iptables install failed ('' @ install_error @ '') and private-chain '' @ ''rollback failed (''
     @ join ''; '' cleanup_errors @ '')''"

definition startup_rollback_message :: "string \<Rightarrow> (string \<times> string) list \<Rightarrow> string" where
  "startup_rollback_message startup_error failures =
     ''host-network startup failed ('' @ startup_error @ '') and rollback failed (''
     @ join ''; '' (map (\<lambda>(label, e). label @ '': '' @ e) failures) @ '')''"

definition runtime_cleanup_message :: "string list \<Rightarrow> string" where
  "runtime_cleanup_message failures = ''hosted runtime cleanup failed: '' @ join ''; '' failures"

definition service_cleanup_message :: "string option \<Rightarrow> string list \<Rightarrow> string" where
  "service_cleanup_message primary failures =
     (case primary of
        None \<Rightarrow> ''service cleanup failed: '' @ join ''; '' failures
      | Some e \<Rightarrow> ''service failed ('' @ e @ '') and cleanup failed ('' @ join ''; '' failures @ '')'')"

text \<open>
  \<open>str(error)\<close>: for the source's own classes, the message their constructors build from the
  wrapped errors.
\<close>

fun exn_str :: "(int \<Rightarrow> string option) \<Rightarrow> exn \<Rightarrow> string" where
  "exn_str se (ValueError t) = t"
| "exn_str se (TypeError t) = t"
| "exn_str se (RuntimeError t) = t"
| "exn_str se (UnicodeDecodeError t) = t"
| "exn_str se (OSError k n t) = t"
| "exn_str se (EOFError t) = t"
| "exn_str se (IndexError t) = t"
| "exn_str se (StructError t) = t"
| "exn_str se (CalledProcessError c e t) = t"
| "exn_str se (TimeoutExpired t) = t"
| "exn_str se KeyboardInterrupt = []"
| "exn_str se (OtherError n t) = t"
| "exn_str se (ControlError t) = t"
| "exn_str se (ControlProtocolError t) = t"
| "exn_str se (ControlOperationError op st) = control_operation_message se op st"
| "exn_str se (CleanupError fs) =
     cleanup_message (map (\<lambda>(l, e). (l, error_text (exn_type_name e) (exn_str se e))) fs)"
| "exn_str se (TunSetupCleanupError a b) =
     tun_setup_cleanup_message (error_text (exn_type_name a) (exn_str se a))
       (error_text (exn_type_name b) (exn_str se b))"
| "exn_str se (NftCompatibilityError a) =
     nft_compatibility_message (case a of CalledProcessError c e t \<Rightarrow> e | _ \<Rightarrow> None)"
| "exn_str se (LibNftablesError op c t) = lib_nftables_message op c t"
| "exn_str se (IptablesInstallRollbackError a bs) =
     iptables_rollback_message (exn_str se a)
       (map (\<lambda>e. error_text (exn_type_name e) (exn_str se e)) bs)"
| "exn_str se (HostPreflightError r) = preflight_message r"
| "exn_str se (StaleOwnershipError r) = stale_message r"
| "exn_str se (StartupRollbackError a fs) =
     startup_rollback_message (error_text (exn_type_name a) (exn_str se a))
       (map (\<lambda>(l, e). (l, error_text (exn_type_name e) (exn_str se e))) fs)"
| "exn_str se (RuntimeExitedError t) = t"
| "exn_str se (RuntimeCleanupError es) =
     runtime_cleanup_message (map (\<lambda>e. error_text (exn_type_name e) (exn_str se e)) es)"
| "exn_str se (ServiceCleanupError p es) =
     service_cleanup_message (map_option (\<lambda>e. error_text (exn_type_name e) (exn_str se e)) p)
       (map (\<lambda>e. error_text (exn_type_name e) (exn_str se e)) es)"
| "exn_str se (ArgumentTypeError t) = t"

end
