(* ===== verification/Struct_Codec.thy ===== *)
theory Struct_Codec
  imports Errors
begin

text \<open>
  Python's \<^verbatim>\<open>struct\<close> module, for the little-endian formats without alignment that the
  sources use: a format is a list of fields, \<open>FU n\<close> and \<open>FI n\<close> an unsigned and a signed
  integer of \<open>n\<close> bytes (\<^verbatim>\<open>B\<close>, \<^verbatim>\<open>H\<close>, \<^verbatim>\<open>I\<close>, \<^verbatim>\<open>Q\<close>, \<^verbatim>\<open>i\<close>), \<open>FS n\<close> a byte
  string of \<open>n\<close> bytes (\<^verbatim>\<open>16s\<close>) and \<open>FX n\<close> padding (\<^verbatim>\<open>3x\<close>).  \<open>pack\<close> and \<open>unpack\<close>
  raise \<^verbatim>\<open>struct.error\<close> where the module does.  The locale \<open>byte_codec\<close> states what a
  fixed-width field promises; both integer encodings are instances, and packing followed by
  unpacking gives the values back for every format.
\<close>

datatype field = FU nat | FI nat | FS nat | FX nat

datatype sval = VI int | VB bytes

fun field_size :: "field \<Rightarrow> nat" where
  "field_size (FU n) = n"
| "field_size (FI n) = n"
| "field_size (FS n) = n"
| "field_size (FX n) = n"

definition calcsize :: "field list \<Rightarrow> nat" where
  "calcsize fs = sum_list (map field_size fs)"

section \<open>Little-endian integers\<close>

fun le_bytes :: "nat \<Rightarrow> nat \<Rightarrow> bytes" where
  "le_bytes 0 n = []"
| "le_bytes (Suc k) n = of_nat (n mod 256) # le_bytes k (n div 256)"

fun le_val :: "bytes \<Rightarrow> nat" where
  "le_val [] = 0"
| "le_val (b # bs) = unat b + 256 * le_val bs"

text \<open>Two's complement on \<open>k\<close> bytes.\<close>

definition signed_bytes :: "nat \<Rightarrow> int \<Rightarrow> bytes" where
  "signed_bytes k i = le_bytes k (nat (i mod 256 ^ k))"

definition signed_val :: "bytes \<Rightarrow> int" where
  "signed_val bs =
     (let v = int (le_val bs); m = 256 ^ length bs in if 2 * v < m then v else v - m)"

definition unsigned_bytes :: "nat \<Rightarrow> int \<Rightarrow> bytes" where
  "unsigned_bytes k i = le_bytes k (nat i)"

definition unsigned_val :: "bytes \<Rightarrow> int" where
  "unsigned_val bs = int (le_val bs)"

definition unsigned_range :: "nat \<Rightarrow> int \<Rightarrow> bool" where
  "unsigned_range k i \<longleftrightarrow> 0 \<le> i \<and> i < 256 ^ k"

definition signed_range :: "nat \<Rightarrow> int \<Rightarrow> bool" where
  "signed_range k i \<longleftrightarrow> - (256 ^ k) \<le> 2 * i \<and> 2 * i < 256 ^ k"

lemma length_le_bytes [simp]: "length (le_bytes k n) = k"
  by (induction k arbitrary: n) auto

lemma le_val_le_bytes: "le_val (le_bytes k n) = n mod 256 ^ k"
proof (induction k arbitrary: n)
  case 0
  then show ?case by simp
next
  case (Suc k)
  have "unat (of_nat (n mod 256) :: byte) = n mod 256"
    by (simp add: unat_of_nat)
  then show ?case using Suc.IH [of "n div 256"]
    by (simp add: mod_mult2_eq [of n 256 "256 ^ k"] add.commute)
qed

lemma le_val_bound: "le_val bs < 256 ^ length bs"
proof (induction bs)
  case Nil
  then show ?case by simp
next
  case (Cons b bs)
  have "unat b < 256" using unsigned_less [of b] by simp
  with Cons.IH have "unat b + 256 * le_val bs < 256 * 256 ^ length bs" by linarith
  then show ?case by simp
qed

lemma le_bytes_le_val: "le_bytes (length bs) (le_val bs) = bs"
proof (induction bs)
  case Nil
  then show ?case by simp
next
  case (Cons b bs)
  have "unat b < 256" using unsigned_less [of b] by simp
  then show ?case using Cons.IH by simp
qed

lemma le_bytes_inject:
  assumes "m < 256 ^ k" "n < 256 ^ k" "le_bytes k m = le_bytes k n"
  shows "m = n"
  using assms by (metis le_val_le_bytes mod_less)

section \<open>What a fixed-width field promises\<close>

locale byte_codec =
  fixes enc :: "nat \<Rightarrow> 'v \<Rightarrow> bytes"
    and dec :: "bytes \<Rightarrow> 'v"
    and in_range :: "nat \<Rightarrow> 'v \<Rightarrow> bool"
  assumes enc_length: "length (enc k v) = k"
    and dec_enc: "in_range k v \<Longrightarrow> dec (enc k v) = v"
    and enc_dec: "enc (length bs) (dec bs) = bs"
    and dec_range: "in_range (length bs) (dec bs)"
begin

lemma enc_inject: "in_range k v \<Longrightarrow> in_range k w \<Longrightarrow> enc k v = enc k w \<Longrightarrow> v = w"
  by (metis dec_enc)

lemma dec_inject: "length bs = length cs \<Longrightarrow> dec bs = dec cs \<Longrightarrow> bs = cs"
  by (metis enc_dec)

lemma take_enc: "take k (enc k v @ rest) = enc k v" "drop k (enc k v @ rest) = rest"
  by (simp_all add: enc_length)

end

interpretation unsigned_codec: byte_codec unsigned_bytes unsigned_val unsigned_range
proof
  fix k and v :: int and bs :: bytes
  show "length (unsigned_bytes k v) = k" by (simp add: unsigned_bytes_def)
  show "unsigned_val (unsigned_bytes k v) = v" if "unsigned_range k v"
  proof -
    from that have "nat v < 256 ^ k" by (simp add: unsigned_range_def nat_less_iff)
    with that show ?thesis
      by (simp add: unsigned_bytes_def unsigned_val_def unsigned_range_def le_val_le_bytes)
  qed
  show "unsigned_bytes (length bs) (unsigned_val bs) = bs"
    by (simp add: unsigned_bytes_def unsigned_val_def le_bytes_le_val)
  show "unsigned_range (length bs) (unsigned_val bs)"
    using le_val_bound [of bs] by (simp add: unsigned_range_def unsigned_val_def flip: of_nat_less_iff)
qed

lemma signed_val_signed_bytes:
  assumes "signed_range k i"
  shows "signed_val (signed_bytes k i) = i"
proof -
  let ?m = "256 ^ k :: int"
  have m: "0 < ?m" by simp
  have v: "int (le_val (signed_bytes k i)) = i mod ?m"
    by (simp add: signed_bytes_def le_val_le_bytes zmod_int)
  show ?thesis
  proof (cases "0 \<le> i")
    case True
    with assms have "i mod ?m = i" by (simp add: signed_range_def)
    with assms True v show ?thesis
      by (simp add: signed_val_def signed_range_def signed_bytes_def Let_def)
  next
    case False
    with assms have "(i + ?m) mod ?m = i + ?m" by (intro mod_pos_pos_trivial) (auto simp: signed_range_def)
    then have "i mod ?m = i + ?m" by simp
    with assms v show ?thesis
      by (simp add: signed_val_def signed_range_def signed_bytes_def Let_def)
  qed
qed

lemma wrap_range:
  fixes v m :: int
  assumes "v < m" "0 \<le> v" "\<not> 2 * v < m"
  shows "- m \<le> 2 * (v - m) \<and> 2 * (v - m) < m"
  using assms by arith

interpretation signed_codec: byte_codec signed_bytes signed_val signed_range
proof
  fix k and v :: int and bs :: bytes
  show "length (signed_bytes k v) = k" by (simp add: signed_bytes_def)
  show "signed_range k v \<Longrightarrow> signed_val (signed_bytes k v) = v" by (rule signed_val_signed_bytes)
  have b: "int (le_val bs) < 256 ^ length bs"
    using le_val_bound [of bs] by (simp flip: of_nat_less_iff)
  have "signed_val bs mod 256 ^ length bs = int (le_val bs)"
    using b by (auto simp: signed_val_def Let_def mod_pos_pos_trivial)
  then show "signed_bytes (length bs) (signed_val bs) = bs"
    by (simp add: signed_bytes_def le_bytes_le_val)
  have p: "0 < (256 :: int) ^ length bs" by simp
  show "signed_range (length bs) (signed_val bs)"
  proof (cases "2 * int (le_val bs) < 256 ^ length bs")
    case True
    with p show ?thesis
      by (simp add: signed_range_def signed_val_def Let_def)
  next
    case False
    with b p show ?thesis
      by (simp only: signed_range_def signed_val_def Let_def if_False) (rule wrap_range, simp_all)
  qed
qed

section \<open>Packing and unpacking\<close>

text \<open>\<open>FS n\<close> cuts a longer byte string off and fills a shorter one with zero bytes.\<close>

definition fit_bytes :: "nat \<Rightarrow> bytes \<Rightarrow> bytes" where
  "fit_bytes n bs = take n bs @ replicate (n - length bs) 0"

fun pack :: "field list \<Rightarrow> sval list \<Rightarrow> exn + bytes" where
  "pack [] [] = Inr []"
| "pack (FX n # fs) vs = rbind (pack fs vs) (\<lambda>rest. Inr (replicate n 0 @ rest))"
| "pack (FU n # fs) (VI i # vs) =
     (if unsigned_range n i then rbind (pack fs vs) (\<lambda>rest. Inr (unsigned_bytes n i @ rest))
      else Inl (StructError ''argument out of range''))"
| "pack (FI n # fs) (VI i # vs) =
     (if signed_range n i then rbind (pack fs vs) (\<lambda>rest. Inr (signed_bytes n i @ rest))
      else Inl (StructError ''argument out of range''))"
| "pack (FS n # fs) (VB b # vs) = rbind (pack fs vs) (\<lambda>rest. Inr (fit_bytes n b @ rest))"
| "pack _ _ = Inl (StructError ''bad arguments for the format'')"

fun unpack_fields :: "field list \<Rightarrow> bytes \<Rightarrow> sval list" where
  "unpack_fields [] bs = []"
| "unpack_fields (FX n # fs) bs = unpack_fields fs (drop n bs)"
| "unpack_fields (FU n # fs) bs = VI (unsigned_val (take n bs)) # unpack_fields fs (drop n bs)"
| "unpack_fields (FI n # fs) bs = VI (signed_val (take n bs)) # unpack_fields fs (drop n bs)"
| "unpack_fields (FS n # fs) bs = VB (take n bs) # unpack_fields fs (drop n bs)"

definition unpack :: "field list \<Rightarrow> bytes \<Rightarrow> exn + sval list" where
  "unpack fs bs =
     (if length bs = calcsize fs then Inr (unpack_fields fs bs)
      else Inl (StructError ''unpack requires a buffer of the format's size''))"

text \<open>What a field of the format accepts, and the value it stands for after a round trip.\<close>

fun fits :: "field list \<Rightarrow> sval list \<Rightarrow> bool" where
  "fits [] [] = True"
| "fits (FX n # fs) vs = fits fs vs"
| "fits (FU n # fs) (VI i # vs) = (unsigned_range n i \<and> fits fs vs)"
| "fits (FI n # fs) (VI i # vs) = (signed_range n i \<and> fits fs vs)"
| "fits (FS n # fs) (VB b # vs) = fits fs vs"
| "fits _ _ = False"

fun fitted :: "field list \<Rightarrow> sval list \<Rightarrow> sval list" where
  "fitted (FX n # fs) vs = fitted fs vs"
| "fitted (FS n # fs) (VB b # vs) = VB (fit_bytes n b) # fitted fs vs"
| "fitted (f # fs) (v # vs) = v # fitted fs vs"
| "fitted _ vs = vs"

lemma length_fit_bytes [simp]: "length (fit_bytes n b) = n"
  by (simp add: fit_bytes_def)

lemma fit_bytes_id: "length b = n \<Longrightarrow> fit_bytes n b = b"
  by (simp add: fit_bytes_def)

lemma take_fit_bytes: "length b \<le> n \<Longrightarrow> take (length b) (fit_bytes n b) = b"
  by (simp add: fit_bytes_def)

lemma pack_succeeds: "(\<exists>bs. pack fs vs = Inr bs) \<longleftrightarrow> fits fs vs"
  by (induction fs vs rule: pack.induct) (auto simp: rbind_eq_Inr)

lemma length_pack: "pack fs vs = Inr bs \<Longrightarrow> length bs = calcsize fs"
  by (induction fs vs arbitrary: bs rule: pack.induct)
    (auto simp: calcsize_def rbind_eq_Inr unsigned_codec.enc_length signed_codec.enc_length
      split: if_splits)

lemma unpack_fields_pack: "pack fs vs = Inr bs \<Longrightarrow> unpack_fields fs bs = fitted fs vs"
  by (induction fs vs arbitrary: bs rule: pack.induct)
    (auto simp: rbind_eq_Inr unsigned_codec.enc_length signed_codec.enc_length
      unsigned_codec.dec_enc signed_codec.dec_enc split: if_splits)

lemma unpack_pack: "pack fs vs = Inr bs \<Longrightarrow> unpack fs bs = Inr (fitted fs vs)"
  by (simp add: unpack_def length_pack unpack_fields_pack)

lemma pack_inject:
  assumes "pack fs vs = Inr bs" "pack fs ws = Inr bs"
  shows "fitted fs vs = fitted fs ws"
  using assms by (metis unpack_pack sum.inject(2))

lemma unpack_Inr [simp]: "unpack fs bs = Inr vs \<longleftrightarrow> length bs = calcsize fs \<and> vs = unpack_fields fs bs"
  by (auto simp: unpack_def)

text \<open>Without padding, unpacking and packing again gives the buffer back.\<close>

lemma pack_unpack:
  "length bs = calcsize fs \<Longrightarrow> list_all (\<lambda>f. \<forall>n. f \<noteq> FX n) fs \<Longrightarrow> pack fs (unpack_fields fs bs) = Inr bs"
proof (induction fs arbitrary: bs)
  case Nil
  then show ?case by (simp add: calcsize_def)
next
  case (Cons f fs)
  have n: "length (take (field_size f) bs) = field_size f"
    and rest: "length (drop (field_size f) bs) = calcsize fs"
    using Cons.prems(1) by (auto simp: calcsize_def)
  have IH: "pack fs (unpack_fields fs (drop (field_size f) bs)) = Inr (drop (field_size f) bs)"
    using Cons rest by simp
  show ?case
    using IH n Cons.prems(2) unsigned_codec.dec_range [of "take (field_size f) bs"]
      unsigned_codec.enc_dec [of "take (field_size f) bs"]
      signed_codec.dec_range [of "take (field_size f) bs"]
      signed_codec.enc_dec [of "take (field_size f) bs"]
    by (cases f) (simp_all add: fit_bytes_id)
qed

end
