(* ===== verification/Ip_Address.thy ===== *)
theory Ip_Address
  imports Struct_Codec
begin

text \<open>
  Python's \<^verbatim>\<open>ipaddress\<close> module as far as the sources use it: \<^verbatim>\<open>ip_address\<close> (dotted
  decimal, then IPv6 with \<^verbatim>\<open>::\<close>, an embedded IPv4 suffix and a scope identifier),
  \<^verbatim>\<open>str\<close> (with the longest run of zero groups written \<^verbatim>\<open>::\<close>), \<^verbatim>\<open>packed\<close>,
  \<^verbatim>\<open>version\<close>, \<^verbatim>\<open>max_prefixlen\<close>, \<^verbatim>\<open>is_unspecified\<close> and \<^verbatim>\<open>is_multicast\<close>.
  The main fact is \<open>ip_address_ip_str\<close>: printing an address and parsing the text gives the
  address back, so the printed form is canonical and comparing printed forms compares
  addresses.

  The two classifications are those of Python 3.11, whose tables for IPv6 are used for an IPv4-mapped
  address too; later releases of the module ask the embedded IPv4 address instead.
\<close>

datatype ip_address =
    IPv4 "32 word"
  | IPv6 "128 word" "string option"

section \<open>Digits of a fixed count, most significant first\<close>

fun be_digits :: "nat \<Rightarrow> nat \<Rightarrow> nat \<Rightarrow> nat list" where
  "be_digits b 0 n = []"
| "be_digits b (Suc k) n = be_digits b k (n div b) @ [n mod b]"

definition be_val :: "nat \<Rightarrow> nat list \<Rightarrow> nat" where
  "be_val b ds = foldl (\<lambda>a d. a * b + d) 0 ds"

lemma be_val_Nil [simp]: "be_val b [] = 0"
  by (simp add: be_val_def)

lemma be_val_snoc [simp]: "be_val b (ds @ [d]) = be_val b ds * b + d"
  by (simp add: be_val_def)

lemma length_be_digits [simp]: "length (be_digits b k n) = k"
  by (induction k arbitrary: n) auto

lemma be_digits_not_Nil: "0 < k \<Longrightarrow> be_digits b k n \<noteq> []"
  using length_be_digits [of b k n] by (metis length_0_conv less_irrefl)

lemma be_digits_less: "0 < b \<Longrightarrow> d \<in> set (be_digits b k n) \<Longrightarrow> d < b"
  by (induction k arbitrary: n) auto

lemma be_val_be_digits: "be_val b (be_digits b k n) = n mod b ^ k"
proof (induction k arbitrary: n)
  case 0
  then show ?case by simp
next
  case (Suc k)
  then show ?case by (simp add: mod_mult2_eq [of n b "b ^ k"] add.commute mult.commute)
qed

lemma be_digits_be_val:
  assumes "\<And>d. d \<in> set ds \<Longrightarrow> d < b"
  shows "be_digits b (length ds) (be_val b ds) = ds"
  using assms
proof (induction ds rule: rev_induct)
  case Nil
  then show ?case by simp
next
  case (snoc d ds)
  then have "d < b" "be_digits b (length ds) (be_val b ds) = ds" by auto
  then show ?case by simp
qed

lemma be_val_bound:
  assumes "\<And>d. d \<in> set ds \<Longrightarrow> d < b"
  shows "be_val b ds < b ^ length ds"
  using assms
proof (induction ds rule: rev_induct)
  case Nil
  then show ?case by simp
next
  case (snoc d ds)
  then have d: "d < b" and v: "be_val b ds < b ^ length ds" by auto
  from v have "(be_val b ds + 1) * b \<le> b ^ length ds * b" by (intro mult_right_mono) auto
  with d show ?case by (simp add: algebra_simps)
qed

section \<open>IPv4\<close>

definition parse_octet :: "string \<Rightarrow> nat option" where
  "parse_octet s =
     (if s = [] then None
      else if \<not> list_all is_dec_digit s then None
      else if length s > 3 then None
      else if s \<noteq> ''0'' \<and> hd s = CHR ''0'' then None
      else if dec_val s > 255 then None
      else Some (dec_val s))"

definition parse_v4 :: "string \<Rightarrow> nat option" where
  "parse_v4 s =
     (let octets = split_on (CHR ''.'') s
      in if s = [] \<or> length octets \<noteq> 4 then None
         else map_option (be_val 256) (those (map parse_octet octets)))"

definition v4_str :: "nat \<Rightarrow> string" where
  "v4_str n = join ''.'' (map str_nat (be_digits 256 4 n))"

lemma those_map_Some: "(\<And>x. x \<in> set xs \<Longrightarrow> f (g x) = Some x) \<Longrightarrow> those (map f (map g xs)) = Some xs"
  by (induction xs) auto

lemma those_Some_nth:
  "those xs = Some ys \<Longrightarrow> length ys = length xs \<and> (\<forall>i < length xs. xs ! i = Some (ys ! i))"
proof (induction xs arbitrary: ys)
  case Nil
  then show ?case by simp
next
  case (Cons x xs)
  then obtain y zs where "x = Some y" "those xs = Some zs" "ys = y # zs"
    by (auto split: option.splits)
  with Cons.IH [of zs] show ?case by (auto simp: nth_Cons split: nat.splits)
qed

lemma those_set: "those xs = Some ys \<Longrightarrow> y \<in> set ys \<Longrightarrow> Some y \<in> set xs"
  by (induction xs arbitrary: ys) (auto split: option.splits)

lemma those_all: "those xs = Some ys \<Longrightarrow> x \<in> set xs \<Longrightarrow> x \<noteq> None"
  by (induction xs arbitrary: ys) (auto split: option.splits)

lemma parse_octet_str_nat: "n < 256 \<Longrightarrow> parse_octet (str_nat n) = Some n"
proof -
  assume n: "n < 256"
  then have "length (str_nat n) \<le> 3"
    using length_str_base [of 10 n 3] by (simp add: str_nat_def)
  moreover have "str_nat n \<noteq> ''0'' \<Longrightarrow> hd (str_nat n) \<noteq> CHR ''0''"
    using hd_str_nat [of n] by (cases "n = 0") auto
  ultimately show ?thesis using n str_nat_digits [of n] by (auto simp: parse_octet_def)
qed

lemma parse_octet_bound: "parse_octet s = Some n \<Longrightarrow> n < 256"
  by (auto simp: parse_octet_def split: if_splits)

lemma parse_octet_digits: "parse_octet s = Some n \<Longrightarrow> list_all is_dec_digit s"
  by (simp add: parse_octet_def split: if_splits)

lemma dot_not_digit: "\<not> is_dec_digit (CHR ''.'')" "\<not> is_hex_digit (CHR ''.'')"
  by code_simp+

lemma colon_not_digit: "\<not> is_dec_digit (CHR '':'')" "\<not> is_hex_digit (CHR '':'')"
  by code_simp+

lemma percent_not_digit: "\<not> is_dec_digit (CHR ''%'')" "\<not> is_hex_digit (CHR ''%'')"
  by code_simp+

lemma slash_not_digit: "\<not> is_dec_digit (CHR ''/'')" "\<not> is_hex_digit (CHR ''/'')"
  by code_simp+

lemmas separators_not_digits =
  dot_not_digit colon_not_digit percent_not_digit slash_not_digit

lemma parse_v4_str:
  assumes "n < 2 ^ 32"
  shows "parse_v4 (v4_str n) = Some n"
proof -
  let ?ds = "be_digits 256 4 n"
  have split: "split_on (CHR ''.'') (v4_str n) = map str_nat ?ds"
    unfolding v4_str_def
    by (rule split_on_join) (auto simp: be_digits_not_Nil str_nat_char dot_not_digit)
  have "those (map parse_octet (map str_nat ?ds)) = Some ?ds"
    by (rule those_map_Some) (simp add: parse_octet_str_nat be_digits_less)
  moreover have "v4_str n \<noteq> []"
  proof
    assume "v4_str n = []"
    with split have "length (map str_nat ?ds) = length [[] :: string]" by (simp add: split_on_def)
    then show False by simp
  qed
  ultimately show ?thesis
    unfolding parse_v4_def Let_def split using assms by (simp add: be_val_be_digits del: map_map)
qed

lemma parse_v4_bound: "parse_v4 s = Some n \<Longrightarrow> n < 2 ^ 32"
proof -
  assume "parse_v4 s = Some n"
  then obtain ds where ds: "those (map parse_octet (split_on (CHR ''.'') s)) = Some ds"
    and len: "length (split_on (CHR ''.'') s) = 4" and n: "n = be_val 256 ds"
    by (auto simp: parse_v4_def Let_def split: if_splits)
  have "length ds = 4" using those_Some_nth [OF ds] len by simp
  moreover have "\<And>d. d \<in> set ds \<Longrightarrow> d < 256"
    using those_set [OF ds] parse_octet_bound by fastforce
  ultimately show ?thesis using n be_val_bound [of ds 256] by simp
qed

lemma set_split_by: "x \<in> set s \<Longrightarrow> P x \<or> (\<exists>p \<in> set (split_by P s). x \<in> set p)"
  by (induction s) (auto split: list.splits)

lemma parse_v4_chars:
  assumes "parse_v4 s = Some n" "c \<in> set s"
  shows "c = CHR ''.'' \<or> is_dec_digit c"
proof -
  from assms(1) obtain ds where ds: "those (map parse_octet (split_on (CHR ''.'') s)) = Some ds"
    by (auto simp: parse_v4_def Let_def split: if_splits)
  have "c = CHR ''.'' \<or> (\<exists>p \<in> set (split_on (CHR ''.'') s). c \<in> set p)"
    using set_split_by [OF assms(2), of "\<lambda>x. x = CHR ''.''"] by (simp add: split_on_def)
  moreover have "is_dec_digit c" if "p \<in> set (split_on (CHR ''.'') s)" "c \<in> set p" for p
    using those_all [OF ds, of "parse_octet p"] that parse_octet_digits [of p]
    by (auto simp: list_all_iff)
  ultimately show ?thesis by blast
qed

section \<open>IPv6\<close>

definition parse_hextet :: "string \<Rightarrow> nat option" where
  "parse_hextet s =
     (if \<not> list_all is_hex_digit s then None
      else if length s > 4 then None
      else if s = [] then None
      else Some (hex_val s))"

text \<open>An IPv4 suffix is rewritten into the two groups it stands for.\<close>

definition v6_suffix :: "string list \<Rightarrow> string list option" where
  "v6_suffix parts =
     (if CHR ''.'' \<in> set (last parts)
      then (case parse_v4 (last parts) of
              None \<Rightarrow> None
            | Some n \<Rightarrow> Some (butlast parts @ [hex_nat (n div 65536), hex_nat (n mod 65536)]))
      else Some parts)"

text \<open>
  The eight groups of the parts between colons.  The end points apart, at most one part may
  be empty; it stands for the groups left out.
\<close>

definition v6_groups :: "string list \<Rightarrow> nat list option" where
  "v6_groups parts =
     (let n = length parts in
      case filter (\<lambda>i. parts ! i = []) [1..<n - 1] of
        [] \<Rightarrow> (if n \<noteq> 8 \<or> hd parts = [] \<or> last parts = [] then None
               else those (map parse_hextet parts))
      | [k] \<Rightarrow>
          (let hi = (if hd parts = [] then k - 1 else k);
               lo = (if last parts = [] then n - k - 2 else n - k - 1)
           in if hd parts = [] \<and> hi \<noteq> 0 \<or> last parts = [] \<and> lo \<noteq> 0 \<or> 7 < hi + lo then None
              else (case (those (map parse_hextet (take hi parts)),
                          those (map parse_hextet (drop (n - lo) parts))) of
                      (Some a, Some b) \<Rightarrow> Some (a @ replicate (8 - (hi + lo)) 0 @ b)
                    | _ \<Rightarrow> None))
      | _ \<Rightarrow> None)"

definition parse_v6 :: "string \<Rightarrow> nat option" where
  "parse_v6 s =
     (let parts = split_on (CHR '':'') s
      in if s = [] \<or> length parts < 3 then None
         else (case v6_suffix parts of
                 None \<Rightarrow> None
               | Some ps \<Rightarrow> (if length ps > 9 then None
                             else map_option (be_val 65536) (v6_groups ps))))"

text \<open>The longest run of zero groups: the loop of \<open>_compress_hextets\<close>.\<close>

fun dc_loop :: "nat \<Rightarrow> int \<Rightarrow> nat \<Rightarrow> int \<Rightarrow> nat \<Rightarrow> string list \<Rightarrow> int \<times> nat" where
  "dc_loop i bs bl s l [] = (bs, bl)"
| "dc_loop i bs bl s l (h # hs) =
     (if h = ''0''
      then (let l' = Suc l; s' = (if s = -1 then int i else s)
            in if bl < l' then dc_loop (Suc i) s' l' s' l' hs else dc_loop (Suc i) bs bl s' l' hs)
      else dc_loop (Suc i) bs bl (-1) 0 hs)"

definition compress_hextets :: "string list \<Rightarrow> string list" where
  "compress_hextets hs =
     (let (bs, bl) = dc_loop 0 (-1) 0 (-1) 0 hs
      in if 1 < bl
         then (let st = nat bs; e = st + bl;
                   hs1 = (if e = length hs then hs @ [[]] else hs);
                   hs2 = take st hs1 @ [[]] @ drop e hs1
               in if st = 0 then [] # hs2 else hs2)
         else hs)"

definition v6_str :: "nat \<Rightarrow> string" where
  "v6_str n = join '':'' (compress_hextets (map hex_nat (be_digits 65536 8 n)))"

subsection \<open>The parser on the shapes the printer makes\<close>

lemma parse_hextet_hex_nat: "n < 65536 \<Longrightarrow> parse_hextet (hex_nat n) = Some n"
  using hex_nat_digits [of n] length_hex_nat [of n] by (simp add: parse_hextet_def)

lemma parse_hextet_bound: "parse_hextet s = Some n \<Longrightarrow> n < 65536"
proof -
  assume "parse_hextet s = Some n"
  then have s: "list_all is_hex_digit s" "length s \<le> 4" and n: "n = hex_val s"
    by (auto simp: parse_hextet_def split: if_splits)
  have dv: "digit_val c < 16" if "is_hex_digit c" for c
  proof -
    have "list_all (\<lambda>c. digit_val c < 16) ''0123456789abcdefABCDEF''" by code_simp
    with that show ?thesis by (simp only: is_hex_digit_def list_all_iff)
  qed
  have "hex_val s = be_val 16 (map digit_val s)"
    by (simp add: hex_val_def val_base_def be_val_def foldl_map)
  moreover have "be_val 16 (map digit_val s) < 16 ^ length (map digit_val s)"
    by (rule be_val_bound) (use s dv in \<open>auto simp: list_all_iff\<close>)
  moreover have "(16 :: nat) ^ length (map digit_val s) \<le> 16 ^ 4"
    using s by (intro power_increasing) auto
  ultimately show ?thesis using n by simp
qed

lemma filter_skip:
  assumes "P \<noteq> []" "Q \<noteq> []"
    and "\<And>i. 0 < i \<Longrightarrow> i < length P \<Longrightarrow> P ! i \<noteq> []"
    and "\<And>i. Suc i < length Q \<Longrightarrow> Q ! i \<noteq> []"
  shows "filter (\<lambda>i. (P @ [] # Q) ! i = []) [1..<length (P @ [] # Q) - 1] = [length P]"
proof -
  let ?xs = "P @ [] # Q"
  let ?f = "filter (\<lambda>i. ?xs ! i = [])"
  have len: "length ?xs - 1 = length P + length Q" by simp
  have p: "1 \<le> length P" "length P < length P + length Q" using assms(1,2) by (auto simp: Suc_le_eq)
  have "[1..<length P + length Q] = [1..<length P] @ [length P..<length P + length Q]"
    using p(1) upt_add_eq_append [of 1 "length P" "length Q"] by simp
  also have "[length P..<length P + length Q] = length P # [Suc (length P)..<length P + length Q]"
    using p(2) by (rule upt_conv_Cons)
  finally have upt: "[1..<length P + length Q] =
      [1..<length P] @ length P # [Suc (length P)..<length P + length Q]" .
  have "?f [1..<length P] = []"
    using assms(3) by (auto simp: filter_empty_conv nth_append)
  moreover have "?f [Suc (length P)..<length P + length Q] = []"
  proof -
    have "?xs ! i \<noteq> []" if "Suc (length P) \<le> i" "i < length P + length Q" for i
    proof -
      from that obtain j where j: "i = Suc (length P) + j" by (metis le_Suc_ex)
      with that have "Suc j < length Q" by simp
      with assms(4) [of j] j show ?thesis by (simp add: nth_append)
    qed
    then show ?thesis by (auto simp: filter_empty_conv)
  qed
  ultimately show ?thesis unfolding len upt by (simp add: nth_append)
qed

lemma v6_groups_plain:
  assumes "length parts = 8" "\<And>p. p \<in> set parts \<Longrightarrow> p \<noteq> []"
  shows "v6_groups parts = those (map parse_hextet parts)"
proof -
  have "filter (\<lambda>i. parts ! i = []) [1..<length parts - 1] = []"
    using assms by (auto simp: filter_empty_conv)
  moreover have "parts \<noteq> []" using assms(1) by auto
  then have "hd parts \<noteq> []" "last parts \<noteq> []" using assms(2) by auto
  ultimately show ?thesis using assms(1) by (simp add: v6_groups_def)
qed

lemma v6_groups_skip:
  assumes A: "\<And>p. p \<in> set A \<Longrightarrow> p \<noteq> []" and B: "\<And>p. p \<in> set B \<Longrightarrow> p \<noteq> []"
    and len: "length A + length B \<le> 7"
    and a: "those (map parse_hextet A) = Some a" and b: "those (map parse_hextet B) = Some b"
  shows "v6_groups ((if A = [] then [[]] else A) @ [] # (if B = [] then [[]] else B)) =
    Some (a @ replicate (8 - (length A + length B)) 0 @ b)"
proof -
  define P where "P = (if A = [] then [[]] else A)"
  define Q where "Q = (if B = [] then [[]] else B)"
  have f: "filter (\<lambda>i. (P @ [] # Q) ! i = []) [1..<length (P @ [] # Q) - 1] = [length P]"
    by (rule filter_skip) (auto simp: P_def Q_def A B split: if_splits)
  have hd: "hd (P @ [] # Q) = [] \<longleftrightarrow> A = []" using A by (cases A) (auto simp: P_def)
  have lst: "last (P @ [] # Q) = [] \<longleftrightarrow> B = []" using B by (auto simp: Q_def)
  have hi: "(if A = [] then length P - 1 else length P) = length A" by (simp add: P_def)
  have lo: "(if B = [] then length (P @ [] # Q) - length P - 2
             else length (P @ [] # Q) - length P - 1) = length B" by (simp add: Q_def)
  have ta: "take (length A) (P @ [] # Q) = A" by (simp add: P_def)
  have db: "drop (length (P @ [] # Q) - length B) (P @ [] # Q) = B"
    by (cases "B = []") (simp_all add: Q_def)
  have "v6_groups (P @ [] # Q) = Some (a @ replicate (8 - (length A + length B)) 0 @ b)"
    unfolding v6_groups_def Let_def f hd lst list.case hi lo ta db a b using len by simp
  then show ?thesis by (simp only: P_def Q_def)
qed

lemma filter_upt_hd: "filter P [a..<b] = k # ks \<Longrightarrow> a \<le> k \<and> k < b"
proof -
  assume "filter P [a..<b] = k # ks"
  then have "k \<in> set (filter P [a..<b])" by simp
  then show ?thesis by simp
qed

lemma hextets_bound:
  "those (map parse_hextet xs) = Some es \<Longrightarrow> length es = length xs \<and> (\<forall>d \<in> set es. d < 65536)"
  using those_set [of "map parse_hextet xs" es] parse_hextet_bound
    those_Some_nth [of "map parse_hextet xs" es] by fastforce

lemma v6_groups_bound:
  assumes "v6_groups parts = Some ds"
  shows "length ds = 8 \<and> (\<forall>d \<in> set ds. d < 65536)"
  using assms
  by (auto simp: v6_groups_def Let_def split: list.splits if_splits option.splits
      dest!: hextets_bound filter_upt_hd)

subsection \<open>The run of zeros that the printer leaves out\<close>

definition zero_run :: "string list \<Rightarrow> nat \<Rightarrow> nat \<Rightarrow> bool" where
  "zero_run hs st n \<longleftrightarrow> st + n \<le> length hs \<and> take n (drop st hs) = replicate n ''0''"

lemma zero_run_append: "zero_run xs st n \<Longrightarrow> zero_run (xs @ ys) st n"
  by (simp add: zero_run_def)

lemma zero_run_snoc:
  assumes "zero_run xs (length xs - l) l" "l \<le> length xs"
  shows "zero_run (xs @ [''0'']) (length xs - l) (Suc l)"
proof -
  have "drop (length xs - l) xs = replicate l ''0''"
    using assms by (simp add: zero_run_def)
  then show ?thesis using assms(2) by (simp add: zero_run_def replicate_append_same)
qed

lemma dc_loop_run:
  assumes "dc_loop (length xs) bs bl s l ys = (bs', bl')"
    and "0 < bl \<longrightarrow> zero_run xs (nat bs) bl"
    and "l \<le> length xs" "zero_run xs (length xs - l) l"
    and "s = (if l = 0 then -1 else int (length xs - l))"
  shows "0 < bl' \<longrightarrow> zero_run (xs @ ys) (nat bs') bl'"
  using assms
proof (induction ys arbitrary: xs bs bl s l)
  case Nil
  then show ?case by simp
next
  case (Cons y ys)
  let ?xs = "xs @ [y]"
  show ?case
  proof (cases "y = ''0''")
    case True
    let ?s = "if s = -1 then int (length xs) else s"
    have s: "?s = int (length xs - l)" using Cons.prems(5) by auto
    have run: "zero_run ?xs (length xs - l) (Suc l)"
      using zero_run_snoc [OF Cons.prems(4,3)] True by simp
    have inv: "Suc l \<le> length ?xs" "zero_run ?xs (length ?xs - Suc l) (Suc l)"
      "int (length xs - l) = (if Suc l = 0 then -1 else int (length ?xs - Suc l))"
      using Cons.prems(3) run by auto
    show ?thesis
    proof (cases "bl < Suc l")
      case True
      with Cons.prems(1) \<open>y = ''0''\<close> s
      have "dc_loop (length ?xs) (int (length xs - l)) (Suc l) (int (length xs - l)) (Suc l) ys = (bs', bl')"
        by (simp add: Let_def)
      then have "0 < bl' \<longrightarrow> zero_run (?xs @ ys) (nat bs') bl'"
        by (rule Cons.IH) (use run inv in \<open>auto simp del: of_nat_diff\<close>)
      then show ?thesis by simp
    next
      case False
      with Cons.prems(1) \<open>y = ''0''\<close> s
      have "dc_loop (length ?xs) bs bl (int (length xs - l)) (Suc l) ys = (bs', bl')"
        by (simp add: Let_def)
      then have "0 < bl' \<longrightarrow> zero_run (?xs @ ys) (nat bs') bl'"
        by (rule Cons.IH) (use Cons.prems(2) inv zero_run_append in auto)
      then show ?thesis by simp
    qed
  next
    case False
    with Cons.prems(1) have "dc_loop (length ?xs) bs bl (-1) 0 ys = (bs', bl')" by simp
    then have "0 < bl' \<longrightarrow> zero_run (?xs @ ys) (nat bs') bl'"
      by (rule Cons.IH) (use Cons.prems(2) zero_run_append in \<open>auto simp: zero_run_def\<close>)
    then show ?thesis by simp
  qed
qed

text \<open>
  So the printer either leaves the groups as they are or cuts out a run of at least two zero
  groups, \<open>A\<close> and \<open>B\<close> being the groups before and after it.
\<close>

lemma compress_hextets_cases:
  obtains (plain) "compress_hextets hs = hs"
  | (skip) A B n where "hs = A @ replicate n ''0'' @ B" "2 \<le> n"
      "compress_hextets hs = (if A = [] then [[]] else A) @ [] # (if B = [] then [[]] else B)"
proof -
  obtain bs bl where loop: "dc_loop 0 (-1) 0 (-1) 0 hs = (bs, bl)" by fastforce
  show thesis
  proof (cases "1 < bl")
    case False
    with loop show ?thesis by (intro plain) (simp add: compress_hextets_def)
  next
    case True
    let ?st = "nat bs"
    have "0 < bl \<longrightarrow> zero_run ([] @ hs) (nat bs) bl"
      by (rule dc_loop_run [where bl = 0]) (use loop in \<open>auto simp: zero_run_def\<close>)
    with True have run: "?st + bl \<le> length hs" "take bl (drop ?st hs) = replicate bl ''0''"
      by (auto simp: zero_run_def)
    have hs: "hs = take ?st hs @ replicate bl ''0'' @ drop (?st + bl) hs"
      by (metis run(2) append_take_drop_id drop_drop add.commute)
    have A: "?st = 0 \<longleftrightarrow> take ?st hs = []" using True run(1) by auto
    have B: "?st + bl = length hs \<longleftrightarrow> drop (?st + bl) hs = []" using run(1) by auto
    have "compress_hextets hs = (if take ?st hs = [] then [[]] else take ?st hs) @ [] #
        (if drop (?st + bl) hs = [] then [[]] else drop (?st + bl) hs)"
      using True loop A B run(1) by (auto simp: compress_hextets_def Let_def)
    with hs True show ?thesis by (intro skip [of "take ?st hs" bl "drop (?st + bl) hs"]) auto
  qed
qed

lemma hextet_facts:
  assumes "ds = be_digits 65536 8 n" "p \<in> set (map hex_nat ds)"
  shows "p \<noteq> []" "CHR '':'' \<notin> set p" "CHR ''.'' \<notin> set p" "list_all is_hex_digit p"
  using assms hex_nat_digits by (auto simp: hex_nat_char separators_not_digits)

lemma those_hextets: "set ds \<subseteq> {..<65536} \<Longrightarrow> those (map parse_hextet (map hex_nat ds)) = Some ds"
  by (rule those_map_Some) (auto simp: parse_hextet_hex_nat)

lemma hex_run:
  assumes "map hex_nat ds = A @ replicate k ''0'' @ B"
  obtains a b where "ds = a @ replicate k 0 @ b" "A = map hex_nat a" "B = map hex_nat b"
proof -
  from assms obtain a r where ar: "ds = a @ r" "A = map hex_nat a" "map hex_nat r = replicate k ''0'' @ B"
    by (metis map_eq_append_conv)
  then obtain z b where zb: "r = z @ b" "map hex_nat z = replicate k ''0''" "B = map hex_nat b"
    by (metis map_eq_append_conv)
  have "map hex_nat z = map hex_nat (replicate k 0)" using zb(2) by simp
  then have "z = replicate k 0" by (subst (asm) inj_map_eq_map) (auto simp: inj_on_def)
  with ar zb that show thesis by auto
qed

lemma v6_groups_compress:
  assumes "ds = be_digits 65536 8 n"
  shows "v6_groups (compress_hextets (map hex_nat ds)) = Some ds"
proof -
  have len: "length ds = 8" and small: "set ds \<subseteq> {..<65536}"
    using assms by (auto dest: be_digits_less [rotated])
  show ?thesis
  proof (cases rule: compress_hextets_cases [of "map hex_nat ds"])
    case plain
    then show ?thesis
      using v6_groups_plain [of "map hex_nat ds"] len those_hextets [OF small]
        hextet_facts(1) [OF assms] by simp
  next
    case (skip A B k)
    from skip(1) obtain a b where ab: "ds = a @ replicate k 0 @ b" "A = map hex_nat a" "B = map hex_nat b"
      by (rule hex_run)
    have k: "8 - (length A + length B) = k" "length A + length B \<le> 7"
      using len ab skip(2) by auto
    have "set a \<subseteq> {..<65536}" "set b \<subseteq> {..<65536}" using small ab(1) by auto
    then have "those (map parse_hextet A) = Some a" "those (map parse_hextet B) = Some b"
      unfolding ab(2,3) by (simp_all only: those_hextets)
    then have "v6_groups ((if A = [] then [[]] else A) @ [] # (if B = [] then [[]] else B)) =
        Some (a @ replicate (8 - (length A + length B)) 0 @ b)"
      by (intro v6_groups_skip) (use ab k(2) in auto)
    then show ?thesis unfolding skip(3) using k(1) ab(1) by simp
  qed
qed

lemma compress_hextets_parts:
  assumes "ds = be_digits 65536 8 n"
  shows "3 \<le> length (compress_hextets (map hex_nat ds))"
    "length (compress_hextets (map hex_nat ds)) \<le> 9"
    "\<And>p. p \<in> set (compress_hextets (map hex_nat ds)) \<Longrightarrow> list_all is_hex_digit p"
proof -
  let ?hs = "map hex_nat ds"
  have len: "length ?hs = 8" using assms by simp
  have "3 \<le> length (compress_hextets ?hs) \<and> length (compress_hextets ?hs) \<le> 9 \<and>
      (\<forall>p \<in> set (compress_hextets ?hs). list_all is_hex_digit p)"
  proof (cases rule: compress_hextets_cases [of ?hs])
    case plain
    then show ?thesis using len hextet_facts(4) [OF assms] by simp
  next
    case (skip A B k)
    have "length A + k + length B = 8" using skip(1) len by (metis length_append length_replicate add.assoc)
    moreover have "\<And>p. p \<in> set A \<union> set B \<Longrightarrow> list_all is_hex_digit p"
      using skip(1) hextet_facts(4) [OF assms] by (metis Un_iff set_append)
    ultimately show ?thesis using skip(2) unfolding skip(3)
      by (cases A; cases B) auto
  qed
  then show "3 \<le> length (compress_hextets ?hs)" "length (compress_hextets ?hs) \<le> 9"
    "\<And>p. p \<in> set (compress_hextets ?hs) \<Longrightarrow> list_all is_hex_digit p" by auto
qed

lemma parse_v6_str:
  assumes "n < 2 ^ 128"
  shows "parse_v6 (v6_str n) = Some n"
proof -
  define ds where "ds = be_digits 65536 8 n"
  let ?ps = "compress_hextets (map hex_nat ds)"
  note parts = compress_hextets_parts [OF ds_def]
  have ne: "?ps \<noteq> []" using parts(1) by auto
  have split: "split_on (CHR '':'') (v6_str n) = ?ps"
    unfolding v6_str_def ds_def [symmetric]
    by (rule split_on_join) (use ne parts(3) colon_not_digit in \<open>auto simp: list_all_iff\<close>)
  have suffix: "v6_suffix ?ps = Some ?ps"
    using parts(3) [OF last_in_set [OF ne]] dot_not_digit by (auto simp: v6_suffix_def list_all_iff)
  have "v6_str n \<noteq> []"
  proof
    assume "v6_str n = []"
    with split have "length ?ps = 1" by (simp add: split_on_def flip: split)
    with parts(1) show False by simp
  qed
  moreover have "be_val 65536 ds = n"
    using assms by (simp add: ds_def be_val_be_digits)
  ultimately show ?thesis
    using parts(1,2) v6_groups_compress [OF ds_def]
    by (simp add: parse_v6_def Let_def split suffix)
qed

lemma v6_str_chars: "c \<in> set (v6_str n) \<Longrightarrow> c = CHR '':'' \<or> is_hex_digit c"
proof -
  assume "c \<in> set (v6_str n)"
  then have "c \<in> {CHR '':''} \<union> (\<Union>p \<in> set (compress_hextets (map hex_nat (be_digits 65536 8 n))). set p)"
    using set_join [of "'':''" "compress_hextets (map hex_nat (be_digits 65536 8 n))"]
    by (auto simp: v6_str_def)
  then show ?thesis using compress_hextets_parts(3) [OF refl] by (fastforce simp: list_all_iff)
qed

lemma parse_v6_bound: "parse_v6 s = Some n \<Longrightarrow> n < 2 ^ 128"
proof -
  assume "parse_v6 s = Some n"
  then obtain ps ds where "v6_groups ps = Some ds" "n = be_val 65536 ds"
    by (auto simp: parse_v6_def Let_def split: if_splits option.splits)
  with v6_groups_bound [of ps ds] be_val_bound [of ds 65536] show ?thesis by simp
qed

section \<open>Addresses\<close>

text \<open>\<open>_split_scope_id\<close>: the text after the first \<open>%\<close>; \<open>None\<close> where it is rejected.\<close>

definition split_scope :: "string \<Rightarrow> (string \<times> string option) option" where
  "split_scope s =
     (case find_char (CHR ''%'') s of
        None \<Rightarrow> Some (s, None)
      | Some i \<Rightarrow> (let scope = drop (Suc i) s
                   in if scope = [] \<or> CHR ''%'' \<in> set scope then None
                      else Some (take i s, Some scope)))"

text \<open>\<open>ipaddress.ip_address\<close> on a string; \<open>None\<close> stands for its \<open>ValueError\<close>.\<close>

definition ip_address :: "string \<Rightarrow> ip_address option" where
  "ip_address s =
     (case parse_v4 s of
        Some n \<Rightarrow> Some (IPv4 (of_nat n))
      | None \<Rightarrow>
          (if CHR ''/'' \<in> set s then None
           else (case split_scope s of
                   None \<Rightarrow> None
                 | Some (addr, scope) \<Rightarrow>
                     map_option (\<lambda>n. IPv6 (of_nat n) scope) (parse_v6 addr))))"

fun ip_str :: "ip_address \<Rightarrow> string" where
  "ip_str (IPv4 w) = v4_str (unat w)"
| "ip_str (IPv6 w scope) =
     v6_str (unat w) @ (case scope of None \<Rightarrow> [] | Some z \<Rightarrow> CHR ''%'' # z)"

fun ip_int :: "ip_address \<Rightarrow> nat" where
  "ip_int (IPv4 w) = unat w"
| "ip_int (IPv6 w scope) = unat w"

fun ip_version :: "ip_address \<Rightarrow> int" where
  "ip_version (IPv4 w) = 4"
| "ip_version (IPv6 w scope) = 6"

fun max_prefixlen :: "ip_address \<Rightarrow> int" where
  "max_prefixlen (IPv4 w) = 32"
| "max_prefixlen (IPv6 w scope) = 128"

fun ip_packed :: "ip_address \<Rightarrow> bytes" where
  "ip_packed (IPv4 w) = map of_nat (be_digits 256 4 (unat w))"
| "ip_packed (IPv6 w scope) = map of_nat (be_digits 256 16 (unat w))"

definition is_unspecified :: "ip_address \<Rightarrow> bool" where
  "is_unspecified a \<longleftrightarrow> ip_int a = 0"

text \<open>\<open>224.0.0.0/4\<close> and \<open>ff00::/8\<close>.\<close>

fun is_multicast :: "ip_address \<Rightarrow> bool" where
  "is_multicast (IPv4 w) = (unat w div 2 ^ 28 = 14)"
| "is_multicast (IPv6 w scope) = (unat w div 2 ^ 120 = 255)"

text \<open>What \<open>ip_address\<close> returns: a scope identifier is not empty and holds no \<open>%\<close> or \<open>/\<close>.\<close>

fun wf_ip :: "ip_address \<Rightarrow> bool" where
  "wf_ip (IPv4 w) = True"
| "wf_ip (IPv6 w None) = True"
| "wf_ip (IPv6 w (Some z)) = (z \<noteq> [] \<and> CHR ''%'' \<notin> set z \<and> CHR ''/'' \<notin> set z)"

lemma unat_32_bound: "unat (w :: 32 word) < 2 ^ 32"
  using unsigned_less [of w] by simp

lemma unat_128_bound: "unat (w :: 128 word) < 2 ^ 128"
  using unsigned_less [of w] by simp

lemma find_char_append2: "c \<notin> set s \<Longrightarrow> find_char c (s @ t) = map_option (\<lambda>i. length s + i) (find_char c t)"
  by (induction s; cases "find_char c t") auto

lemma v6_str_seps: "CHR ''%'' \<notin> set (v6_str n)" "CHR ''/'' \<notin> set (v6_str n)"
  using v6_str_chars [of "CHR ''%''" n] v6_str_chars [of "CHR ''/''" n] separators_not_digits by auto

lemma v6_str_has_colon: "n < 2 ^ 128 \<Longrightarrow> CHR '':'' \<in> set (v6_str n)"
proof (rule ccontr)
  assume n: "n < 2 ^ 128" and "CHR '':'' \<notin> set (v6_str n)"
  then have "split_on (CHR '':'') (v6_str n) = [v6_str n]"
    unfolding split_on_def by (intro split_by_none) (auto simp: list_all_iff)
  with parse_v6_str [OF n] show False by (simp add: parse_v6_def)
qed

text \<open>Printing and parsing are inverse.\<close>

lemma ip_address_ip_str: "wf_ip a \<Longrightarrow> ip_address (ip_str a) = Some a"
proof (cases a)
  case (IPv4 w)
  then show ?thesis by (simp add: ip_address_def parse_v4_str [OF unat_32_bound])
next
  case (IPv6 w scope)
  assume wf: "wf_ip a"
  let ?s = "ip_str a"
  have "CHR '':'' \<in> set ?s" using IPv6 v6_str_has_colon [OF unat_128_bound] by simp
  then have "parse_v4 ?s = None"
    using parse_v4_chars [of ?s _ "CHR '':''"] colon_not_digit by (cases "parse_v4 ?s") auto
  moreover have "CHR ''/'' \<notin> set ?s"
    using wf IPv6 v6_str_seps by (cases scope) auto
  moreover have "split_scope ?s = Some (v6_str (unat w), scope)"
    using wf IPv6 v6_str_seps(1) [of "unat w"]
    by (cases scope) (auto simp: split_scope_def find_char_append2 find_char_None [THEN iffD2])
  ultimately show ?thesis
    using IPv6 parse_v6_str [OF unat_128_bound [of w]] by (simp add: ip_address_def)
qed

lemma ip_address_wf: "ip_address s = Some a \<Longrightarrow> wf_ip a"
  by (auto simp: ip_address_def split_scope_def Let_def dest: in_set_dropD
      split: option.splits if_splits)

lemma ip_str_inject: "wf_ip a \<Longrightarrow> wf_ip b \<Longrightarrow> ip_str a = ip_str b \<longleftrightarrow> a = b"
  by (metis ip_address_ip_str option.inject)

lemma ip_address_canonical: "ip_address s = Some a \<Longrightarrow> ip_address (ip_str a) = Some a"
  by (simp add: ip_address_wf ip_address_ip_str)

lemma ip_str_not_Nil: "wf_ip a \<Longrightarrow> ip_str a \<noteq> []"
proof
  assume "wf_ip a" "ip_str a = []"
  then have "ip_address [] = Some a" using ip_address_ip_str by metis
  moreover have "ip_address [] = None" by code_simp
  ultimately show False by simp
qed

lemma length_ip_packed: "length (ip_packed a) = (if ip_version a = 4 then 4 else 16)"
  by (cases a) auto

lemma ip_version_4_or_6: "ip_version a = 4 \<or> ip_version a = 6"
  by (cases a) auto

lemma be_val_packed: "set ds \<subseteq> {..<256} \<Longrightarrow> be_val 256 (map unat (map of_nat ds :: bytes)) = be_val 256 ds"
proof -
  assume "set ds \<subseteq> {..<256}"
  then have "map unat (map of_nat ds :: bytes) = ds"
    by (induction ds) (auto simp: unat_of_nat)
  then show ?thesis by simp
qed

text \<open>The packed form holds the address, most significant byte first.\<close>

lemma be_val_ip_packed: "be_val 256 (map unat (ip_packed a)) = ip_int a"
proof (cases a)
  case (IPv4 w)
  then show ?thesis
    using unat_32_bound [of w] be_val_packed [of "be_digits 256 4 (unat w)"]
    by (simp add: be_val_be_digits be_digits_less subset_iff del: map_map)
next
  case (IPv6 w scope)
  then show ?thesis
    using unat_128_bound [of w] be_val_packed [of "be_digits 256 16 (unat w)"]
    by (simp add: be_val_be_digits be_digits_less subset_iff del: map_map)
qed

end
