(* ===== verification/Control.thy ===== *)
theory Control
  imports Ip_Address
begin

text \<open>
  The control client (\<^verbatim>\<open>tools/tcpcc_control.py\<close>): the request encoder, the decoders of
  responses, bridge results, service and reclaim statistics, the endpoint and interface
  encoders, the reader of one fixed-size record under one overall timeout, and
  \<^verbatim>\<open>ControlClient.transact\<close>.

  The pipes, the clock and \<^verbatim>\<open>select\<close> are the arguments \<open>fd_io\<close> and \<open>control_client\<close>:
  functions on an arbitrary state that may raise anything.  The locale \<open>control_channel\<close> is
  the \<^verbatim>\<open>ControlChannel\<close> protocol that the hosted runtime relies on; the client is an
  instance.
\<close>

section \<open>Record layouts\<close>

definition REQUEST :: "field list" where
  "REQUEST = [FU 4, FU 2, FU 2, FI 4, FU 4, FU 4, FU 4, FS 256]"

definition RESPONSE :: "field list" where
  "RESPONSE = [FU 4, FU 2, FU 2, FI 4, FI 4, FU 4, FS 256]"

definition BRIDGE_RESULT :: "field list" where
  "BRIDGE_RESULT =
     [FU 8, FU 8, FU 8, FU 4, FU 4, FU 4, FU 4, FU 4, FU 4, FU 4, FI 4, FU 4, FU 4]"

definition SERVICE_CONFIG :: "field list" where
  "SERVICE_CONFIG = [FU 4, FU 2, FU 2, FU 4, FU 4]"

definition SERVICE_STATS :: "field list" where
  "SERVICE_STATS =
     [FU 8, FU 8, FU 8, FU 8, FU 8, FU 4, FU 4, FU 4, FU 4, FU 4, FU 4, FU 4, FU 4, FI 4,
      FU 4, FU 4, FU 4]"

definition RECLAIM_STATS :: "field list" where
  "RECLAIM_STATS =
     [FU 8, FU 8, FU 8, FU 8, FU 8, FU 8, FU 4, FI 4, FU 4, FU 4, FU 4, FU 4]"

definition IP_ENDPOINT :: "field list" where
  "IP_ENDPOINT = [FU 1, FX 3, FS 16, FU 2, FU 2]"

definition L3_CONFIG :: "field list" where
  "L3_CONFIG = [FU 1, FX 3, FS 16, FU 1, FX 3]"

lemmas layout_defs =
  REQUEST_def RESPONSE_def BRIDGE_RESULT_def SERVICE_CONFIG_def SERVICE_STATS_def
  RECLAIM_STATS_def IP_ENDPOINT_def L3_CONFIG_def

lemma layout_sizes:
  "calcsize REQUEST = 280" "calcsize RESPONSE = 276" "calcsize BRIDGE_RESULT = 64"
  "calcsize SERVICE_CONFIG = 16" "calcsize SERVICE_STATS = 88" "calcsize RECLAIM_STATS = 72"
  "calcsize IP_ENDPOINT = 24" "calcsize L3_CONFIG = 24"
  by (simp_all add: calcsize_def layout_defs)

section \<open>Data\<close>

record ControlResponse =
  cr_operation :: int
  cr_status :: int
  cr_handle :: int
  cr_data :: bytes

record BridgeResult =
  br_token :: int
  br_public_to_backend_bytes :: int
  br_backend_to_public_bytes :: int
  br_buffer_limit :: int
  br_total_buffer_limit :: int
  br_terminal_events :: int
  br_host_send_eagain :: int
  br_host_partial_writes :: int
  br_host_recv_eagain :: int
  br_session_limit :: int
  br_status :: int

record ServiceStats =
  ss_accepted_connections :: int
  ss_completed_connections :: int
  ss_rejected_connections :: int
  ss_public_to_backend_bytes :: int
  ss_backend_to_public_bytes :: int
  ss_active_connections :: int
  ss_peak_connections :: int
  ss_max_connections :: int
  ss_accept_batch :: int
  ss_accept_eagain :: int
  ss_bridge_start_failures :: int
  ss_terminal_failures :: int
  ss_state :: int
  ss_last_error :: int

record ReclaimStats =
  rs_reported_bytes :: int
  rs_successful_discard_bytes :: int
  rs_batches :: int
  rs_ranges :: int
  rs_failed_bytes :: int
  rs_advisory_failures :: int
  rs_state :: int
  rs_last_error :: int
  rs_minimum_order :: int
  rs_maximum_range_bytes :: int

section \<open>Encoders\<close>

definition bounded_integer :: "pyval \<Rightarrow> string \<Rightarrow> int \<Rightarrow> int \<Rightarrow> exn + int" where
  "bounded_integer v field minimum maximum =
     (case v of
        PInt i \<Rightarrow>
          (if minimum \<le> i \<and> i \<le> maximum then Inr i
           else Inl (ValueError (field @ '' must be from '' @ str_int minimum @ '' through ''
                                 @ str_int maximum)))
      | _ \<Rightarrow> Inl (TypeError (field @ '' must be an integer'')))"

text \<open>\<open>data.ljust(n, b"\0")\<close>.\<close>

definition ljust :: "nat \<Rightarrow> bytes \<Rightarrow> bytes" where
  "ljust n b = b @ replicate (n - length b) 0"

definition encode_request :: "pyval \<Rightarrow> pyval \<Rightarrow> pyval \<Rightarrow> pyval \<Rightarrow> pyval \<Rightarrow> exn + bytes" where
  "encode_request operation handle arg0 arg1 data =
     rbind (bounded_integer operation ''operation'' 1 0xFFFF) (\<lambda>op.
     rbind (bounded_integer handle ''handle'' (- (2 ^ 31)) (2 ^ 31 - 1)) (\<lambda>h.
     rbind (bounded_integer arg0 ''arg0'' 0 0xFFFFFFFF) (\<lambda>a0.
     rbind (bounded_integer arg1 ''arg1'' 0 0xFFFFFFFF) (\<lambda>a1.
       case data of
         PBytes b \<Rightarrow>
           (if length b > MAX_PAYLOAD
            then Inl (ValueError (''control data exceeds the '' @ str_nat MAX_PAYLOAD
                                  @ ''-byte ABI limit''))
            else pack REQUEST
              [VI MAGIC, VI VERSION, VI op, VI h, VI a0, VI a1, VI (int (length b)),
               VB (ljust MAX_PAYLOAD b)])
       | _ \<Rightarrow> Inl (TypeError ''control data must be bytes'')))))"

definition encode_service_config :: "pyval \<Rightarrow> pyval \<Rightarrow> pyval \<Rightarrow> pyval \<Rightarrow> exn + bytes" where
  "encode_service_config backend_ipv4 backend_port max_connections accept_batch =
     rbind (bounded_integer backend_ipv4 ''backend IPv4'' 0 0xFFFFFFFF) (\<lambda>ip.
     rbind (bounded_integer backend_port ''backend port'' 1 0xFFFF) (\<lambda>port.
     rbind (bounded_integer max_connections ''max connections'' 0 0xFFFFFFFF) (\<lambda>mc.
     rbind (bounded_integer accept_batch ''accept batch'' 1 0xFFFFFFFF) (\<lambda>ab.
       pack SERVICE_CONFIG [VI ip, VI port, VI 0, VI mc, VI ab]))))"

text \<open>\<open>_ip_address\<close>.\<close>

definition usable_ip_address :: "pyval \<Rightarrow> string \<Rightarrow> exn + ip_address" where
  "usable_ip_address v field =
     (case v of
        PStr s \<Rightarrow>
          (case ip_address s of
             None \<Rightarrow> Inl (ValueError (field @ '' must be one literal IP address''))
           | Some a \<Rightarrow>
               (if is_unspecified a \<or> is_multicast a
                then Inl (ValueError (field @ '' must be a usable unicast IP address''))
                else Inr a))
      | _ \<Rightarrow> Inl (TypeError (field @ '' must be one IP address string'')))"

definition encode_ip_endpoint :: "pyval \<Rightarrow> pyval \<Rightarrow> exn + bytes" where
  "encode_ip_endpoint address port =
     rbind (usable_ip_address address ''endpoint address'') (\<lambda>parsed.
     rbind (bounded_integer port ''endpoint port'' 1 0xFFFF) (\<lambda>p.
       pack IP_ENDPOINT [VI (ip_version parsed), VB (ljust 16 (ip_packed parsed)), VI p, VI 0]))"

definition encode_l3_config :: "pyval \<Rightarrow> pyval \<Rightarrow> exn + bytes" where
  "encode_l3_config address prefix_len =
     rbind (usable_ip_address address ''L3 address'') (\<lambda>parsed.
     rbind (bounded_integer prefix_len ''L3 prefix length'' 1 (max_prefixlen parsed)) (\<lambda>n.
       pack L3_CONFIG [VI (ip_version parsed), VB (ljust 16 (ip_packed parsed)), VI n]))"

section \<open>Decoders\<close>

fun as_int :: "sval \<Rightarrow> int" where
  "as_int (VI i) = i"
| "as_int (VB b) = 0"

fun as_bytes :: "sval \<Rightarrow> bytes" where
  "as_bytes (VB b) = b"
| "as_bytes (VI i) = []"

text \<open>The length that the size messages quote.\<close>

definition length_text :: "pyval \<Rightarrow> string" where
  "length_text v = (case v of PBytes b \<Rightarrow> str_nat (length b) | _ \<Rightarrow> ''non-bytes'')"

fun has_size :: "nat \<Rightarrow> pyval \<Rightarrow> bool" where
  "has_size n (PBytes b) = (length b = n)"
| "has_size n _ = False"

fun raw_bytes :: "pyval \<Rightarrow> bytes" where
  "raw_bytes (PBytes b) = b"
| "raw_bytes _ = []"

text \<open>\<open>f"{n:08x}"\<close>.\<close>

definition hex08 :: "nat \<Rightarrow> string" where
  "hex08 n = replicate (8 - length (hex_nat n)) (CHR ''0'') @ hex_nat n"

definition decode_response :: "pyval \<Rightarrow> int \<Rightarrow> exn + ControlResponse" where
  "decode_response raw expected_operation =
     (if \<not> has_size (calcsize RESPONSE) raw
      then Inl (ControlProtocolError (''control response has size '' @ length_text raw
                @ '', expected '' @ str_nat (calcsize RESPONSE)))
      else rbind (unpack RESPONSE (raw_bytes raw)) (\<lambda>vs.
        let magic = as_int (vs ! 0); version = as_int (vs ! 1); operation = as_int (vs ! 2);
            st = as_int (vs ! 3); handle = as_int (vs ! 4); len = as_int (vs ! 5);
            payload = as_bytes (vs ! 6)
        in if magic \<noteq> MAGIC
           then Inl (ControlProtocolError (''control response magic is 0x'' @ hex08 (nat magic)))
           else if version \<noteq> VERSION
           then Inl (ControlProtocolError (''control response version is '' @ str_int version
                     @ '', expected '' @ str_int VERSION))
           else if operation \<noteq> expected_operation
           then Inl (ControlProtocolError (''control response operation is '' @ str_int operation
                     @ '', expected '' @ str_int expected_operation))
           else if len > int MAX_PAYLOAD
           then Inl (ControlProtocolError (''control response payload is '' @ str_int len
                     @ '' bytes, maximum is '' @ str_nat MAX_PAYLOAD))
           else Inr \<lparr>cr_operation = operation, cr_status = st, cr_handle = handle,
                      cr_data = take (nat len) payload\<rparr>))"

definition decode_bridge_result :: "pyval \<Rightarrow> bool \<Rightarrow> exn + BridgeResult" where
  "decode_bridge_result data allow_terminal_error =
     (if \<not> has_size (calcsize BRIDGE_RESULT) data
      then Inl (ControlProtocolError (''bridge result has size '' @ length_text data
                @ '', expected '' @ str_nat (calcsize BRIDGE_RESULT)))
      else rbind (unpack BRIDGE_RESULT (raw_bytes data)) (\<lambda>vs.
        let v = (\<lambda>i. as_int (vs ! i)); st = v 10; reserved0 = v 11; reserved1 = v 12
        in if reserved0 \<noteq> 0 \<or> reserved1 \<noteq> 0
           then Inl (ControlProtocolError (''bridge result reserved fields are ''
                     @ str_int reserved0 @ ''/'' @ str_int reserved1))
           else if st \<noteq> 0 \<and> \<not> allow_terminal_error
           then Inl (ControlProtocolError (''successful bridge response contains status ''
                     @ str_int st))
           else if st > 0
           then Inl (ControlProtocolError (''bridge result contains positive terminal status ''
                     @ str_int st))
           else if v 9 < 1
           then Inl (ControlProtocolError ''bridge result reports a zero session limit'')
           else Inr \<lparr>br_token = v 0, br_public_to_backend_bytes = v 1,
                      br_backend_to_public_bytes = v 2, br_buffer_limit = v 3,
                      br_total_buffer_limit = v 4, br_terminal_events = v 5,
                      br_host_send_eagain = v 6, br_host_partial_writes = v 7,
                      br_host_recv_eagain = v 8, br_session_limit = v 9, br_status = st\<rparr>))"

text \<open>A tuple of integers as \<open>f"{values[-3:]}"\<close> prints it.\<close>

definition tuple_text :: "int list \<Rightarrow> string" where
  "tuple_text xs = ''('' @ join '', '' (map str_int xs) @ '')''"

definition decode_service_stats :: "pyval \<Rightarrow> exn + ServiceStats" where
  "decode_service_stats data =
     (if \<not> has_size (calcsize SERVICE_STATS) data
      then Inl (ControlProtocolError (''service stats have size '' @ length_text data
                @ '', expected '' @ str_nat (calcsize SERVICE_STATS)))
      else rbind (unpack SERVICE_STATS (raw_bytes data)) (\<lambda>vs.
        let v = (\<lambda>i. as_int (vs ! i)); reserved = [v 14, v 15, v 16]
        in if list_ex (\<lambda>x. x \<noteq> 0) reserved
           then Inl (ControlProtocolError (''service stats reserved fields are '' @ tuple_text reserved))
           else if v 13 > 0
           then Inl (ControlProtocolError (''service stats contain positive last error ''
                     @ str_int (v 13)))
           else Inr \<lparr>ss_accepted_connections = v 0, ss_completed_connections = v 1,
                      ss_rejected_connections = v 2, ss_public_to_backend_bytes = v 3,
                      ss_backend_to_public_bytes = v 4, ss_active_connections = v 5,
                      ss_peak_connections = v 6, ss_max_connections = v 7, ss_accept_batch = v 8,
                      ss_accept_eagain = v 9, ss_bridge_start_failures = v 10,
                      ss_terminal_failures = v 11, ss_state = v 12, ss_last_error = v 13\<rparr>))"

definition decode_reclaim_stats :: "pyval \<Rightarrow> exn + ReclaimStats" where
  "decode_reclaim_stats data =
     (if \<not> has_size (calcsize RECLAIM_STATS) data
      then Inl (ControlProtocolError (''reclaim stats have size '' @ length_text data
                @ '', expected '' @ str_nat (calcsize RECLAIM_STATS)))
      else rbind (unpack RECLAIM_STATS (raw_bytes data)) (\<lambda>vs.
        let v = (\<lambda>i. as_int (vs ! i)); reserved = [v 10, v 11]
        in if list_ex (\<lambda>x. x \<noteq> 0) reserved
           then Inl (ControlProtocolError (''reclaim stats reserved fields are '' @ tuple_text reserved))
           else if v 6 > 3
           then Inl (ControlProtocolError (''reclaim stats contain unknown state '' @ str_int (v 6)))
           else if v 7 > 0
           then Inl (ControlProtocolError (''reclaim stats contain positive last error ''
                     @ str_int (v 7)))
           else if v 8 > 63 \<or> v 9 = 0
           then Inl (ControlProtocolError ''reclaim stats contain invalid range policy'')
           else Inr \<lparr>rs_reported_bytes = v 0, rs_successful_discard_bytes = v 1, rs_batches = v 2,
                      rs_ranges = v 3, rs_failed_bytes = v 4, rs_advisory_failures = v 5,
                      rs_state = v 6, rs_last_error = v 7, rs_minimum_order = v 8,
                      rs_maximum_range_bytes = v 9\<rparr>))"

section \<open>Reading one record\<close>

record 's fd_io =
  io_clock :: "('s, rat) py"
  io_select :: "int \<Rightarrow> rat \<Rightarrow> ('s, bool) py"
  io_read :: "int \<Rightarrow> nat \<Rightarrow> ('s, bytes) py"

definition progress_text :: "string \<Rightarrow> nat \<Rightarrow> nat \<Rightarrow> string" where
  "progress_text what got want =
     ''hosted control response '' @ what @ '' after '' @ str_nat got @ ''/'' @ str_nat want
     @ '' bytes''"

definition timeout_after :: "nat \<Rightarrow> nat \<Rightarrow> exn" where
  "timeout_after got want = OSError TimeoutError None (progress_text ''timed out'' got want)"

definition eof_after :: "nat \<Rightarrow> nat \<Rightarrow> exn" where
  "eof_after got want = EOFError (progress_text ''reached EOF'' got want)"

text \<open>One turn of the loop of \<open>read_exact_fd\<close>, with \<open>got\<close> bytes read so far.\<close>

definition read_step :: "'s fd_io \<Rightarrow> int \<Rightarrow> nat \<Rightarrow> rat \<Rightarrow> nat \<Rightarrow> ('s, bytes) py" where
  "read_step io fd n deadline got =
     pbind (io_clock io) (\<lambda>now.
       let remaining = deadline - now
       in if remaining \<le> 0 then praise (timeout_after got n)
          else pbind (io_select io fd remaining) (\<lambda>readable.
            if \<not> readable then praise (timeout_after got n)
            else pbind (io_read io fd (n - got)) (\<lambda>chunk.
              if chunk = [] then praise (eof_after got n) else pret chunk)))"

lemma read_step_not_Nil: "read_step io fd n deadline got s = (Inr chunk, s') \<Longrightarrow> chunk \<noteq> []"
  by (auto simp: read_step_def Let_def pbind_cases pret_def praise_def split: if_splits)

text \<open>
  The loop.  Every turn that goes on has read at least one byte, so the number of bytes still
  missing decreases.
\<close>

function read_loop ::
  "'s fd_io \<Rightarrow> int \<Rightarrow> nat \<Rightarrow> rat \<Rightarrow> bytes \<Rightarrow> 's \<Rightarrow> (exn + bytes) \<times> 's" where
  "read_loop io fd n deadline result s =
     (if length result < n then
        (case read_step io fd n deadline (length result) s of
           (Inl e, s') \<Rightarrow> (Inl e, s')
         | (Inr chunk, s') \<Rightarrow> read_loop io fd n deadline (result @ chunk) s')
      else (Inr result, s))"
  by pat_completeness auto
termination
  by (relation "measure (\<lambda>(io, fd, n, deadline, result, s). n - length result)")
    (auto dest!: read_step_not_Nil [OF sym] simp: neq_Nil_conv)

declare read_loop.simps [simp del]

definition check_timeout :: "pyval \<Rightarrow> exn + rat" where
  "check_timeout timeout =
     (case timeout of
        PInt i \<Rightarrow> (if i \<le> 0 then Inl (ValueError ''timeout must be positive'') else Inr (of_int i))
      | PFloat r \<Rightarrow> (if r \<le> 0 then Inl (ValueError ''timeout must be positive'') else Inr r)
      | _ \<Rightarrow> Inl (TypeError ''timeout must be a number''))"

definition read_exact_fd :: "'s fd_io \<Rightarrow> pyval \<Rightarrow> pyval \<Rightarrow> pyval \<Rightarrow> ('s, bytes) py" where
  "read_exact_fd io fd len timeout =
     pbind (plift (bounded_integer fd ''fd'' 0 (2 ^ 31 - 1))) (\<lambda>f.
     pbind (plift (bounded_integer len ''length'' 1 (2 ^ 31 - 1))) (\<lambda>n.
     pbind (plift (check_timeout timeout)) (\<lambda>t.
     pbind (io_clock io) (\<lambda>now.
       read_loop io f (nat n) (now + t) []))))"

section \<open>The client\<close>

record 's control_client =
  c_write :: "bytes \<Rightarrow> ('s, int option) py"
  c_flush :: "('s, unit) py"
  c_fileno :: "('s, int) py"
  c_io :: "'s fd_io"
  c_timeout :: rat
  c_strerror :: "int \<Rightarrow> string option"

text \<open>\<open>ControlClient.__init__\<close>: both pipes have to be there and the timeout positive.\<close>

definition ControlClient ::
  "(bytes \<Rightarrow> ('s, int option) py) option \<Rightarrow> ('s, unit) py \<Rightarrow> ('s, int) py option \<Rightarrow> 's fd_io \<Rightarrow> rat
   \<Rightarrow> (int \<Rightarrow> string option) \<Rightarrow> exn + 's control_client" where
  "ControlClient stdin flush stdout io timeout strerror =
     (case (stdin, stdout) of
        (Some write, Some fileno) \<Rightarrow>
          (if timeout \<le> 0 then Inl (ValueError ''control timeout must be positive'')
           else Inr \<lparr>c_write = write, c_flush = flush, c_fileno = fileno, c_io = io,
                      c_timeout = timeout, c_strerror = strerror\<rparr>)
      | _ \<Rightarrow> Inl (ValueError ''hosted control pipes are unavailable''))"

definition send_request :: "'s control_client \<Rightarrow> bytes \<Rightarrow> ('s, unit) py" where
  "send_request c encoded =
     pbind (c_write c encoded) (\<lambda>written.
       case written of
         Some k \<Rightarrow>
           (if k \<noteq> int (length encoded)
            then praise (OSError BrokenPipeError None
                   (''short control write: '' @ str_int k @ ''/'' @ str_nat (length encoded)
                    @ '' bytes''))
            else c_flush c)
       | None \<Rightarrow> c_flush c)"

definition transact ::
  "'s control_client \<Rightarrow> int \<Rightarrow> int \<Rightarrow> int \<Rightarrow> int \<Rightarrow> bytes \<Rightarrow> int list \<Rightarrow> ('s, ControlResponse) py" where
  "transact c operation handle arg0 arg1 data allowed_statuses =
     (if allowed_statuses = [] then praise (ValueError ''allowed_statuses must not be empty'')
      else
        pbind (plift (encode_request (PInt operation) (PInt handle) (PInt arg0) (PInt arg1)
                        (PBytes data))) (\<lambda>encoded.
        pthen (phandle (send_request c encoded) (\<lambda>e.
                 if is_OSError e \<or> is_ValueError e
                 then praise (ControlError (''could not send hosted '' @ op_name operation
                        @ '' request: '' @ exn_str (c_strerror c) e))
                 else praise e))
        (pbind (c_fileno c) (\<lambda>fd.
         pbind (read_exact_fd (c_io c) (PInt fd) (PInt (int (calcsize RESPONSE)))
                  (PFloat (c_timeout c))) (\<lambda>raw.
         pbind (plift (decode_response (PBytes raw) operation)) (\<lambda>response.
           if cr_status response \<in> set allowed_statuses then pret response
           else praise (ControlOperationError operation (cr_status response))))))))"

section \<open>What the encoders accept and write\<close>

lemma bounded_integer_Inr [simp]:
  "bounded_integer v field lo hi = Inr i \<longleftrightarrow> v = PInt i \<and> lo \<le> i \<and> i \<le> hi"
  by (auto simp: bounded_integer_def split: pyval.splits if_splits)

lemma bounded_integer_error:
  "bounded_integer v field lo hi = Inl e \<Longrightarrow>
     (\<exists>t. e = TypeError t) \<and> (\<forall>i. v \<noteq> PInt i) \<or> (\<exists>t. e = ValueError t) \<and> (\<exists>i. v = PInt i \<and> \<not> (lo \<le> i \<and> i \<le> hi))"
  by (auto simp: bounded_integer_def split: pyval.splits if_splits)

lemma ljust_fit: "length b \<le> n \<Longrightarrow> fit_bytes n (ljust n b) = ljust n b"
  by (simp add: ljust_def fit_bytes_id)

lemma length_ljust: "length b \<le> n \<Longrightarrow> length (ljust n b) = n"
  by (simp add: ljust_def)

lemma constants_in_range [simp]:
  "unsigned_range 4 MAGIC" "unsigned_range 2 VERSION"
  by (simp_all add: unsigned_range_def MAGIC_def VERSION_def)

definition request_fields :: "int \<Rightarrow> int \<Rightarrow> int \<Rightarrow> int \<Rightarrow> bytes \<Rightarrow> sval list" where
  "request_fields op h a0 a1 d =
     [VI MAGIC, VI VERSION, VI op, VI h, VI a0, VI a1, VI (int (length d)), VB (ljust MAX_PAYLOAD d)]"

definition request_in_range :: "int \<Rightarrow> int \<Rightarrow> int \<Rightarrow> int \<Rightarrow> bytes \<Rightarrow> bool" where
  "request_in_range op h a0 a1 d \<longleftrightarrow>
     1 \<le> op \<and> op \<le> 0xFFFF \<and> - (2 ^ 31) \<le> h \<and> h \<le> 2 ^ 31 - 1 \<and> 0 \<le> a0 \<and> a0 \<le> 0xFFFFFFFF
     \<and> 0 \<le> a1 \<and> a1 \<le> 0xFFFFFFFF \<and> length d \<le> MAX_PAYLOAD"

lemma encode_request_Inr:
  "encode_request op h a0 a1 d = Inr raw \<longleftrightarrow>
     (\<exists>op' h' a0' a1' d'. op = PInt op' \<and> h = PInt h' \<and> a0 = PInt a0' \<and> a1 = PInt a1' \<and> d = PBytes d'
        \<and> request_in_range op' h' a0' a1' d' \<and> pack REQUEST (request_fields op' h' a0' a1' d') = Inr raw)"
  by (cases d) (auto simp: encode_request_def rbind_eq_Inr request_in_range_def request_fields_def)

lemma request_fits: "request_in_range op h a0 a1 d \<Longrightarrow> fits REQUEST (request_fields op h a0 a1 d)"
  by (simp add: request_in_range_def request_fields_def REQUEST_def unsigned_range_def
      signed_range_def MAX_PAYLOAD_def MAGIC_def VERSION_def)

lemma request_fitted:
  "request_in_range op h a0 a1 d \<Longrightarrow> fitted REQUEST (request_fields op h a0 a1 d) = request_fields op h a0 a1 d"
  by (simp add: request_in_range_def request_fields_def REQUEST_def ljust_fit MAX_PAYLOAD_def)

lemma request_fields_inject:
  assumes "request_fields op h a0 a1 d = request_fields op' h' a0' a1' d'"
  shows "op = op' \<and> h = h' \<and> a0 = a0' \<and> a1 = a1' \<and> d = d'"
  using assms by (auto simp: request_fields_def ljust_def append_eq_append_conv)

lemma encode_request_error:
  assumes "\<not> request_in_range op h a0 a1 d"
  shows "\<exists>e. encode_request (PInt op) (PInt h) (PInt a0) (PInt a1) (PBytes d) = Inl e \<and> is_ValueError e"
  using assms
  by (auto simp: encode_request_def request_in_range_def bounded_integer_def not_le)

text \<open>
  C30: the request encoder succeeds exactly on integers within the ABI ranges and a payload of
  at most 256 bytes; it then writes one 280-byte record from which unpacking gives every field
  back, the payload followed by zero bytes.
\<close>

theorem encode_request_round_trip:
  "(\<exists>raw. encode_request op h a0 a1 d = Inr raw \<and> length raw = 280
      \<and> unpack REQUEST raw = Inr fs) \<longleftrightarrow>
   (\<exists>op' h' a0' a1' d'. op = PInt op' \<and> h = PInt h' \<and> a0 = PInt a0' \<and> a1 = PInt a1' \<and> d = PBytes d'
      \<and> request_in_range op' h' a0' a1' d' \<and> fs = request_fields op' h' a0' a1' d')"
  (is "?L \<longleftrightarrow> ?R")
proof
  assume ?L
  then obtain raw op' h' a0' a1' d' where "op = PInt op'" "h = PInt h'" "a0 = PInt a0'"
    "a1 = PInt a1'" "d = PBytes d'" and r: "request_in_range op' h' a0' a1' d'"
    and p: "pack REQUEST (request_fields op' h' a0' a1' d') = Inr raw"
    and u: "unpack REQUEST raw = Inr fs" by (auto simp only: encode_request_Inr)
  moreover have "fs = request_fields op' h' a0' a1' d'"
    using u unpack_pack [OF p] request_fitted [OF r] by simp
  ultimately show ?R by blast
next
  assume ?R
  then obtain op' h' a0' a1' d' where args: "op = PInt op'" "h = PInt h'" "a0 = PInt a0'"
    "a1 = PInt a1'" "d = PBytes d'" and r: "request_in_range op' h' a0' a1' d'"
    and fs: "fs = request_fields op' h' a0' a1' d'" by blast
  from request_fits [OF r] obtain raw where p: "pack REQUEST fs = Inr raw"
    using fs pack_succeeds by blast
  then have "length raw = 280" "unpack REQUEST raw = Inr fs"
    using length_pack [OF p] unpack_pack [OF p] request_fitted [OF r] fs by (simp_all add: layout_sizes)
  with args r p fs show ?L by (auto simp: encode_request_Inr)
qed

text \<open>
  Different requests have different encodings, so the hosted side cannot confuse two
  requests.
\<close>

lemma encode_request_injective:
  assumes "encode_request op h a0 a1 d = Inr raw" "encode_request op' h' a0' a1' d' = Inr raw"
  shows "op = op' \<and> h = h' \<and> a0 = a0' \<and> a1 = a1' \<and> d = d'"
proof -
  from assms(1) obtain i j k l b where 1: "op = PInt i" "h = PInt j" "a0 = PInt k" "a1 = PInt l"
    "d = PBytes b" "request_in_range i j k l b" "pack REQUEST (request_fields i j k l b) = Inr raw"
    by (auto simp: encode_request_Inr)
  from assms(2) obtain i' j' k' l' b' where 2: "op' = PInt i'" "h' = PInt j'" "a0' = PInt k'"
    "a1' = PInt l'" "d' = PBytes b'" "request_in_range i' j' k' l' b'"
    "pack REQUEST (request_fields i' j' k' l' b') = Inr raw"
    by (auto simp: encode_request_Inr)
  have "request_fields i j k l b = request_fields i' j' k' l' b'"
    using pack_inject [OF 1(7) 2(7)] request_fitted 1(6) 2(6) by simp
  with 1 2 show ?thesis by (auto dest: request_fields_inject)
qed

lemma encode_request_succeeds:
  "request_in_range op h a0 a1 d \<Longrightarrow>
     \<exists>raw. encode_request (PInt op) (PInt h) (PInt a0) (PInt a1) (PBytes d) = Inr raw"
  using pack_succeeds [of REQUEST "request_fields op h a0 a1 d"] request_fits [of op h a0 a1 d]
  by (auto simp: encode_request_Inr)

section \<open>What the decoders accept\<close>

lemma has_size_iff: "has_size n v \<longleftrightarrow> (\<exists>b. v = PBytes b \<and> length b = n)"
  by (cases v) auto

lemma response_shape:
  "\<exists>m v op st h l p. unpack_fields RESPONSE raw = [VI m, VI v, VI op, VI st, VI h, VI l, VB p]
     \<and> 0 \<le> l \<and> (length raw = calcsize RESPONSE \<longrightarrow> length p = 256)"
  by (simp add: RESPONSE_def unsigned_val_def calcsize_def)

lemma decode_response_fields:
  assumes "decode_response v op = Inr r"
  shows "cr_operation r = op" "length (cr_data r) \<le> MAX_PAYLOAD"
proof -
  obtain raw where raw: "v = PBytes raw" "length raw = calcsize RESPONSE"
    using assms by (auto simp: decode_response_def has_size_iff split: if_splits)
  with assms response_shape [of raw] show "cr_operation r = op" "length (cr_data r) \<le> MAX_PAYLOAD"
    by (auto simp: decode_response_def unpack_def Let_def split: if_splits)
qed

text \<open>
  C31: a response is accepted exactly when it is the packed form of a version-1 record with the
  expected operation and a payload length within the limit; status and handle are the record's
  and the data is the announced prefix of the payload.
\<close>

theorem decode_response_iff:
  "decode_response v op = Inr r \<longleftrightarrow>
     (\<exists>raw len payload. v = PBytes raw \<and> 0 \<le> len \<and> len \<le> 256 \<and> length payload = 256
        \<and> pack RESPONSE [VI MAGIC, VI VERSION, VI op, VI (cr_status r), VI (cr_handle r), VI len,
                         VB payload] = Inr raw
        \<and> r = \<lparr>cr_operation = op, cr_status = cr_status r, cr_handle = cr_handle r,
               cr_data = take (nat len) payload\<rparr>)" (is "?L \<longleftrightarrow> ?R")
proof
  assume ?L
  then obtain raw where raw: "v = PBytes raw" "length raw = calcsize RESPONSE"
    by (auto simp: decode_response_def has_size_iff split: if_splits)
  obtain m ve o' st h l p where u: "unpack_fields RESPONSE raw = [VI m, VI ve, VI o', VI st, VI h, VI l, VB p]"
    "0 \<le> l" "length p = 256" using response_shape [of raw] raw(2) by blast
  have "pack RESPONSE (unpack_fields RESPONSE raw) = Inr raw"
    using raw(2) by (rule pack_unpack) (simp add: RESPONSE_def)
  with \<open>?L\<close> raw u show ?R
    by (intro exI [of _ raw] exI [of _ l] exI [of _ p])
      (auto simp: decode_response_def unpack_def Let_def MAX_PAYLOAD_def split: if_splits)
next
  assume ?R
  then obtain raw len payload where v: "v = PBytes raw" and len: "0 \<le> len" "len \<le> 256"
    and pl: "length payload = 256"
    and p: "pack RESPONSE [VI MAGIC, VI VERSION, VI op, VI (cr_status r), VI (cr_handle r), VI len,
                 VB payload] = Inr raw"
    and r: "r = \<lparr>cr_operation = op, cr_status = cr_status r, cr_handle = cr_handle r,
             cr_data = take (nat len) payload\<rparr>" by blast
  have "unpack RESPONSE raw = Inr [VI MAGIC, VI VERSION, VI op, VI (cr_status r), VI (cr_handle r), VI len,
                 VB payload]"
    using unpack_pack [OF p] pl by (simp add: RESPONSE_def fit_bytes_id)
  with v len r length_pack [OF p] show ?L
    by (simp add: decode_response_def Let_def MAX_PAYLOAD_def unpack_def)
qed

definition bridge_fields :: "BridgeResult \<Rightarrow> sval list" where
  "bridge_fields r = map VI
     [br_token r, br_public_to_backend_bytes r, br_backend_to_public_bytes r, br_buffer_limit r,
      br_total_buffer_limit r, br_terminal_events r, br_host_send_eagain r,
      br_host_partial_writes r, br_host_recv_eagain r, br_session_limit r, br_status r, 0, 0]"

lemma bridge_shape:
  obtains v0 v1 v2 v3 v4 v5 v6 v7 v8 v9 v10 v11 v12 where
    "unpack_fields BRIDGE_RESULT raw = map VI [v0, v1, v2, v3, v4, v5, v6, v7, v8, v9, v10, v11, v12]"
  by (simp add: BRIDGE_RESULT_def)

text \<open>
  C32: a bridge result is accepted exactly when it is the 64-byte packed form of the result with
  both reserved words zero, a status that is not positive (zero unless terminal errors are
  allowed) and a session limit of at least one.
\<close>

theorem decode_bridge_result_iff:
  "decode_bridge_result v allow = Inr r \<longleftrightarrow>
     (\<exists>raw. v = PBytes raw \<and> pack BRIDGE_RESULT (bridge_fields r) = Inr raw
        \<and> br_status r \<le> 0 \<and> (allow \<or> br_status r = 0) \<and> 1 \<le> br_session_limit r)"
  (is "?L \<longleftrightarrow> ?R")
proof
  assume ?L
  then obtain raw where raw: "v = PBytes raw" "length raw = calcsize BRIDGE_RESULT"
    by (auto simp: decode_bridge_result_def has_size_iff split: if_splits)
  obtain v0 v1 v2 v3 v4 v5 v6 v7 v8 v9 v10 v11 v12 where
    u: "unpack_fields BRIDGE_RESULT raw = map VI [v0, v1, v2, v3, v4, v5, v6, v7, v8, v9, v10, v11, v12]"
    by (rule bridge_shape)
  have "pack BRIDGE_RESULT (unpack_fields BRIDGE_RESULT raw) = Inr raw"
    using raw(2) by (rule pack_unpack) (simp add: BRIDGE_RESULT_def)
  with \<open>?L\<close> raw u show ?R
    by (auto simp: decode_bridge_result_def unpack_def Let_def bridge_fields_def split: if_splits)
next
  assume ?R
  then obtain raw where v: "v = PBytes raw" and p: "pack BRIDGE_RESULT (bridge_fields r) = Inr raw"
    and c: "br_status r \<le> 0" "allow \<or> br_status r = 0" "1 \<le> br_session_limit r" by blast
  have "unpack BRIDGE_RESULT raw = Inr (bridge_fields r)"
    using unpack_pack [OF p] by (simp add: BRIDGE_RESULT_def bridge_fields_def)
  with v c length_pack [OF p] show ?L
    by (auto simp: decode_bridge_result_def Let_def unpack_def bridge_fields_def)
qed

definition service_fields :: "ServiceStats \<Rightarrow> sval list" where
  "service_fields r = map VI
     [ss_accepted_connections r, ss_completed_connections r, ss_rejected_connections r,
      ss_public_to_backend_bytes r, ss_backend_to_public_bytes r, ss_active_connections r,
      ss_peak_connections r, ss_max_connections r, ss_accept_batch r, ss_accept_eagain r,
      ss_bridge_start_failures r, ss_terminal_failures r, ss_state r, ss_last_error r, 0, 0, 0]"

lemma service_shape:
  obtains v0 v1 v2 v3 v4 v5 v6 v7 v8 v9 v10 v11 v12 v13 v14 v15 v16 where
    "unpack_fields SERVICE_STATS raw =
       map VI [v0, v1, v2, v3, v4, v5, v6, v7, v8, v9, v10, v11, v12, v13, v14, v15, v16]"
  by (simp add: SERVICE_STATS_def)

text \<open>
  A service statistics snapshot is accepted exactly when it is the 88-byte packed form of
  the snapshot with the three reserved words zero and a last error that is not positive.
\<close>

lemma decode_service_stats_iff:
  "decode_service_stats v = Inr r \<longleftrightarrow>
     (\<exists>raw. v = PBytes raw \<and> pack SERVICE_STATS (service_fields r) = Inr raw \<and> ss_last_error r \<le> 0)"
  (is "?L \<longleftrightarrow> ?R")
proof
  assume ?L
  then obtain raw where raw: "v = PBytes raw" "length raw = calcsize SERVICE_STATS"
    by (auto simp: decode_service_stats_def has_size_iff split: if_splits)
  obtain v0 v1 v2 v3 v4 v5 v6 v7 v8 v9 v10 v11 v12 v13 v14 v15 v16 where
    u: "unpack_fields SERVICE_STATS raw =
       map VI [v0, v1, v2, v3, v4, v5, v6, v7, v8, v9, v10, v11, v12, v13, v14, v15, v16]"
    by (rule service_shape)
  have "pack SERVICE_STATS (unpack_fields SERVICE_STATS raw) = Inr raw"
    using raw(2) by (rule pack_unpack) (simp add: SERVICE_STATS_def)
  with \<open>?L\<close> raw u show ?R
    by (auto simp: decode_service_stats_def unpack_def Let_def service_fields_def split: if_splits)
next
  assume ?R
  then obtain raw where v: "v = PBytes raw" and p: "pack SERVICE_STATS (service_fields r) = Inr raw"
    and c: "ss_last_error r \<le> 0" by blast
  have "unpack SERVICE_STATS raw = Inr (service_fields r)"
    using unpack_pack [OF p] by (simp add: SERVICE_STATS_def service_fields_def)
  with v c length_pack [OF p] show ?L
    by (auto simp: decode_service_stats_def Let_def unpack_def service_fields_def)
qed

definition reclaim_fields :: "ReclaimStats \<Rightarrow> sval list" where
  "reclaim_fields r = map VI
     [rs_reported_bytes r, rs_successful_discard_bytes r, rs_batches r, rs_ranges r,
      rs_failed_bytes r, rs_advisory_failures r, rs_state r, rs_last_error r, rs_minimum_order r,
      rs_maximum_range_bytes r, 0, 0]"

lemma reclaim_shape:
  obtains v0 v1 v2 v3 v4 v5 v6 v7 v8 v9 v10 v11 where
    "unpack_fields RECLAIM_STATS raw = map VI [v0, v1, v2, v3, v4, v5, v6, v7, v8, v9, v10, v11]"
  by (simp add: RECLAIM_STATS_def)

text \<open>
  A reclaim snapshot is accepted exactly when it is the 72-byte packed form of the snapshot
  with both reserved words zero, one of the four known states, a last error that is not
  positive, a minimum order of at most 63 and a maximum range that is not zero.
\<close>

lemma decode_reclaim_stats_iff:
  "decode_reclaim_stats v = Inr r \<longleftrightarrow>
     (\<exists>raw. v = PBytes raw \<and> pack RECLAIM_STATS (reclaim_fields r) = Inr raw
        \<and> rs_state r \<in> {RECLAIM_STATE_STARTING, RECLAIM_STATE_ACTIVE, RECLAIM_STATE_UNSUPPORTED,
                        RECLAIM_STATE_FAILED}
        \<and> rs_last_error r \<le> 0 \<and> rs_minimum_order r \<le> 63 \<and> rs_maximum_range_bytes r \<noteq> 0)"
  (is "?L \<longleftrightarrow> ?R")
proof -
  let ?states = "{RECLAIM_STATE_STARTING, RECLAIM_STATE_ACTIVE, RECLAIM_STATE_UNSUPPORTED,
                  RECLAIM_STATE_FAILED}"
  have states: "x \<in> ?states \<longleftrightarrow> 0 \<le> x \<and> x \<le> 3" for x
    by (auto simp: RECLAIM_STATE_STARTING_def RECLAIM_STATE_ACTIVE_def
        RECLAIM_STATE_UNSUPPORTED_def RECLAIM_STATE_FAILED_def)
  have nonneg: "0 \<le> rs_state r" if "pack RECLAIM_STATS (reclaim_fields r) = Inr raw" for raw
    using that pack_succeeds [of RECLAIM_STATS "reclaim_fields r"]
    by (auto simp: RECLAIM_STATS_def reclaim_fields_def unsigned_range_def)
  show ?thesis unfolding states
  proof
    assume ?L
    then obtain raw where raw: "v = PBytes raw" "length raw = calcsize RECLAIM_STATS"
      by (auto simp: decode_reclaim_stats_def has_size_iff split: if_splits)
    obtain v0 v1 v2 v3 v4 v5 v6 v7 v8 v9 v10 v11 where
      u: "unpack_fields RECLAIM_STATS raw = map VI [v0, v1, v2, v3, v4, v5, v6, v7, v8, v9, v10, v11]"
      by (rule reclaim_shape)
    have "pack RECLAIM_STATS (unpack_fields RECLAIM_STATS raw) = Inr raw"
      using raw(2) by (rule pack_unpack) (simp add: RECLAIM_STATS_def)
    with \<open>?L\<close> raw u have "v = PBytes raw \<and> pack RECLAIM_STATS (reclaim_fields r) = Inr raw \<and>
        rs_state r \<le> 3 \<and> rs_last_error r \<le> 0 \<and> rs_minimum_order r \<le> 63 \<and> rs_maximum_range_bytes r \<noteq> 0"
      by (auto simp: decode_reclaim_stats_def unpack_def Let_def reclaim_fields_def split: if_splits)
    with nonneg show "\<exists>raw. v = PBytes raw \<and> pack RECLAIM_STATS (reclaim_fields r) = Inr raw
        \<and> (0 \<le> rs_state r \<and> rs_state r \<le> 3)
        \<and> rs_last_error r \<le> 0 \<and> rs_minimum_order r \<le> 63 \<and> rs_maximum_range_bytes r \<noteq> 0" by blast
  next
    assume "\<exists>raw. v = PBytes raw \<and> pack RECLAIM_STATS (reclaim_fields r) = Inr raw
        \<and> (0 \<le> rs_state r \<and> rs_state r \<le> 3)
        \<and> rs_last_error r \<le> 0 \<and> rs_minimum_order r \<le> 63 \<and> rs_maximum_range_bytes r \<noteq> 0"
    then obtain raw where v: "v = PBytes raw" and p: "pack RECLAIM_STATS (reclaim_fields r) = Inr raw"
      and c: "rs_state r \<le> 3" "rs_last_error r \<le> 0" "rs_minimum_order r \<le> 63"
        "rs_maximum_range_bytes r \<noteq> 0" by blast
    have "unpack RECLAIM_STATS raw = Inr (reclaim_fields r)"
      using unpack_pack [OF p] by (simp add: RECLAIM_STATS_def reclaim_fields_def)
    with v c length_pack [OF p] show ?L
      by (auto simp: decode_reclaim_stats_def Let_def unpack_def reclaim_fields_def)
  qed
qed

section \<open>Endpoints\<close>

lemma usable_ip_address_Inr:
  "usable_ip_address v field = Inr a \<longleftrightarrow>
     (\<exists>s. v = PStr s \<and> ip_address s = Some a \<and> \<not> is_unspecified a \<and> \<not> is_multicast a)"
  by (cases v) (auto simp: usable_ip_address_def split: option.splits if_splits)

lemma ip_packed_fits: "length (ip_packed a) \<le> 16"
  by (simp add: length_ip_packed)

lemma endpoint_fits: "1 \<le> p \<and> p \<le> 65535 \<Longrightarrow>
    fits IP_ENDPOINT [VI (ip_version a), VB (ljust 16 (ip_packed a)), VI p, VI 0]"
  by (cases a) (simp_all add: IP_ENDPOINT_def unsigned_range_def)

text \<open>
  C33: an endpoint is encoded exactly when the address text is a unicast IP literal and the port
  is from 1 through 65535; the 24-byte record unpacks to the address family, the address (in
  network byte order, filled up with zero bytes), the port and a zero word.
\<close>

theorem encode_ip_endpoint_round_trip:
  "(\<exists>raw. encode_ip_endpoint address port = Inr raw \<and> length raw = 24 \<and> unpack IP_ENDPOINT raw = Inr fs)
   \<longleftrightarrow> (\<exists>s a p. address = PStr s \<and> ip_address s = Some a \<and> \<not> is_unspecified a \<and> \<not> is_multicast a
        \<and> port = PInt p \<and> 1 \<le> p \<and> p \<le> 65535
        \<and> fs = [VI (ip_version a), VB (ljust 16 (ip_packed a)), VI p, VI 0])"
  (is "?L \<longleftrightarrow> ?R")
proof -
  have fitted: "fitted IP_ENDPOINT [VI (ip_version a), VB (ljust 16 (ip_packed a)), VI p, VI 0] =
      [VI (ip_version a), VB (ljust 16 (ip_packed a)), VI p, VI 0]" for a p
    by (simp add: IP_ENDPOINT_def ljust_fit ip_packed_fits)
  show ?thesis
  proof
    assume ?L
    then show ?R
      by (auto simp: encode_ip_endpoint_def rbind_eq_Inr usable_ip_address_Inr
          dest!: unpack_fields_pack [of IP_ENDPOINT] simp: fitted)
  next
    assume ?R
    then obtain s a p where h: "address = PStr s" "ip_address s = Some a" "\<not> is_unspecified a"
      "\<not> is_multicast a" "port = PInt p" "1 \<le> p" "p \<le> 65535"
      and fs: "fs = [VI (ip_version a), VB (ljust 16 (ip_packed a)), VI p, VI 0]" by blast
    obtain raw where r: "pack IP_ENDPOINT fs = Inr raw"
      using endpoint_fits [of p a] h pack_succeeds fs by blast
    have "unpack IP_ENDPOINT raw = Inr fs" "length raw = 24"
      using unpack_pack [OF r] length_pack [OF r] fitted fs by (simp_all add: layout_sizes)
    with h r fs show ?L by (auto simp: encode_ip_endpoint_def rbind_eq_Inr usable_ip_address_Inr)
  qed
qed

section \<open>Reading one record: correctness\<close>

text \<open>
  What the reader relies on: the clock and \<open>select\<close> take nothing from the pipe, \<open>os.read\<close>
  returns at most the bytes asked for, in order, and takes nothing when it raises.  \<open>pending\<close>
  is the content of the pipe.
\<close>

definition pipe_reader :: "'s fd_io \<Rightarrow> ('s \<Rightarrow> bytes) \<Rightarrow> bool" where
  "pipe_reader io pending \<longleftrightarrow>
     (\<forall>s r s'. io_clock io s = (r, s') \<longrightarrow> pending s' = pending s)
     \<and> (\<forall>fd t s r s'. io_select io fd t s = (r, s') \<longrightarrow> pending s' = pending s)
     \<and> (\<forall>fd n s e s'. io_read io fd n s = (Inl e, s') \<longrightarrow> pending s' = pending s)
     \<and> (\<forall>fd n s b s'. io_read io fd n s = (Inr b, s') \<longrightarrow> length b \<le> n \<and> pending s = b @ pending s')"

lemma read_step_chunk:
  assumes "pipe_reader io pending" "read_step io fd n deadline got s = (Inr chunk, s')"
  shows "length chunk \<le> n - got \<and> pending s = chunk @ pending s'"
  using assms
  by (simp add: read_step_def Let_def pbind_cases pret_def praise_def pipe_reader_def
      split: if_splits) metis

lemma read_step_error:
  assumes "pipe_reader io pending" "read_step io fd n deadline got s = (Inl e, s')"
  shows "pending s' = pending s"
  using assms
  by (auto simp: read_step_def Let_def pbind_cases pret_def praise_def pipe_reader_def
      split: if_splits) (metis append_Nil)+

lemma read_loop_result:
  assumes "pipe_reader io pending" "read_loop io fd n deadline result s = (r, s')"
    "length result \<le> n"
  shows "case r of
      Inr b \<Rightarrow> (\<exists>got. b = result @ got \<and> length b = n \<and> pending s = got @ pending s')
    | Inl e \<Rightarrow> (\<exists>got. length (result @ got) < n \<and> pending s = got @ pending s')"
  using assms
proof (induction io fd n deadline result s arbitrary: r s' rule: read_loop.induct)
  case (1 io fd n deadline result s)
  note step = read_loop.simps [of io fd n deadline result s]
  show ?case
  proof (cases "length result < n")
    case False
    with "1.prems" show ?thesis by (auto simp: step)
  next
    case True
    obtain x s1 where x: "read_step io fd n deadline (length result) s = (x, s1)" by fastforce
    show ?thesis
    proof (cases x)
      case (Inl e)
      with True x "1.prems" read_step_error [OF "1.prems"(1), of fd n deadline "length result" s e s1]
      show ?thesis by (auto simp: step)
    next
      case (Inr chunk)
      with x have c: "length chunk \<le> n - length result" "pending s = chunk @ pending s1"
        using read_step_chunk [OF "1.prems"(1), of fd n deadline "length result" s chunk s1] by auto
      have "case r of
          Inr b \<Rightarrow> (\<exists>got. b = (result @ chunk) @ got \<and> length b = n \<and> pending s1 = got @ pending s')
        | Inl e \<Rightarrow> (\<exists>got. length ((result @ chunk) @ got) < n \<and> pending s1 = got @ pending s')"
        by (rule "1.IH" [OF True x [unfolded Inr, symmetric] refl "1.prems"(1)])
          (use True x Inr "1.prems"(2) c in \<open>auto simp: step\<close>)
      then show ?thesis using c(2) by (cases r) force+
    qed
  qed
qed

lemma read_exact_fd_result:
  assumes "pipe_reader io pending" "read_exact_fd io fd (PInt n) timeout s = (r, s')"
  shows "case r of
      Inr b \<Rightarrow> length b = nat n \<and> pending s = b @ pending s'
    | Inl e \<Rightarrow> (\<exists>got. (length got < nat n \<or> got = []) \<and> pending s = got @ pending s')"
proof -
  consider (early) e where "r = Inl e" "pending s' = pending s"
    | (loop) f t now s1 where "io_clock io s = (Inr now, s1)"
        "read_loop io f (nat n) (now + t) [] s1 = (r, s')"
    using assms
    by (cases r) (auto simp: read_exact_fd_def pbind_cases plift_def pipe_reader_def)
  then show ?thesis
  proof cases
    case early
    then show ?thesis by auto
  next
    case loop
    then have "pending s1 = pending s" using assms(1) by (auto simp: pipe_reader_def)
    with read_loop_result [OF assms(1) loop(2)] show ?thesis by (cases r) auto
  qed
qed

text \<open>
  C20: the record reader returns exactly the number of bytes asked for, the next ones of the
  pipe in order; when it raises, it has taken fewer than that and reports how many.
\<close>

theorem read_exact_fd_exact:
  assumes "pipe_reader io pending" "read_exact_fd io fd (PInt n) timeout s = (r, s')"
  shows "case r of
      Inr b \<Rightarrow> length b = nat n \<and> pending s = b @ pending s'
    | Inl e \<Rightarrow> (\<exists>got. (length got < nat n \<or> got = []) \<and> pending s = got @ pending s')"
  using assms by (rule read_exact_fd_result)

text \<open>A pipe that hands out its content in pieces of at most three bytes.\<close>

definition drip_io :: "bytes fd_io" where
  "drip_io = \<lparr>io_clock = (\<lambda>s. (Inr 0, s)), io_select = (\<lambda>fd t s. (Inr (s \<noteq> []), s)),
     io_read = (\<lambda>fd n s. (Inr (take (min n 3) s), drop (min n 3) s))\<rparr>"

lemma drip_io_reader: "pipe_reader drip_io (\<lambda>s. s)"
  by (auto simp: pipe_reader_def drip_io_def)

theorem read_exact_fd_exact_witness:
  "read_exact_fd drip_io (PInt 0) (PInt 5) (PInt 8) [1, 2, 3, 4, 5, 6] = (Inr [1, 2, 3, 4, 5], [6])
   \<and> length [1, 2, 3, 4, 5 :: byte] = nat 5"
proof -
  have r: "read_exact_fd drip_io (PInt 0) (PInt 5) (PInt 8) [1, 2, 3, 4, 5, 6] =
      (Inr [1, 2, 3, 4, 5], [6])"
    by (simp add: read_exact_fd_def drip_io_def pbind_def plift_def bounded_integer_def
        check_timeout_def read_loop.simps read_step_def pret_def praise_def)
  with read_exact_fd_exact [OF drip_io_reader r] show ?thesis by simp
qed

text \<open>
  A pipe that is ready: over the whole call the clock stays within one timeout, a non-empty pipe
  is readable, and a read from a non-empty pipe returns something.
\<close>

definition prompt_pipe :: "'s fd_io \<Rightarrow> ('s \<Rightarrow> bytes) \<Rightarrow> rat \<Rightarrow> bool" where
  "prompt_pipe io pending t \<longleftrightarrow> pipe_reader io pending
     \<and> (\<exists>base. \<forall>s. \<exists>now s'. io_clock io s = (Inr now, s') \<and> base \<le> now \<and> now < base + t)
     \<and> (\<forall>fd w s. pending s \<noteq> [] \<longrightarrow> (\<exists>s'. io_select io fd w s = (Inr True, s')))
     \<and> (\<forall>fd k s. pending s \<noteq> [] \<and> 0 < k \<longrightarrow> (\<exists>b s'. io_read io fd k s = (Inr b, s') \<and> b \<noteq> []))"

lemma read_step_ready:
  assumes p: "prompt_pipe io pending t" and c: "\<And>s. \<exists>now s'. io_clock io s = (Inr now, s') \<and> now < deadline"
    and "pending s \<noteq> []" "got < n"
  shows "\<exists>chunk s'. read_step io fd n deadline got s = (Inr chunk, s')"
proof -
  have r: "pipe_reader io pending" using p by (simp add: prompt_pipe_def)
  obtain now s1 where s1: "io_clock io s = (Inr now, s1)" "now < deadline" using c by blast
  with r assms(3) have n1: "pending s1 \<noteq> []" by (auto simp: pipe_reader_def)
  then obtain s2 where s2: "io_select io fd (deadline - now) s1 = (Inr True, s2)"
    using p unfolding prompt_pipe_def by blast
  with r n1 have "pending s2 \<noteq> []" by (auto simp: pipe_reader_def)
  then obtain b s3 where "io_read io fd (n - got) s2 = (Inr b, s3)" "b \<noteq> []"
    using p assms(4) unfolding prompt_pipe_def by (meson zero_less_diff)
  with s1 s2 show ?thesis by (simp add: read_step_def pbind_def pret_def)
qed

lemma read_loop_delivers:
  assumes "prompt_pipe io pending t" "\<And>s. \<exists>now s'. io_clock io s = (Inr now, s') \<and> now < deadline"
    "length result \<le> n" "n - length result \<le> length (pending s)"
  shows "\<exists>b s'. read_loop io fd n deadline result s = (Inr b, s')"
  using assms
proof (induction io fd n deadline result s rule: read_loop.induct)
  case (1 io fd n deadline result s)
  note step = read_loop.simps [of io fd n deadline result s]
  show ?case
  proof (cases "length result < n")
    case True
    with "1.prems"(4) have "pending s \<noteq> []" by auto
    from read_step_ready [OF "1.prems"(1,2) this True]
    obtain chunk s1 where x: "read_step io fd n deadline (length result) s = (Inr chunk, s1)" by blast
    with "1.prems"(1) have "length chunk \<le> n - length result \<and> pending s = chunk @ pending s1"
      by (intro read_step_chunk) (auto simp: prompt_pipe_def)
    with "1.prems"(4) True have "\<exists>b s'. read_loop io fd n deadline (result @ chunk) s1 = (Inr b, s')"
      by (intro "1.IH" [OF True x [symmetric] refl "1.prems"(1,2)]) auto
    with True x show ?thesis by (simp add: step)
  qed (simp add: step)
qed

text \<open>
  C21: when the peer has written a whole record and the pipe answers within the timeout, the
  reader returns, with the next bytes of the pipe, and leaves the rest in it.
\<close>

theorem read_exact_fd_delivers:
  assumes "prompt_pipe io pending t" "0 < t" "0 \<le> fd" "fd < 2 ^ 31" "1 \<le> n" "n < 2 ^ 31"
    and "nat n \<le> length (pending s)"
  shows "\<exists>s'. read_exact_fd io (PInt fd) (PInt n) (PFloat t) s = (Inr (take (nat n) (pending s)), s')
           \<and> pending s' = drop (nat n) (pending s)"
proof -
  have pr: "pipe_reader io pending" using assms(1) by (simp add: prompt_pipe_def)
  obtain base where base: "\<And>s. \<exists>now s'. io_clock io s = (Inr now, s') \<and> base \<le> now \<and> now < base + t"
    using assms(1) by (auto simp: prompt_pipe_def)
  then obtain now s1 where s1: "io_clock io s = (Inr now, s1)" "base \<le> now" by blast
  have d: "\<exists>now' s'. io_clock io u = (Inr now', s') \<and> now' < now + t" for u
    using base [of u] s1(2) by force
  have p1: "pending s1 = pending s" using pr s1(1) by (auto simp: pipe_reader_def)
  with assms(7)
  obtain b s2 where l: "read_loop io fd (nat n) (now + t) [] s1 = (Inr b, s2)"
    using read_loop_delivers [OF assms(1) d, of "[]" "nat n" s1 fd] by auto
  then have "length b = nat n \<and> pending s = b @ pending s2"
    using read_loop_result [OF pr l] p1 by auto
  moreover have "read_exact_fd io (PInt fd) (PInt n) (PFloat t) s = (Inr b, s2)"
    using assms s1 l by (simp add: read_exact_fd_def pbind_def plift_def bounded_integer_def check_timeout_def)
  ultimately show ?thesis by (metis append_eq_conv_conj)
qed

lemma drip_io_prompt: "0 < t \<Longrightarrow> prompt_pipe drip_io (\<lambda>s. s) t"
  unfolding prompt_pipe_def
  by (intro conjI drip_io_reader exI [of _ 0]) (auto simp: drip_io_def)

theorem read_exact_fd_delivers_witness:
  "\<exists>s'. read_exact_fd drip_io (PInt 3) (PInt 4) (PFloat 8) [9, 8, 7, 6, 5] = (Inr [9, 8, 7, 6], s')
     \<and> s' = [5]"
  using read_exact_fd_delivers [OF drip_io_prompt [of 8], of 3 4 "[9, 8, 7, 6, 5]"]
  by (simp add: eval_nat_numeral)

section \<open>One transaction\<close>

text \<open>A peer in memory: the bytes sent so far and the bytes to be read.\<close>

definition memory_client :: "(bytes \<times> bytes) control_client" where
  "memory_client = \<lparr>
     c_write = (\<lambda>b s. (Inr (Some (int (length b))), (fst s @ b, snd s))),
     c_flush = pret (), c_fileno = pret 5,
     c_io = \<lparr>io_clock = pret 0, io_select = (\<lambda>fd t s. (Inr (snd s \<noteq> []), s)),
              io_read = (\<lambda>fd n s. (Inr (take n (snd s)), (fst s, drop n (snd s))))\<rparr>,
     c_timeout = 8, c_strerror = (\<lambda>e. None)\<rparr>"

definition hello_record :: bytes where
  "hello_record =
     (case pack RESPONSE [VI MAGIC, VI VERSION, VI OP_HELLO, VI 0, VI 3, VI 2, VB [7, 9]] of
        Inr raw \<Rightarrow> raw | Inl e \<Rightarrow> [])"

definition hello_response :: ControlResponse where
  "hello_response = \<lparr>cr_operation = OP_HELLO, cr_status = 0, cr_handle = 3, cr_data = [7, 9]\<rparr>"

lemma memory_client_reader: "pipe_reader (c_io memory_client) snd"
  by (auto simp: pipe_reader_def memory_client_def pret_def)

lemma transact_cases:
  assumes "transact c op h a0 a1 d allowed s = (Inr resp, s')"
  obtains encoded s1 fd s2 raw where "allowed \<noteq> []"
    "encode_request (PInt op) (PInt h) (PInt a0) (PInt a1) (PBytes d) = Inr encoded"
    "send_request c encoded s = (Inr (), s1)" "c_fileno c s1 = (Inr fd, s2)"
    "read_exact_fd (c_io c) (PInt fd) (PInt (int (calcsize RESPONSE))) (PFloat (c_timeout c)) s2 =
       (Inr raw, s')"
    "decode_response (PBytes raw) op = Inr resp" "cr_status resp \<in> set allowed"
  using assms
  by (auto simp: transact_def pbind_cases plift_def phandle_def praise_def pret_def
      split: if_splits prod.splits sum.splits)

text \<open>
  C13: a transaction that returns has sent one encoded request whose arguments are within the
  ABI ranges, has taken exactly one response record from the pipe, and the response it returns
  is that record's: its operation is the requested one and its status is allowed.
\<close>

theorem transact_sound:
  assumes "pipe_reader (c_io c) pending" "transact c op h a0 a1 d allowed s = (Inr resp, s')"
  shows "\<exists>encoded s1 fd s2 raw.
      encode_request (PInt op) (PInt h) (PInt a0) (PInt a1) (PBytes d) = Inr encoded
      \<and> request_in_range op h a0 a1 d
      \<and> send_request c encoded s = (Inr (), s1) \<and> c_fileno c s1 = (Inr fd, s2)
      \<and> pending s2 = raw @ pending s' \<and> length raw = calcsize RESPONSE
      \<and> decode_response (PBytes raw) op = Inr resp
      \<and> cr_operation resp = op \<and> cr_status resp \<in> set allowed \<and> length (cr_data resp) \<le> MAX_PAYLOAD"
proof -
  from assms(2) obtain encoded s1 fd s2 raw where t:
    "encode_request (PInt op) (PInt h) (PInt a0) (PInt a1) (PBytes d) = Inr encoded"
    "send_request c encoded s = (Inr (), s1)" "c_fileno c s1 = (Inr fd, s2)"
    "read_exact_fd (c_io c) (PInt fd) (PInt (int (calcsize RESPONSE))) (PFloat (c_timeout c)) s2 =
       (Inr raw, s')"
    "decode_response (PBytes raw) op = Inr resp" "cr_status resp \<in> set allowed"
    by (rule transact_cases)
  have "request_in_range op h a0 a1 d" using t(1) by (simp add: encode_request_Inr)
  moreover have "pending s2 = raw @ pending s' \<and> length raw = calcsize RESPONSE"
    using read_exact_fd_result [OF assms(1) t(4)] by simp
  moreover have "cr_operation resp = op \<and> length (cr_data resp) \<le> MAX_PAYLOAD"
    using decode_response_fields [OF t(5)] by simp
  ultimately show ?thesis using t by blast
qed

lemma hello_packed:
  "pack RESPONSE [VI MAGIC, VI VERSION, VI OP_HELLO, VI 0, VI 3, VI 2, VB [7, 9]] = Inr hello_record"
proof -
  have "fits RESPONSE [VI MAGIC, VI VERSION, VI OP_HELLO, VI 0, VI 3, VI 2, VB [7, 9]]"
    by (simp add: RESPONSE_def unsigned_range_def signed_range_def MAGIC_def VERSION_def OP_HELLO_def)
  from pack_succeeds [THEN iffD2, OF this] show ?thesis by (auto simp: hello_record_def)
qed

lemma decode_hello: "decode_response (PBytes hello_record) OP_HELLO = Inr hello_response"
proof -
  have "unpack RESPONSE hello_record = Inr [VI MAGIC, VI VERSION, VI OP_HELLO, VI 0, VI 3, VI 2,
      VB (fit_bytes 256 [7, 9])]"
    using unpack_pack [OF hello_packed] by (simp add: RESPONSE_def)
  then show ?thesis
    using length_pack [OF hello_packed]
    by (simp add: decode_response_def Let_def MAX_PAYLOAD_def unpack_def hello_response_def
        fit_bytes_def)
qed

lemma memory_transaction:
  "fst (transact memory_client OP_HELLO 0 0 0 [] [0] ([], hello_record)) = Inr hello_response"
proof -
  obtain encoded where e: "encode_request (PInt OP_HELLO) (PInt 0) (PInt 0) (PInt 0) (PBytes []) = Inr encoded"
    using encode_request_succeeds [of OP_HELLO 0 0 0 "[]"] by (auto simp: request_in_range_def OP_HELLO_def)
  have l: "length hello_record = calcsize RESPONSE" by (rule length_pack [OF hello_packed])
  have r: "read_exact_fd (c_io memory_client) (PInt 5) (PInt (int (calcsize RESPONSE)))
      (PFloat (c_timeout memory_client)) (x, hello_record) = (Inr hello_record, (x, []))" for x
    using l by (auto simp: read_exact_fd_def memory_client_def pbind_def plift_def bounded_integer_def
        check_timeout_def read_loop.simps read_step_def pret_def calcsize_def RESPONSE_def)
  show ?thesis
    using e r by (simp add: transact_def plift_def pbind_def pthen_def phandle_def send_request_def
        decode_hello pret_def hello_response_def)
      (simp add: memory_client_def pret_def pbind_def plift_def decode_hello hello_response_def)
qed

theorem transact_sound_witness:
  "fst (transact memory_client OP_HELLO 0 0 0 [] [0] ([], hello_record)) = Inr hello_response
   \<and> request_in_range OP_HELLO 0 0 0 []"
proof -
  obtain s' where "transact memory_client OP_HELLO 0 0 0 [] [0] ([], hello_record) =
      (Inr hello_response, s')" using memory_transaction by (metis prod.collapse)
  with transact_sound [OF memory_client_reader this] show ?thesis by auto
qed

text \<open>
  C34: a request that is out of range, or a call without an allowed status, is refused before
  anything is written: the state is untouched and the exception is a \<^verbatim>\<open>ValueError\<close>.
\<close>

theorem transact_refused:
  assumes "\<not> request_in_range op h a0 a1 d \<or> allowed = []"
  shows "\<exists>e. transact c op h a0 a1 d allowed s = (Inl e, s) \<and> is_ValueError e"
proof (cases "allowed = []")
  case False
  then obtain e where "encode_request (PInt op) (PInt h) (PInt a0) (PInt a1) (PBytes d) = Inl e"
    "is_ValueError e" using encode_request_error assms by blast
  with False show ?thesis by (simp add: transact_def praise_def)
qed (simp add: transact_def praise_def)

theorem transact_refused_witness:
  "\<exists>e. transact memory_client 0 0 0 0 [] [0] ([], []) = (Inl e, ([], [])) \<and> is_ValueError e"
  by (rule transact_refused) (simp add: request_in_range_def)

text \<open>
  The protocol \<^verbatim>\<open>ControlChannel\<close> of \<^verbatim>\<open>tools/tcpcc_cli.py\<close> as the hosted runtime uses it:
  what is returned carries an allowed status, the operation asked for and a bounded payload.
\<close>

locale control_channel =
  fixes tx :: "int \<Rightarrow> int \<Rightarrow> int \<Rightarrow> int \<Rightarrow> bytes \<Rightarrow> int list \<Rightarrow> ('s, ControlResponse) py"
  assumes tx_status: "tx op h a0 a1 d allowed s = (Inr r, s') \<Longrightarrow> cr_status r \<in> set allowed"
    and tx_operation: "tx op h a0 a1 d allowed s = (Inr r, s') \<Longrightarrow> cr_operation r = op"
    and tx_data: "tx op h a0 a1 d allowed s = (Inr r, s') \<Longrightarrow> length (cr_data r) \<le> MAX_PAYLOAD"
    and tx_range: "tx op h a0 a1 d allowed s = (Inr r, s') \<Longrightarrow> request_in_range op h a0 a1 d"
begin

lemma tx_zero: "tx op h a0 a1 d [0] s = (Inr r, s') \<Longrightarrow> cr_status r = 0"
  using tx_status by fastforce

end

interpretation client: control_channel "transact c" for c :: "'s control_client"
proof
  fix op h a0 a1 d allowed s r s'
  assume "transact c op h a0 a1 d allowed s = (Inr r, s')"
  then obtain encoded raw where
    "encode_request (PInt op) (PInt h) (PInt a0) (PInt a1) (PBytes d) = Inr encoded"
    "decode_response (PBytes raw) op = Inr r" "cr_status r \<in> set allowed"
    by (rule transact_cases)
  then show "cr_status r \<in> set allowed" "cr_operation r = op" "length (cr_data r) \<le> MAX_PAYLOAD"
    "request_in_range op h a0 a1 d"
    by (simp_all add: decode_response_fields encode_request_Inr)
qed

end
