(* ===== verification/Host_Names.thy ===== *)
theory Host_Names
  imports Ip_Address
begin

text \<open>
  The names the host side validates or makes up (\<^verbatim>\<open>tools/tcpcc_host.py\<close>): the regular
  expressions for congestion-control names, TUN devices, nftables tables, iptables chains and
  ownership markers, the validators that use them, and the generated names.

  A pattern ending in \<^verbatim>\<open>\Z\<close> and used with \<^verbatim>\<open>fullmatch\<close> is a predicate on the whole
  text.  The random bytes of \<^verbatim>\<open>secrets.token_hex\<close> are an argument.
\<close>

section \<open>Character classes\<close>

definition is_lower :: "char \<Rightarrow> bool" where
  "is_lower c \<longleftrightarrow> c \<in> set ''abcdefghijklmnopqrstuvwxyz''"

definition is_upper :: "char \<Rightarrow> bool" where
  "is_upper c \<longleftrightarrow> c \<in> set ''ABCDEFGHIJKLMNOPQRSTUVWXYZ''"

definition is_letter :: "char \<Rightarrow> bool" where
  "is_letter c \<longleftrightarrow> is_lower c \<or> is_upper c"

definition is_cc_char :: "char \<Rightarrow> bool" where
  "is_cc_char c \<longleftrightarrow> is_lower c \<or> is_dec_digit c \<or> c \<in> set ''_-''"

definition is_tun_char :: "char \<Rightarrow> bool" where
  "is_tun_char c \<longleftrightarrow> is_letter c \<or> is_dec_digit c \<or> c \<in> set ''_.-''"

definition is_table_char :: "char \<Rightarrow> bool" where
  "is_table_char c \<longleftrightarrow> is_lower c \<or> is_dec_digit c \<or> c = CHR ''_''"

definition is_chain_char :: "char \<Rightarrow> bool" where
  "is_chain_char c \<longleftrightarrow> is_letter c \<or> is_dec_digit c \<or> c \<in> set ''_-''"

definition is_lower_hex :: "char \<Rightarrow> bool" where
  "is_lower_hex c \<longleftrightarrow> c \<in> set ''abcdef0123456789''"

section \<open>Patterns\<close>

definition CC_NAME :: "string \<Rightarrow> bool" where
  "CC_NAME s \<longleftrightarrow> 1 \<le> length s \<and> length s \<le> 15 \<and> list_all is_cc_char s"

definition TUN_NAME :: "string \<Rightarrow> bool" where
  "TUN_NAME s \<longleftrightarrow> 1 \<le> length s \<and> length s \<le> 15 \<and> list_all is_tun_char s"

fun NFT_TABLE_NAME :: "string \<Rightarrow> bool" where
  "NFT_TABLE_NAME [] = False"
| "NFT_TABLE_NAME (c # s) \<longleftrightarrow> is_lower c \<and> length s \<le> 31 \<and> list_all is_table_char s"

definition NFT_OWNER_PREFIX :: string where
  "NFT_OWNER_PREFIX = ''tcpcc.owner.''"

fun IPTABLES_CHAIN_NAME :: "string \<Rightarrow> bool" where
  "IPTABLES_CHAIN_NAME [] = False"
| "IPTABLES_CHAIN_NAME (c # s) \<longleftrightarrow> is_letter c \<and> length s \<le> 27 \<and> list_all is_chain_char s"

definition IPTABLES_CHAIN_PREFIX :: string where
  "IPTABLES_CHAIN_PREFIX = ''TCPCC_''"

definition IPTABLES_OWNED_CHAIN :: "string \<Rightarrow> bool" where
  "IPTABLES_OWNED_CHAIN s \<longleftrightarrow>
     startswith s ''TCPCC_'' \<and> length s = 18 \<and> list_all is_lower_hex (drop 6 s)"

definition IPTABLES_JUMP_PREFIX :: string where
  "IPTABLES_JUMP_PREFIX = ''tcpcc.jump.''"

definition FIREWALL_BACKENDS :: "string list" where
  "FIREWALL_BACKENDS = [''iptables'', ''nft-exec'', ''nft-lib'']"

section \<open>Validators\<close>

definition validate_tun_name :: "pyval \<Rightarrow> exn + string" where
  "validate_tun_name v =
     (case v of
        PStr name \<Rightarrow>
          (if \<not> TUN_NAME name \<or> name \<in> set [''.'', ''..'']
           then Inl (ValueError (''TUN name must contain 1-15 ASCII letters, digits, dots, ''
                                 @ ''underscores, or hyphens''))
           else Inr name)
      | _ \<Rightarrow> Inl (ValueError (''TUN name must contain 1-15 ASCII letters, digits, dots, ''
                              @ ''underscores, or hyphens'')))"

definition validate_nft_table_name :: "pyval \<Rightarrow> exn + string" where
  "validate_nft_table_name v =
     (case v of
        PStr name \<Rightarrow>
          (if \<not> NFT_TABLE_NAME name
           then Inl (ValueError (''nftables table name must start with a lowercase letter and ''
                                 @ ''contain at most 32 lowercase letters, digits, or underscores''))
           else Inr name)
      | _ \<Rightarrow> Inl (ValueError (''nftables table name must start with a lowercase letter and ''
                              @ ''contain at most 32 lowercase letters, digits, or underscores'')))"

definition validate_port :: "pyval \<Rightarrow> string \<Rightarrow> exn + int" where
  "validate_port v field =
     (case v of
        PInt port \<Rightarrow>
          (if 1 \<le> port \<and> port \<le> 65535 then Inr port
           else Inl (ValueError (field @ '' must be an integer from 1 through 65535'')))
      | _ \<Rightarrow> Inl (ValueError (field @ '' must be an integer from 1 through 65535'')))"

definition validate_endpoint_address :: "pyval \<Rightarrow> string \<Rightarrow> exn + string" where
  "validate_endpoint_address v field =
     (let bad = Inl (ValueError (field @ '' must be one usable IP address''))
      in case v of
           PStr text \<Rightarrow>
             (case ip_address text of
                None \<Rightarrow> bad
              | Some address \<Rightarrow>
                  (if is_unspecified address \<or> is_multicast address then bad
                   else Inr (ip_str address)))
         | _ \<Rightarrow> bad)"

section \<open>Generated names\<close>

definition token_hex :: "bytes \<Rightarrow> string" where
  "token_hex bs = concat (map (\<lambda>b. hex2 (unat b)) bs)"

definition new_tun_name :: "bytes \<Rightarrow> string" where
  "new_tun_name random = ''tcpcc'' @ token_hex random"

definition new_nft_table_name :: "bytes \<Rightarrow> string" where
  "new_nft_table_name random = ''tcpcc_'' @ token_hex random"

section \<open>Facts on the character classes\<close>

lemma lower_hex_classes:
  assumes "is_lower_hex c"
  shows "is_tun_char c" "is_table_char c" "is_chain_char c" "is_cc_char c"
proof -
  have "list_all (\<lambda>c. is_tun_char c \<and> is_table_char c \<and> is_chain_char c \<and> is_cc_char c)
          ''abcdef0123456789''" by code_simp
  with assms show "is_tun_char c" "is_table_char c" "is_chain_char c" "is_cc_char c"
    by (simp_all only: is_lower_hex_def list_all_iff)
qed

lemma digit_char_lower_hex: "d < 16 \<Longrightarrow> is_lower_hex (digit_char d)"
  by (rule all_digits_16) (code_simp, assumption)

lemma is_tun_char_alphabet:
  "is_tun_char c \<longleftrightarrow>
     c \<in> set ''abcdefghijklmnopqrstuvwxyzABCDEFGHIJKLMNOPQRSTUVWXYZ0123456789_.-''"
  by (simp only: is_tun_char_def is_letter_def is_lower_def is_upper_def is_dec_digit_def
      set_append [symmetric] Un_iff [symmetric]) simp

lemma tun_char_facts:
  assumes "is_tun_char c"
  shows "is_ascii_char c" "\<not> is_space c" "c \<noteq> CHR 0x00" "c \<noteq> CHR 0x22" "c \<noteq> CHR 0x0A" "c \<noteq> CHR '' ''"
    "c \<noteq> CHR 0x27" "c \<noteq> CHR 0x5C"
proof -
  have "list_all (\<lambda>c. is_ascii_char c \<and> \<not> is_space c \<and> c \<noteq> CHR 0x00 \<and> c \<noteq> CHR 0x22 \<and> c \<noteq> CHR 0x0A
      \<and> c \<noteq> CHR '' '' \<and> c \<noteq> CHR 0x27 \<and> c \<noteq> CHR 0x5C)
      ''abcdefghijklmnopqrstuvwxyzABCDEFGHIJKLMNOPQRSTUVWXYZ0123456789_.-''" by code_simp
  with assms show "is_ascii_char c" "\<not> is_space c" "c \<noteq> CHR 0x00" "c \<noteq> CHR 0x22" "c \<noteq> CHR 0x0A" "c \<noteq> CHR '' ''"
    "c \<noteq> CHR 0x27" "c \<noteq> CHR 0x5C"
    by (simp_all only: is_tun_char_alphabet list_all_iff not_False_eq_True)
qed

lemma length_token_hex [simp]: "length (token_hex bs) = 2 * length bs"
  by (induction bs) (auto simp: token_hex_def hex2_def)

lemma byte_nibbles: "unat (b :: byte) div 16 < 16" "unat b mod 16 < 16"
  using unsigned_less [of b, where 'a = nat] by auto

lemma token_hex_chars: "list_all is_lower_hex (token_hex bs)"
  by (induction bs) (simp_all add: token_hex_def hex2_def digit_char_lower_hex byte_nibbles)

lemma validate_tun_name_Inr:
  "validate_tun_name v = Inr n \<longleftrightarrow> v = PStr n \<and> TUN_NAME n \<and> n \<notin> set [''.'', ''..'']"
  by (cases v) (auto simp: validate_tun_name_def)

lemma validate_nft_table_name_Inr:
  "validate_nft_table_name v = Inr n \<longleftrightarrow> v = PStr n \<and> NFT_TABLE_NAME n"
  by (cases v) (auto simp: validate_nft_table_name_def)

lemma validate_port_Inr:
  "validate_port v f = Inr p \<longleftrightarrow> v = PInt p \<and> 1 \<le> p \<and> p \<le> 65535"
  by (cases v) (auto simp: validate_port_def)

lemma validate_endpoint_address_Inr:
  "validate_endpoint_address v f = Inr t \<longleftrightarrow>
     (\<exists>s a. v = PStr s \<and> ip_address s = Some a \<and> \<not> is_unspecified a \<and> \<not> is_multicast a \<and> t = ip_str a)"
  by (cases v) (auto simp: validate_endpoint_address_def Let_def split: option.splits if_splits)

text \<open>A generated name is one the validators accept, whatever the random bytes are.\<close>

lemma new_tun_name_valid:
  assumes "length random = 5"
  shows "validate_tun_name (PStr (new_tun_name random)) = Inr (new_tun_name random)"
  using assms token_hex_chars [of random]
  by (auto simp: validate_tun_name_Inr TUN_NAME_def new_tun_name_def list_all_iff lower_hex_classes)
    (simp_all add: is_tun_char_alphabet)

lemma new_nft_table_name_valid:
  assumes "length random = 6"
  shows "validate_nft_table_name (PStr (new_nft_table_name random)) = Inr (new_nft_table_name random)"
  using assms token_hex_chars [of random]
  by (auto simp: validate_nft_table_name_Inr new_nft_table_name_def list_all_iff lower_hex_classes)
    (simp_all add: is_table_char_def is_lower_def)

section \<open>Words\<close>

text \<open>
  What a rule is written with: names, numbers and addresses without a scope identifier hold
  no space, line break, quote or backslash.
\<close>

definition is_word_char :: "char \<Rightarrow> bool" where
  "is_word_char c \<longleftrightarrow> is_tun_char c \<or> c = CHR '':''"

fun scope_free :: "ip_address \<Rightarrow> bool" where
  "scope_free (IPv4 w) = True"
| "scope_free (IPv6 w z) = (z = None)"

lemma word_char_facts:
  assumes "is_word_char c"
  shows "is_ascii_char c" "\<not> is_space c"
    "c \<notin> set [CHR 0x00, CHR 0x22, CHR 0x0A, CHR 0x0D, CHR '' '', CHR 0x27, CHR 0x5C, CHR ''/'']"
proof -
  let ?P = "\<lambda>c. is_ascii_char c \<and> \<not> is_space c
    \<and> c \<notin> set [CHR 0x00, CHR 0x22, CHR 0x0A, CHR 0x0D, CHR '' '', CHR 0x27, CHR 0x5C, CHR ''/'']"
  have "list_all ?P ''abcdefghijklmnopqrstuvwxyzABCDEFGHIJKLMNOPQRSTUVWXYZ0123456789_.-''"
    by code_simp
  then have "is_tun_char c \<Longrightarrow> ?P c" unfolding is_tun_char_alphabet list_all_iff by (rule bspec)
  moreover have "?P (CHR '':'')" by code_simp
  ultimately have "?P c" using assms unfolding is_word_char_def by blast
  then show "is_ascii_char c" "\<not> is_space c"
    "c \<notin> set [CHR 0x00, CHR 0x22, CHR 0x0A, CHR 0x0D, CHR '' '', CHR 0x27, CHR 0x5C, CHR ''/'']"
    by blast+
qed

lemma word_free:
  assumes "list_all is_word_char s"
    "c \<in> set [CHR 0x00, CHR 0x22, CHR 0x0A, CHR 0x0D, CHR '' '', CHR 0x27, CHR 0x5C, CHR ''/'']"
  shows "c \<notin> set s"
  using assms word_char_facts(3) unfolding list_all_iff by blast

lemma dec_digit_word: "is_dec_digit c \<Longrightarrow> is_word_char c"
  by (simp add: is_word_char_def is_tun_char_def)

lemma hex_digit_word:
  assumes "is_hex_digit c"
  shows "is_word_char c"
proof -
  have "list_all is_word_char ''0123456789abcdefABCDEF''" by code_simp
  with assms show ?thesis by (simp only: is_hex_digit_def list_all_iff)
qed

lemma str_nat_word: "list_all is_word_char (str_nat n)"
  using str_nat_digits [of n] by (auto simp: list_all_iff dec_digit_word)

lemma str_int_word: "0 \<le> i \<Longrightarrow> list_all is_word_char (str_int i)"
  by (simp add: str_int_def str_nat_word)

lemma tun_name_word: "TUN_NAME t \<Longrightarrow> list_all is_word_char t"
  by (auto simp: TUN_NAME_def list_all_iff is_word_char_def)

lemma table_char_word: "is_table_char c \<Longrightarrow> is_word_char c"
  by (auto simp: is_word_char_def is_tun_char_def is_table_char_def is_letter_def)

lemma table_name_word: "NFT_TABLE_NAME t \<Longrightarrow> list_all is_word_char t"
proof (cases t)
  case (Cons c s)
  moreover assume "NFT_TABLE_NAME t"
  ultimately have "is_table_char c" "list_all is_table_char s" by (simp_all add: is_table_char_def)
  with Cons show ?thesis by (simp add: list_all_iff table_char_word)
qed simp

lemma chain_char_word: "is_chain_char c \<Longrightarrow> is_word_char c"
  by (auto simp: is_word_char_def is_tun_char_def is_chain_char_def)

lemma chain_name_word: "IPTABLES_CHAIN_NAME t \<Longrightarrow> list_all is_word_char t"
proof (cases t)
  case (Cons c s)
  moreover assume "IPTABLES_CHAIN_NAME t"
  ultimately have "is_chain_char c" "list_all is_chain_char s" by (simp_all add: is_chain_char_def)
  with Cons show ?thesis by (simp add: list_all_iff chain_char_word)
qed simp

lemma v4_str_word: "list_all is_word_char (v4_str n)"
  unfolding v4_str_def
proof (rule join_map_digits)
  fix p assume "p \<in> set (map str_nat (be_digits 256 4 n))"
  then show "list_all is_word_char p" using str_nat_word by auto
qed code_simp

lemma v6_str_word: "list_all is_word_char (v6_str n)"
  unfolding list_all_iff
proof
  fix c assume "c \<in> set (v6_str n)"
  then show "is_word_char c"
    using v6_str_chars hex_digit_word unfolding is_word_char_def by blast
qed

lemma ip_str_word: "scope_free a \<Longrightarrow> list_all is_word_char (ip_str a)"
  by (cases a) (simp_all add: v4_str_word v6_str_word)

end
