(* ===== verification/Json.thy ===== *)
theory Json
  imports Py_Text "HOL-Library.Char_ord" "HOL-Library.List_Lexorder"
begin

text \<open>
  Python's \<^verbatim>\<open>json\<close> module as far as the sources use it: \<^verbatim>\<open>dumps\<close> with the separators
  \<^verbatim>\<open>","\<close> and \<^verbatim>\<open>":"\<close> and with \<^verbatim>\<open>sort_keys\<close>, and \<^verbatim>\<open>loads\<close>.  An object keeps
  its members in order; looking a key up takes the last one, as building a \<^verbatim>\<open>dict\<close> from
  the members does.  A number with a fraction or an exponent keeps its literal.

  Texts are code points below 256, so an escape beyond that has no value here, and the
  interpreter's limits on nesting and on the digits of an integer are not modelled.  The main
  fact is \<open>loads_dumps\<close>: reading what was printed gives the value back.
\<close>

datatype json =
    JNull
  | JBool bool
  | JInt int
  | JFloat string
  | JStr string
  | JList "json list"
  | JObj "(string \<times> json) list"

text \<open>\<open>d.get(key)\<close>, with \<open>None\<close> for a missing key and for a JSON null alike.\<close>

definition jget :: "string \<Rightarrow> (string \<times> json) list \<Rightarrow> json" where
  "jget key members = (case map_of (rev members) key of Some v \<Rightarrow> v | None \<Rightarrow> JNull)"

section \<open>Printing\<close>

definition QUOTE :: char where "QUOTE = CHR 0x22"
definition BACKSLASH :: char where "BACKSLASH = CHR 0x5C"

definition escape_char :: "char \<Rightarrow> string" where
  "escape_char c =
     (if c = QUOTE then [BACKSLASH, QUOTE]
      else if c = BACKSLASH then [BACKSLASH, BACKSLASH]
      else if c = CHR 0x0A then [BACKSLASH, CHR ''n'']
      else if c = CHR 0x0D then [BACKSLASH, CHR ''r'']
      else if c = CHR 0x09 then [BACKSLASH, CHR ''t'']
      else if c = CHR 0x0C then [BACKSLASH, CHR ''f'']
      else if c = CHR 0x08 then [BACKSLASH, CHR ''b'']
      else if 32 \<le> (of_char c :: nat) \<and> (of_char c :: nat) < 127 then [c]
      else [BACKSLASH, CHR ''u'', CHR ''0'', CHR ''0''] @ hex2 (of_char c))"

definition dump_string :: "string \<Rightarrow> string" where
  "dump_string t = QUOTE # concat (map escape_char t) @ [QUOTE]"

fun dumps :: "json \<Rightarrow> string" where
  "dumps JNull = ''null''"
| "dumps (JBool b) = (if b then ''true'' else ''false'')"
| "dumps (JInt i) = str_int i"
| "dumps (JFloat t) = t"
| "dumps (JStr t) = dump_string t"
| "dumps (JList vs) = ''['' @ join '','' (map dumps vs) @ '']''"
| "dumps (JObj ms) =
     ''{'' @ join '','' (map (\<lambda>(k, v). dump_string k @ '':'' @ dumps v) ms) @ ''}''"

fun sort_keys :: "json \<Rightarrow> json" where
  "sort_keys (JList vs) = JList (map sort_keys vs)"
| "sort_keys (JObj ms) = JObj (sort_key fst (map (\<lambda>(k, v). (k, sort_keys v)) ms))"
| "sort_keys v = v"

text \<open>\<open>json.dumps(v, sort_keys=True, separators=(",", ":"))\<close>.\<close>

definition json_dumps :: "json \<Rightarrow> string" where
  "json_dumps v = dumps (sort_keys v)"

section \<open>Reading\<close>

definition is_json_space :: "char \<Rightarrow> bool" where
  "is_json_space c \<longleftrightarrow> c \<in> set [CHR 0x20, CHR 0x09, CHR 0x0A, CHR 0x0D]"

definition skip_ws :: "string \<Rightarrow> string" where
  "skip_ws s = dropWhile is_json_space s"

definition short_escapes :: "(char \<times> char) list" where
  "short_escapes =
     [(QUOTE, QUOTE), (BACKSLASH, BACKSLASH), (CHR ''/'', CHR ''/''), (CHR ''b'', CHR 0x08),
      (CHR ''f'', CHR 0x0C), (CHR ''n'', CHR 0x0A), (CHR ''r'', CHR 0x0D), (CHR ''t'', CHR 0x09)]"

text \<open>The characters up to the closing quote; the opening one has been read.\<close>

fun scan_string :: "string \<Rightarrow> (string \<times> string) option" where
  "scan_string [] = None"
| "scan_string (c # s) =
     (if c = QUOTE then Some ([], s)
      else if c = BACKSLASH then
        (case s of
           [] \<Rightarrow> None
         | e # r \<Rightarrow>
             (case map_of short_escapes e of
                Some d \<Rightarrow> map_option (\<lambda>(t, r'). (d # t, r')) (scan_string r)
              | None \<Rightarrow>
                  (if e = CHR ''u'' then
                     (case r of
                        h1 # h2 # h3 # h4 # r' \<Rightarrow>
                          (if list_all is_hex_digit [h1, h2, h3, h4] \<and> hex_val [h1, h2, h3, h4] < 256
                           then map_option (\<lambda>(t, r''). (char_of (hex_val [h1, h2, h3, h4]) # t, r''))
                                  (scan_string r')
                           else None)
                      | _ \<Rightarrow> None)
                   else None)))
      else if (of_char c :: nat) < 32 then None
      else map_option (\<lambda>(t, r). (c # t, r)) (scan_string s))"

text \<open>A literal at the head of the text.\<close>

fun literal :: "(string \<times> json) list \<Rightarrow> string \<Rightarrow> (json \<times> string) option" where
  "literal [] s = None"
| "literal ((w, v) # ws) s =
     (if startswith s w then Some (v, drop (length w) s) else literal ws s)"

definition LITERALS :: "(string \<times> json) list" where
  "LITERALS =
     [(''null'', JNull), (''true'', JBool True), (''false'', JBool False), (''NaN'', JFloat ''NaN''),
      (''Infinity'', JFloat ''Infinity''), (''-Infinity'', JFloat ''-Infinity'')]"

text \<open>The integer part, the fraction and the exponent of a number.\<close>

fun scan_int :: "string \<Rightarrow> (string \<times> string) option" where
  "scan_int [] = None"
| "scan_int (c # s) =
     (if c = CHR ''0'' then Some ([c], s)
      else if is_dec_digit c then Some (c # takeWhile is_dec_digit s, dropWhile is_dec_digit s)
      else None)"

fun scan_frac :: "string \<Rightarrow> string \<times> string" where
  "scan_frac (c # d # s) =
     (if c = CHR ''.'' \<and> is_dec_digit d
      then (c # d # takeWhile is_dec_digit s, dropWhile is_dec_digit s) else ([], c # d # s))"
| "scan_frac s = ([], s)"

fun scan_exp :: "string \<Rightarrow> string \<times> string" where
  "scan_exp (c # s) =
     (if c \<in> set ''eE'' then
        (let (sign, r) = (case s of d # r \<Rightarrow> (if d \<in> set ''+-'' then ([d], r) else ([], s)) | [] \<Rightarrow> ([], s));
             ds = takeWhile is_dec_digit r
         in if ds = [] then ([], c # s) else (c # sign @ ds, dropWhile is_dec_digit r))
      else ([], c # s))"
| "scan_exp s = ([], s)"

definition number :: "string \<Rightarrow> (json \<times> string) option" where
  "number s =
     (let neg = (case s of c # r \<Rightarrow> c = CHR ''-'' | [] \<Rightarrow> False)
      in case scan_int (if neg then tl s else s) of
           None \<Rightarrow> None
         | Some (ds, r) \<Rightarrow>
             (let (frac, r1) = scan_frac r; (ex, r2) = scan_exp r1
              in Some (if frac = [] \<and> ex = []
                       then JInt (if neg then - int (dec_val ds) else int (dec_val ds))
                       else JFloat ((if neg then ''-'' else []) @ ds @ frac @ ex), r2)))"

definition scalar :: "string \<Rightarrow> (json \<times> string) option" where
  "scalar s = (case literal LITERALS s of Some r \<Rightarrow> Some r | None \<Rightarrow> number s)"

text \<open>
  Values, the elements of an array after its bracket, and the members of an object.  The first
  argument bounds the number of nested calls; \<open>json_loads\<close> gives it twice the length of the
  text and two more, which the calls never use up (\<open>parse_fuel\<close>).
\<close>

fun parse_value :: "nat \<Rightarrow> string \<Rightarrow> (json \<times> string) option"
  and parse_elements :: "nat \<Rightarrow> string \<Rightarrow> (json list \<times> string) option"
  and parse_members :: "nat \<Rightarrow> string \<Rightarrow> ((string \<times> json) list \<times> string) option" where
  "parse_value 0 s = None"
| "parse_value (Suc n) [] = None"
| "parse_value (Suc n) (c # s) =
     (if c = QUOTE then map_option (\<lambda>(t, r). (JStr t, r)) (scan_string s)
      else if c = CHR ''['' then
        (if startswith (skip_ws s) '']'' then Some (JList [], tl (skip_ws s))
         else map_option (\<lambda>(vs, r). (JList vs, r)) (parse_elements n (skip_ws s)))
      else if c = CHR ''{'' then
        (if startswith (skip_ws s) ''}'' then Some (JObj [], tl (skip_ws s))
         else map_option (\<lambda>(ms, r). (JObj ms, r)) (parse_members n (skip_ws s)))
      else scalar (c # s))"
| "parse_elements 0 s = None"
| "parse_elements (Suc n) s =
     (case parse_value n s of
        None \<Rightarrow> None
      | Some (v, r) \<Rightarrow>
          (case skip_ws r of
             [] \<Rightarrow> None
           | c # r' \<Rightarrow>
               (if c = CHR '','' then
                  map_option (\<lambda>(vs, t). (v # vs, t)) (parse_elements n (skip_ws r'))
                else if c = CHR '']'' then Some ([v], r')
                else None)))"
| "parse_members 0 s = None"
| "parse_members (Suc n) s =
     (case s of
        [] \<Rightarrow> None
      | q # s1 \<Rightarrow>
          (if q \<noteq> QUOTE then None
           else case scan_string s1 of
                  None \<Rightarrow> None
                | Some (k, s2) \<Rightarrow>
                    (case skip_ws s2 of
                       [] \<Rightarrow> None
                     | c # s3 \<Rightarrow>
                         (if c \<noteq> CHR '':'' then None
                          else case parse_value n (skip_ws s3) of
                                 None \<Rightarrow> None
                               | Some (v, r) \<Rightarrow>
                                   (case skip_ws r of
                                      [] \<Rightarrow> None
                                    | d # r' \<Rightarrow>
                                        (if d = CHR '','' then
                                           map_option (\<lambda>(ms, t). ((k, v) # ms, t))
                                             (parse_members n (skip_ws r'))
                                         else if d = CHR ''}'' then Some ([(k, v)], r')
                                         else None))))))"

text \<open>\<open>json.loads\<close>; \<open>None\<close> stands for \<open>JSONDecodeError\<close>.\<close>

definition json_loads :: "string \<Rightarrow> json option" where
  "json_loads s =
     (case parse_value (2 * length s + 2) (skip_ws s) of
        None \<Rightarrow> None
      | Some (v, r) \<Rightarrow> (if skip_ws r = [] then Some v else None))"

section \<open>The bound on nested calls is never reached\<close>

lemma length_skip_ws: "length (skip_ws s) \<le> length s"
  by (simp add: skip_ws_def length_dropWhile_le)

lemma scan_string_length: "scan_string s = Some (t, r) \<Longrightarrow> length r < length s"
proof (induction s arbitrary: t r rule: scan_string.induct)
  case (2 c s)
  consider "c = QUOTE" | (esc) "c = BACKSLASH" "c \<noteq> QUOTE" | "c \<noteq> QUOTE" "c \<noteq> BACKSLASH" by blast
  then show ?case
  proof cases
    case esc
    with "2.prems" obtain e s1 where s: "s = e # s1" by (auto split: list.splits)
    show ?thesis
    proof (cases "map_of short_escapes e")
      case (Some d)
      with esc s "2.prems" obtain t' where "scan_string s1 = Some (t', r)" by auto
      with "2.IH"(2) [OF esc(2,1) s Some] s show ?thesis by fastforce
    next
      case None
      with esc s "2.prems" obtain h1 h2 h3 h4 s2 where s1: "s1 = h1 # h2 # h3 # h4 # s2"
        by (simp split: if_splits list.splits)
      with None esc s "2.prems" have u: "e = CHR ''u''"
        "list_all is_hex_digit [h1, h2, h3, h4] \<and> hex_val [h1, h2, h3, h4] < 256"
        by (simp_all split: if_splits)
      with None esc s s1 "2.prems" obtain t' where "scan_string s2 = Some (t', r)" by auto
      with "2.IH"(1) [OF esc(2,1) s None u(1) s1 refl refl refl u(2)] s s1 show ?thesis by fastforce
    qed
  next
    case 3
    with "2.prems" "2.IH"(3) show ?thesis by (fastforce split: if_splits)
  qed (use "2.prems" in simp)
qed simp

lemma literal_length:
  assumes "literal ws s = Some (v, r)" "\<And>w. w \<in> set ws \<Longrightarrow> fst w \<noteq> []" "s \<noteq> []"
  shows "length r < length s"
  using assms by (induction ws s rule: literal.induct) (fastforce simp: startswith_iff split: if_splits)+

lemma scan_int_length: "scan_int s = Some (ds, r) \<Longrightarrow> length r < length s"
  using length_dropWhile_le [of is_dec_digit]
  by (cases s) (auto simp: less_Suc_eq_le split: if_splits)

lemma scan_frac_length: "scan_frac s = (f, r) \<Longrightarrow> length r \<le> length s"
  using length_dropWhile_le [of is_dec_digit]
  by (induction s rule: scan_frac.induct) (auto simp: le_Suc_eq split: if_splits)

lemma scan_exp_length: "scan_exp s = (f, r) \<Longrightarrow> length r \<le> length s"
  using length_dropWhile_le [of is_dec_digit]
  by (cases s) (auto simp: Let_def le_Suc_eq split: if_splits prod.splits list.splits)

lemma number_length: "number s = Some (v, r) \<Longrightarrow> length r < length s"
proof -
  assume a: "number s = Some (v, r)"
  define neg where "neg = (case s of c # r \<Rightarrow> c = CHR ''-'' | [] \<Rightarrow> False)"
  from a obtain ds r0 r1 f e where r0: "scan_int (if neg then tl s else s) = Some (ds, r0)"
    and "scan_frac r0 = (f, r1)" "scan_exp r1 = (e, r)"
    by (auto simp: number_def neg_def [symmetric] Let_def split: option.splits prod.splits)
  then have "length r \<le> length r0" using scan_frac_length scan_exp_length by fastforce
  moreover have "length r0 < length s"
    using scan_int_length [OF r0] by (auto split: if_splits)
  ultimately show ?thesis by simp
qed

lemma scalar_length:
  assumes "scalar s = Some (v, r)" "s \<noteq> []"
  shows "length r < length s"
proof (cases "literal LITERALS s")
  case None
  with assms show ?thesis by (simp add: scalar_def number_length)
next
  case (Some x)
  with assms have "literal LITERALS s = Some (v, r)" by (simp add: scalar_def)
  from this _ assms(2) show ?thesis by (rule literal_length) (auto simp: LITERALS_def)
qed

lemma startswith_single: "startswith s [c] \<longleftrightarrow> (\<exists>t. s = c # t)"
  by (auto simp: startswith_iff)

lemma parse_length:
  "parse_value n s = Some (v, r) \<Longrightarrow> length r < length s"
  "parse_elements n s = Some (vs, r) \<Longrightarrow> length r < length s"
  "parse_members n s = Some (ms, r) \<Longrightarrow> length r < length s"
proof (induction n s and n s and n s arbitrary: v r and vs r and ms r
    rule: parse_value_parse_elements_parse_members.induct)
  case (3 n c s)
  note l = length_skip_ws [of s]
  from 3 show ?case
    using l scan_string_length [of s] scalar_length [of "c # s" v r]
    by (auto simp: startswith_single split: if_splits)
next
  case (5 n s)
  from "5.prems" obtain v1 r1 where v1: "parse_value n s = Some (v1, r1)" by (auto split: option.splits)
  with "5.IH"(1) have l: "length r1 < length s" by blast
  from "5.prems" v1 obtain c r2 where r2: "skip_ws r1 = c # r2" by (auto split: list.splits)
  with l length_skip_ws [of r1] have l2: "length r2 < length s" by simp
  show ?case
  proof (cases "c = CHR '',''")
    case True
    with "5.prems" v1 r2 obtain vs' where "parse_elements n (skip_ws r2) = Some (vs', r)" by auto
    with "5.IH"(2) [OF v1 refl r2 True] have "length r < length (skip_ws r2)" by blast
    with l2 length_skip_ws [of r2] show ?thesis by simp
  next
    case False
    with "5.prems" v1 r2 l2 show ?thesis by (auto split: if_splits)
  qed
next
  case (7 n s)
  from "7.prems" obtain s1 where s1: "s = QUOTE # s1" by (auto split: list.splits if_splits)
  with "7.prems" obtain k s2 where s2: "scan_string s1 = Some (k, s2)" by (auto split: option.splits)
  with s1 "7.prems" obtain s3 where s3: "skip_ws s2 = CHR '':'' # s3" by (auto split: list.splits if_splits)
  with s1 s2 "7.prems" obtain v1 r1 where v1: "parse_value n (skip_ws s3) = Some (v1, r1)"
    by (auto split: option.splits)
  with "7.IH"(1) [OF s1 _ s2 refl s3] have l: "length r1 < length (skip_ws s3)" by auto
  from s1 s2 s3 v1 "7.prems" obtain c r2 where r2: "skip_ws r1 = c # r2" by (auto split: list.splits)
  have l2: "length r2 < length s"
    using l r2 s1 s3 length_skip_ws [of r1] length_skip_ws [of s2] length_skip_ws [of s3]
      scan_string_length [OF s2] by simp
  show ?case
  proof (cases "c = CHR '',''")
    case True
    with "7.prems" s1 s2 s3 v1 r2 obtain ms' where "parse_members n (skip_ws r2) = Some (ms', r)" by auto
    with "7.IH"(2) [OF s1 _ s2 refl s3 _ v1 refl r2 True] have "length r < length (skip_ws r2)" by auto
    with l2 length_skip_ws [of r2] show ?thesis by simp
  next
    case False
    with "7.prems" s1 s2 s3 v1 r2 l2 show ?thesis by (auto split: if_splits)
  qed
qed simp_all

text \<open>With the bound given, one call more makes no difference.\<close>

lemma parse_fuel:
  "(2 * length s < n \<longrightarrow> parse_value (Suc n) s = parse_value n s)
   \<and> (2 * length s + 1 < n \<longrightarrow> parse_elements (Suc n) s = parse_elements n s
        \<and> parse_members (Suc n) s = parse_members n s)"
proof (induction n arbitrary: s)
  case (Suc n)
  have val: "parse_value (Suc (Suc n)) s = parse_value (Suc n) s" if "2 * length s < Suc n"
  proof (cases s)
    case (Cons c t)
    with that length_skip_ws [of t] have "2 * length (skip_ws t) + 1 < n" by simp
    with Suc.IH [of "skip_ws t"] Cons show ?thesis by simp
  qed simp
  have step: "parse_value (Suc n) t = parse_value n t" if "length t \<le> length s" "2 * length s + 1 < Suc n" for t
    using Suc.IH [of t] that by simp
  have rest: "parse_elements (Suc n) (skip_ws r') = parse_elements n (skip_ws r')
      \<and> parse_members (Suc n) (skip_ws r') = parse_members n (skip_ws r')"
    if "parse_value n t = Some (v, r)" "skip_ws r = c # r'" "length t \<le> length s" "2 * length s + 1 < Suc n"
    for t v r c r'
    using Suc.IH [of "skip_ws r'"] that(2-) length_skip_ws [of r] length_skip_ws [of r']
      parse_length(1) [OF that(1)] by simp
  have "parse_elements (Suc (Suc n)) s = parse_elements (Suc n) s" if l: "2 * length s + 1 < Suc n"
    using rest [OF _ _ le_refl l]
    by (simp add: step [OF le_refl l] del: parse_value.simps split: option.split list.split)
  moreover have "parse_members (Suc (Suc n)) s = parse_members (Suc n) s" if l: "2 * length s + 1 < Suc n"
  proof -
    have k: "length (skip_ws s3) \<le> length s"
      if "s = q # s1" "scan_string s1 = Some (k, s2)" "skip_ws s2 = c # s3" for q s1 k s2 c s3
      using that scan_string_length [OF that(2)] length_skip_ws [of s2] length_skip_ws [of s3] by simp
    show ?thesis
      using rest [OF _ _ k l] step [OF k l]
      by (auto simp del: parse_value.simps split: option.split list.split)
  qed
  ultimately show ?case using val by blast
qed simp

section \<open>Reading what was printed\<close>

lemma hex_val_hex2:
  assumes "n < 256"
  shows "hex_val [CHR ''0'', CHR ''0'', digit_char (n div 16), digit_char (n mod 16)] = n"
proof -
  have "digit_val (CHR ''0'') = 0" by code_simp
  moreover have "n div 16 < 16" "n mod 16 < 16" using assms by auto
  ultimately show ?thesis by (simp add: hex_val_def val_base_def digit_val_digit_char)
qed

lemma scan_escape_unicode:
  assumes "n < 256"
  shows "scan_string ([BACKSLASH, CHR ''u'', CHR ''0'', CHR ''0''] @ hex2 n @ s) =
           map_option (\<lambda>(t, r). (char_of n # t, r)) (scan_string s)"
proof -
  have h: "list_all is_hex_digit [CHR ''0'', CHR ''0'', digit_char (n div 16), digit_char (n mod 16)]"
    using assms by (simp add: is_hex_digit_char) (simp add: is_hex_digit_def)
  have m: "map_of short_escapes (CHR ''u'') = None"
    by (simp add: short_escapes_def QUOTE_def BACKSLASH_def)
  have n: "BACKSLASH \<noteq> QUOTE" by (simp add: QUOTE_def BACKSLASH_def)
  show ?thesis
    using h by (simp add: hex2_def hex_val_hex2 [OF assms] m n assms)
qed

lemma scan_escape: "scan_string (escape_char c @ s) = map_option (\<lambda>(t, r). (c # t, r)) (scan_string s)"
proof -
  have n: "BACKSLASH \<noteq> QUOTE" by (simp add: QUOTE_def BACKSLASH_def)
  have m: "map_of short_escapes QUOTE = Some QUOTE" "map_of short_escapes BACKSLASH = Some BACKSLASH"
    "map_of short_escapes (CHR ''n'') = Some (CHR 0x0A)" "map_of short_escapes (CHR ''r'') = Some (CHR 0x0D)"
    "map_of short_escapes (CHR ''t'') = Some (CHR 0x09)" "map_of short_escapes (CHR ''f'') = Some (CHR 0x0C)"
    "map_of short_escapes (CHR ''b'') = Some (CHR 0x08)"
    by (simp_all add: short_escapes_def QUOTE_def BACKSLASH_def)
  have "(of_char c :: nat) < 256" by (rule nat_of_char_less_256)
  from scan_escape_unicode [OF this, of s] show ?thesis
    by (simp add: escape_char_def n m del: append.simps) (simp add: n m)
qed

lemma scan_dump_string: "scan_string (concat (map escape_char t) @ QUOTE # r) = Some (t, r)"
  by (induction t) (simp_all add: scan_escape)

fun no_float :: "json \<Rightarrow> bool" where
  "no_float (JFloat t) = False"
| "no_float (JList vs) \<longleftrightarrow> (\<forall>v \<in> set vs. no_float v)"
| "no_float (JObj ms) \<longleftrightarrow> (\<forall>m \<in> set ms. no_float (snd m))"
| "no_float v = True"

text \<open>What may follow a number without becoming part of it.\<close>

definition ends_number :: "string \<Rightarrow> bool" where
  "ends_number r \<longleftrightarrow> r = [] \<or> \<not> is_dec_digit (hd r) \<and> hd r \<notin> set ''.eE''"

lemma scan_int_str_nat:
  assumes "ends_number r"
  shows "scan_int (str_nat n @ r) = Some (str_nat n, r)"
proof (cases "n = 0")
  case False
  then have "hd (str_nat n) \<noteq> CHR ''0''" by (simp add: hd_str_nat)
  moreover obtain c cs where "str_nat n = c # cs" by (meson list.exhaust str_nat_not_Nil)
  moreover have "takeWhile is_dec_digit r = []" "dropWhile is_dec_digit r = r"
    using assms by (cases r; simp add: ends_number_def)+
  ultimately show ?thesis
    using str_nat_digits [of n] by (auto simp: list_all_iff takeWhile_append dropWhile_append)
qed simp

lemma ends_number_scan:
  assumes "ends_number r"
  shows "scan_frac r = ([], r)" "scan_exp r = ([], r)"
  using assms by (cases r rule: scan_frac.cases; auto simp: ends_number_def)+

lemma number_str_int:
  assumes "ends_number r"
  shows "number (str_int i @ r) = Some (JInt i, r)"
proof (cases "i < 0")
  case True
  then show ?thesis
    by (simp add: number_def str_int_def scan_int_str_nat [OF assms] ends_number_scan [OF assms])
next
  case False
  obtain c cs where c: "str_nat (nat i) = c # cs" by (meson list.exhaust str_nat_not_Nil)
  have "c \<noteq> CHR ''-''" using str_nat_char [of "CHR ''-''" "nat i"] c by (auto simp: is_dec_digit_def)
  with False c show ?thesis
    using scan_int_str_nat [OF assms, of "nat i"]
    by (simp add: number_def str_int_def ends_number_scan [OF assms])
       (metis dec_val_str_nat int_nat_eq linorder_not_less)
qed

lemma str_int_head:
  obtains c cs where "str_int i = c # cs" "c \<in> set ''-0123456789''" "i < 0 \<longrightarrow> (\<exists>d ds. cs = d # ds \<and> is_dec_digit d)"
proof (cases "i < 0")
  case True
  obtain d ds where d: "str_nat (nat (- i)) = d # ds" by (meson list.exhaust str_nat_not_Nil)
  with str_nat_digits [of "nat (- i)"] have "is_dec_digit d" by simp
  with d True show ?thesis by (intro that [of "CHR ''-''" "d # ds"]) (auto simp: str_int_def)
next
  case False
  obtain d ds where d: "str_nat (nat i) = d # ds" by (meson list.exhaust str_nat_not_Nil)
  with str_nat_digits [of "nat i"] have "is_dec_digit d" by simp
  with d False show ?thesis by (intro that [of d ds]) (auto simp: str_int_def is_dec_digit_def)
qed

lemma number_head:
  assumes "c \<in> set ''-0123456789''"
  shows "c \<noteq> QUOTE" "c \<noteq> CHR ''[''" "c \<noteq> CHR ''{''" "\<not> is_json_space c" "c \<noteq> CHR '']''" "c \<noteq> CHR ''}''"
    "c \<notin> set ''ntfNI''"
proof -
  have "list_all (\<lambda>c. c \<noteq> QUOTE \<and> c \<noteq> CHR ''['' \<and> c \<noteq> CHR ''{'' \<and> \<not> is_json_space c \<and> c \<noteq> CHR '']''
          \<and> c \<noteq> CHR ''}'' \<and> c \<notin> set ''ntfNI'') ''-0123456789''" by code_simp
  with assms show "c \<noteq> QUOTE" "c \<noteq> CHR ''[''" "c \<noteq> CHR ''{''" "\<not> is_json_space c" "c \<noteq> CHR '']''"
    "c \<noteq> CHR ''}''" "c \<notin> set ''ntfNI''"
    by (simp_all only: list_all_iff not_False_eq_True)
qed

lemma digit_not_I: "is_dec_digit d \<Longrightarrow> d \<noteq> CHR ''I''"
  by (auto simp: is_dec_digit_def)

lemma literal_none: "c \<notin> set ''ntfNI-'' \<Longrightarrow> literal LITERALS (c # t) = None"
  by (simp add: LITERALS_def startswith_def)

lemma literal_minus: "d \<noteq> CHR ''I'' \<Longrightarrow> literal LITERALS (CHR ''-'' # d # t) = None"
  by (simp add: LITERALS_def startswith_def)

lemma scalar_str_int: "ends_number r \<Longrightarrow> scalar (str_int i @ r) = Some (JInt i, r)"
proof -
  assume r: "ends_number r"
  obtain c cs where c: "str_int i = c # cs" "c \<in> set ''-0123456789''"
    "i < 0 \<longrightarrow> (\<exists>d ds. cs = d # ds \<and> is_dec_digit d)" by (rule str_int_head)
  have "literal LITERALS (c # cs @ r) = None"
  proof (cases "c = CHR ''-''")
    case True
    then have "i < 0"
      using c(1) str_nat_char [of "CHR ''-''" "nat i"]
      by (auto simp: str_int_def is_dec_digit_def split: if_splits)
    with c(3) obtain d ds where "cs = d # ds" "is_dec_digit d" by blast
    with True literal_minus [OF digit_not_I, of d "ds @ r"] show ?thesis by simp
  next
    case False
    with number_head(7) [OF c(2)] have "c \<notin> set ''ntfNI-''" by simp
    then show ?thesis by (rule literal_none)
  qed
  with number_str_int [OF r, of i] c(1) show ?thesis by (simp add: scalar_def)
qed

lemma dumps_head:
  assumes "no_float v"
  obtains c cs where "dumps v = c # cs" "\<not> is_json_space c" "c \<noteq> CHR '']''" "c \<noteq> CHR ''}''"
proof (cases v)
  case (JInt i)
  obtain c cs where "str_int i = c # cs" "c \<in> set ''-0123456789''" by (rule str_int_head [of i])
  with JInt show ?thesis by (intro that [of c cs]) (simp_all add: number_head)
next
  case (JBool b)
  with that show ?thesis by (cases b) (auto simp: is_json_space_def)
qed (use that assms in \<open>auto simp: is_json_space_def dump_string_def QUOTE_def\<close>)

lemma skip_ws_dumps: "no_float v \<Longrightarrow> skip_ws (dumps v @ r) = dumps v @ r"
  by (rule dumps_head [of v]) (auto simp: skip_ws_def)

lemma skip_ws_dump_string: "skip_ws (dump_string k @ r) = dump_string k @ r"
  by (simp add: skip_ws_def dump_string_def QUOTE_def is_json_space_def)

lemma skip_ws_sep [simp]:
  "skip_ws (CHR '','' # r) = CHR '','' # r" "skip_ws (CHR '']'' # r) = CHR '']'' # r"
  "skip_ws (CHR ''}'' # r) = CHR ''}'' # r" "skip_ws (CHR '':'' # r) = CHR '':'' # r" "skip_ws [] = []"
  by (simp_all add: skip_ws_def is_json_space_def)

lemma ends_number_sep [simp]:
  "ends_number (CHR '','' # r)" "ends_number (CHR '']'' # r)" "ends_number (CHR ''}'' # r)" "ends_number []"
  by (simp_all add: ends_number_def is_dec_digit_def)

text \<open>The elements of a list, given that each of them is read back.\<close>

lemma parse_elements_dumps:
  assumes "vs \<noteq> []" "\<forall>v \<in> set vs. no_float v"
    and "\<And>v r n. v \<in> set vs \<Longrightarrow> ends_number r \<Longrightarrow> 2 * length (dumps v @ r) < n \<Longrightarrow>
           parse_value n (dumps v @ r) = Some (v, r)"
    and "2 * length (join '','' (map dumps vs) @ CHR '']'' # r) + 1 < n"
  shows "parse_elements n (join '','' (map dumps vs) @ CHR '']'' # r) = Some (vs, r)"
  using assms
proof (induction vs arbitrary: n rule: list_nonempty_induct)
  case (single v)
  then obtain m where "n = Suc m" "2 * length (dumps v @ CHR '']'' # r) < m" by (cases n) auto
  with single(2) [of v "CHR '']'' # r" m] show ?case by simp
next
  case (cons v vs)
  then obtain w ws where w: "vs = w # ws" by (cases vs) auto
  let ?t = "join '','' (map dumps vs) @ CHR '']'' # r"
  obtain m where m: "n = Suc m" "2 * length (dumps v @ CHR '','' # ?t) < m"
    using cons.prems(3) w by (cases n) auto
  have "parse_value m (dumps v @ CHR '','' # ?t) = Some (v, CHR '','' # ?t)"
    using cons.prems(2) m by simp
  moreover have "skip_ws ?t = ?t"
    using skip_ws_dumps [of w] cons.prems(1) w by (cases ws) auto
  moreover have "parse_elements m ?t = Some (vs, r)"
    using cons.prems m by (intro cons.IH) auto
  ultimately show ?case using m(1) w by simp
qed

definition dump_member :: "string \<times> json \<Rightarrow> string" where
  "dump_member m = dump_string (fst m) @ '':'' @ dumps (snd m)"

lemma dumps_JObj: "dumps (JObj ms) = ''{'' @ join '','' (map dump_member ms) @ ''}''"
  by (simp add: dump_member_def [abs_def] case_prod_unfold)

lemma skip_ws_member: "skip_ws (dump_member m @ r) = dump_member m @ r"
  by (simp add: dump_member_def skip_ws_dump_string)

lemma parse_member:
  assumes "no_float (snd m)"
    and "parse_value n (dumps (snd m) @ d # r) = Some (snd m, d # r)" "d \<in> {CHR '','', CHR ''}''}"
  shows "parse_members (Suc n) (dump_member m @ d # r) =
     (if d = CHR '','' then map_option (\<lambda>(ms, t). (m # ms, t)) (parse_members n (skip_ws r))
      else Some ([m], r))"
  using assms scan_dump_string [of "fst m" "CHR '':'' # dumps (snd m) @ d # r"]
    skip_ws_dumps [of "snd m" "d # r"]
  by (auto simp: dump_member_def dump_string_def split: option.split)

lemma parse_members_dumps:
  assumes "ms \<noteq> []" "\<forall>m \<in> set ms. no_float (snd m)"
    and "\<And>m r n. m \<in> set ms \<Longrightarrow> ends_number r \<Longrightarrow> 2 * length (dumps (snd m) @ r) < n \<Longrightarrow>
           parse_value n (dumps (snd m) @ r) = Some (snd m, r)"
    and "2 * length (join '','' (map dump_member ms) @ CHR ''}'' # r) + 1 < n"
  shows "parse_members n (join '','' (map dump_member ms) @ CHR ''}'' # r) = Some (ms, r)"
  using assms
proof (induction ms arbitrary: n rule: list_nonempty_induct)
  case (single m)
  then obtain k where "n = Suc k" "2 * length (dumps (snd m) @ CHR ''}'' # r) < k"
    by (cases n) (auto simp: dump_member_def)
  with single(2) [of m "CHR ''}'' # r" k] single(1) parse_member [of m k "CHR ''}''" r] show ?case by simp
next
  case (cons m ms)
  then obtain w ws where w: "ms = w # ws" by (cases ms) auto
  let ?t = "join '','' (map dump_member ms) @ CHR ''}'' # r"
  obtain k where k: "n = Suc k" "2 * length (dump_member m @ CHR '','' # ?t) < k"
    using cons.prems(3) w by (cases n) auto
  have "parse_value k (dumps (snd m) @ CHR '','' # ?t) = Some (snd m, CHR '','' # ?t)"
    using cons.prems(2) k by (simp add: dump_member_def)
  then have "parse_members n (dump_member m @ CHR '','' # ?t) =
      map_option (\<lambda>(ms, t). (m # ms, t)) (parse_members k (skip_ws ?t))"
    using parse_member [of m k "CHR '',''" ?t] cons.prems(1) k(1) by simp
  moreover have "skip_ws ?t = ?t"
    using skip_ws_member [of w] w by (cases ws) auto
  moreover have "parse_members k ?t = Some (ms, r)"
    using cons.prems k by (intro cons.IH) auto
  ultimately show ?case using w by simp
qed

lemma skip_ws_joined:
  assumes "xs \<noteq> []" "\<And>x r. x \<in> set xs \<Longrightarrow> skip_ws (f x @ r) = f x @ r"
  shows "skip_ws (join '','' (map f xs) @ r) = join '','' (map f xs) @ r"
  using assms by (cases xs rule: remdups_adj.cases) auto

lemma not_startswith_joined:
  assumes "xs \<noteq> []" "\<And>x. x \<in> set xs \<Longrightarrow> \<exists>c cs. f x = c # cs \<and> c \<noteq> b"
  shows "\<not> startswith (join '','' (map f xs) @ r) [b]"
  using assms by (cases xs rule: remdups_adj.cases) (fastforce simp: startswith_single)+

lemma parse_value_dumps:
  assumes "no_float v" "ends_number r" "2 * length (dumps v @ r) < n"
  shows "parse_value n (dumps v @ r) = Some (v, r)"
  using assms
proof (induction v arbitrary: r n rule: dumps.induct)
  case 1
  then show ?case by (cases n) (simp_all add: QUOTE_def scalar_def LITERALS_def startswith_def)
next
  case (2 b)
  then show ?case by (cases n; cases b) (simp_all add: QUOTE_def scalar_def LITERALS_def startswith_def)
next
  case (3 i)
  obtain c cs where c: "str_int i = c # cs" "c \<in> set ''-0123456789''" by (rule str_int_head [of i])
  with 3 scalar_str_int [of r i] number_head [OF c(2)] show ?case by (cases n) simp_all
next
  case (5 t)
  then show ?case by (cases n) (simp_all add: dump_string_def scan_dump_string)
next
  case (6 vs)
  then obtain m where n: "n = Suc m" by (cases n) auto
  show ?case
  proof (cases "vs = []")
    case False
    have "skip_ws (join '','' (map dumps vs) @ CHR '']'' # r) = join '','' (map dumps vs) @ CHR '']'' # r"
      using False 6(2) by (intro skip_ws_joined) (auto intro: skip_ws_dumps)
    moreover have "\<not> startswith (join '','' (map dumps vs) @ CHR '']'' # r) '']''"
      using False 6(2) by (intro not_startswith_joined) (metis no_float.simps(2) dumps_head)+
    moreover have "parse_elements m (join '','' (map dumps vs) @ CHR '']'' # r) = Some (vs, r)"
      using False 6 n by (intro parse_elements_dumps) auto
    ultimately show ?thesis using n by (simp add: QUOTE_def)
  qed (simp add: n QUOTE_def startswith_def)
next
  case (7 ms)
  then obtain m where n: "n = Suc m" by (cases n) auto
  show ?case
  proof (cases "ms = []")
    case False
    have "skip_ws (join '','' (map dump_member ms) @ CHR ''}'' # r) = join '','' (map dump_member ms) @ CHR ''}'' # r"
      using False by (intro skip_ws_joined) (auto intro: skip_ws_member)
    moreover have "\<not> startswith (join '','' (map dump_member ms) @ CHR ''}'' # r) ''}''"
      using False by (intro not_startswith_joined) (auto simp: dump_member_def dump_string_def QUOTE_def)
    moreover have "parse_members m (join '','' (map dump_member ms) @ CHR ''}'' # r) = Some (ms, r)"
      using False 7 n by (intro parse_members_dumps) (auto simp: dumps_JObj simp del: dumps.simps(7))
    ultimately show ?thesis using n by (simp add: dumps_JObj QUOTE_def del: dumps.simps(7))
  qed (simp add: n QUOTE_def startswith_def)
qed simp

lemma loads_dumps: "no_float v \<Longrightarrow> json_loads (dumps v) = Some v"
  using parse_value_dumps [of v "[]" "2 * length (dumps v) + 2"] skip_ws_dumps [of v "[]"]
  by (simp add: json_loads_def)

lemma no_float_sort_keys: "no_float v \<Longrightarrow> no_float (sort_keys v)"
  by (induction v rule: sort_keys.induct) auto

lemma loads_json_dumps: "no_float v \<Longrightarrow> json_loads (json_dumps v) = Some (sort_keys v)"
  by (simp add: json_dumps_def loads_dumps no_float_sort_keys)

text \<open>Sorting the keys does not change what a key is bound to when the keys are distinct.\<close>

lemma jget_sorted:
  assumes "distinct (map fst ms)"
  shows "jget k (sort_key fst ms) = jget k ms"
proof -
  have "distinct (map fst (sort_key fst ms))"
    using assms by (metis distinct_map distinct_sort set_sort)
  then have "map_of (rev (sort_key fst ms)) = map_of (rev ms)"
    using assms
    by (intro map_of_eqI) (auto simp: map_of_eq_Some_iff rev_map [symmetric] dest!: map_of_SomeD)
  then show ?thesis by (simp add: jget_def)
qed

end
