(* ===== verification/Preflight.thy ===== *)
theory Preflight
  imports Host_Names Json
begin

text \<open>
  The host preflight of \<^verbatim>\<open>tools/tcpcc_host.py\<close>: \<^verbatim>\<open>HostInspector\<close>, the individual
  checks and \<^verbatim>\<open>collect_preflight\<close>, with the JSON form of the report.

  The injected callables of the inspector (reading a file, looking a command or a library up,
  \<^verbatim>\<open>stat\<close> and \<^verbatim>\<open>access\<close>) are functions on an arbitrary state that may raise.
\<close>

section \<open>Paths\<close>

text \<open>\<open>Path(root) / relative\<close> for a relative second part.\<close>

definition path_join :: "string \<Rightarrow> string \<Rightarrow> string" where
  "path_join base relative =
     (if base = [] \<or> base = ''.'' then relative
      else if last base = CHR ''/'' then base @ relative
      else base @ ''/'' @ relative)"

section \<open>The inspector\<close>

record 's HostInspector =
  hi_proc_root :: string
  hi_dev_root :: string
  hi_reader :: "string \<Rightarrow> ('s, string) py"
  hi_resolver :: "string \<Rightarrow> ('s, string option) py"
  hi_library_resolver :: "string \<Rightarrow> ('s, string option) py"
  hi_statter :: "string \<Rightarrow> ('s, nat) py"
  hi_access :: "string \<Rightarrow> nat \<Rightarrow> ('s, bool) py"

text \<open>\<open>read_proc\<close>: \<open>Inr\<close> the value, or \<open>Inl\<close> the reason why there is none.\<close>

definition read_proc :: "'s HostInspector \<Rightarrow> string \<Rightarrow> ('s, string + string) py" where
  "read_proc i relative =
     phandle
       (pbind (hi_reader i (path_join (hi_proc_root i) relative)) (\<lambda>raw.
          let v = py_strip raw
          in pret (if v = [] \<or> CHR 0x00 \<in> set v then Inl ''malformed'' else Inr v)))
       (\<lambda>e. if is_FileNotFoundError e then pret (Inl ''missing'')
            else if is_OSError e \<or> is_UnicodeError e then pret (Inl ''unreadable'')
            else praise e)"

definition check ::
  "string \<Rightarrow> bool \<Rightarrow> string \<Rightarrow> string \<Rightarrow> string \<Rightarrow> string \<Rightarrow> CheckResult" where
  "check check_id passed severity observed expected remediation =
     \<lparr>ck_id = check_id,
      ck_status = (if passed then ''pass'' else if severity = ''advisory'' then ''warn'' else ''fail''),
      ck_severity = severity, ck_observed = observed, ck_expected = expected,
      ck_remediation = (if passed then [] else remediation)\<rparr>"

section \<open>The checks\<close>

definition CAP_NET_ADMIN :: nat where
  "CAP_NET_ADMIN = 12"

text \<open>
  The pattern \<^verbatim>\<open>^CapEff:\s*([0-9a-fA-F]+)\s*$\<close> at the beginning of a line: white space and
  digits are disjoint, so both first repetitions are as long as they can be, and the last one
  stops at the end of the text or before a line feed.
\<close>

definition cap_eff_here :: "string \<Rightarrow> string option" where
  "cap_eff_here s =
     (if startswith s ''CapEff:'' then
        (let t = dropWhile is_space (drop 7 s);
             digits = takeWhile is_hex_digit t;
             rest = dropWhile is_hex_digit t
         in if digits \<noteq> [] \<and> (dropWhile is_space rest = [] \<or> CHR 0x0A \<in> set (takeWhile is_space rest))
            then Some digits else None)
      else None)"

text \<open>\<open>re.search(..., re.MULTILINE)\<close>: the first line begin where the pattern matches.\<close>

fun after_newline :: "string \<Rightarrow> string list" where
  "after_newline [] = []"
| "after_newline (c # s) = (if c = CHR 0x0A then s # after_newline s else after_newline s)"

definition cap_eff :: "string \<Rightarrow> string option" where
  "cap_eff s = (case filter (\<lambda>m. m \<noteq> None) (map cap_eff_here (s # after_newline s)) of
                  [] \<Rightarrow> None | m # ms \<Rightarrow> m)"

text \<open>\<open>enabled\<close> and \<open>observed\<close>.\<close>

fun cap_result :: "string + string \<Rightarrow> bool \<times> string" where
  "cap_result (Inl error) = (False, error)"
| "cap_result (Inr v) =
     (case cap_eff v of
        None \<Rightarrow> (False, ''malformed'')
      | Some digits \<Rightarrow> (bit (hex_val digits) CAP_NET_ADMIN, ''0x'' @ hex_nat (hex_val digits)))"

definition cap_net_admin :: "'s HostInspector \<Rightarrow> ('s, CheckResult) py" where
  "cap_net_admin i =
     pbind (read_proc i ''self/status'') (\<lambda>result.
       pret (check ''cap.net_admin'' (fst (cap_result result)) ''required'' (snd (cap_result result))
               ''effective CAP_NET_ADMIN bit 12''
               ''run tcpcc with CAP_NET_ADMIN, normally via sudo or a container capability''))"

text \<open>\<open>stat.S_ISCHR\<close>, and the access mode \<open>os.R_OK | os.W_OK\<close>.\<close>

definition S_ISCHR :: "nat \<Rightarrow> bool" where
  "S_ISCHR mode \<longleftrightarrow> (mode div 4096) mod 16 = 2"

definition R_OK_W_OK :: nat where
  "R_OK_W_OK = 6"

definition inspect_tun :: "'s HostInspector \<Rightarrow> string \<Rightarrow> ('s, bool \<times> string) py" where
  "inspect_tun i path =
     phandle
       (pbind (hi_statter i path) (\<lambda>mode.
        pbind (hi_access i path R_OK_W_OK) (\<lambda>has_access.
          pret (S_ISCHR mode \<and> has_access,
                if \<not> S_ISCHR mode then ''not-a-character-device''
                else if \<not> has_access then ''character-device-without-read-write-access''
                else ''character-device-with-read-write-access''))))
       (\<lambda>e. if is_FileNotFoundError e then pret (False, ''missing'')
            else if is_OSError e then pret (False, ''unreadable'')
            else praise e)"

definition tun_device :: "'s HostInspector \<Rightarrow> ('s, CheckResult) py" where
  "tun_device i =
     pbind (inspect_tun i (path_join (hi_dev_root i) ''net/tun'')) (\<lambda>found.
       pret (check ''device.tun'' (fst found) ''required'' (snd found)
               ''/dev/net/tun character device with read/write access''
               ''enable TUN for the container and grant tcpcc read/write access to /dev/net/tun''))"

text \<open>\<open>resolved or "missing"\<close>.\<close>

fun or_missing :: "string option \<Rightarrow> string" where
  "or_missing None = ''missing''"
| "or_missing (Some r) = (if r = [] then ''missing'' else r)"

text \<open>\<open>try: resolved = resolver(name); except OSError: resolved = None\<close>.\<close>

definition lookup :: "(string \<Rightarrow> ('s, string option) py) \<Rightarrow> string \<Rightarrow> ('s, string option) py" where
  "lookup resolver name = phandle (resolver name) (\<lambda>e. if is_OSError e then pret None else praise e)"

definition tool :: "'s HostInspector \<Rightarrow> string \<Rightarrow> string \<Rightarrow> string option \<Rightarrow> ('s, CheckResult) py" where
  "tool i name remediation check_name =
     pbind (lookup (hi_resolver i) name) (\<lambda>resolved.
         pret (check (''tool.'' @ (case check_name of Some n \<Rightarrow> (if n = [] then name else n) | None \<Rightarrow> name))
                 (resolved \<noteq> None) ''required'' (or_missing resolved)
                 (name @ '' executable on PATH'') remediation))"

definition library :: "'s HostInspector \<Rightarrow> string \<Rightarrow> string \<Rightarrow> ('s, CheckResult) py" where
  "library i name remediation =
     pbind (lookup (hi_library_resolver i) name) (\<lambda>resolved.
         pret (check (''library.'' @ name) (resolved \<noteq> None) ''required'' (or_missing resolved)
                 (name @ '' shared library available to the dynamic loader'') remediation))"

text \<open>\<open>value if value is not None else error or "unreadable"\<close>; the error is never empty.\<close>

fun observed_text :: "string + string \<Rightarrow> string" where
  "observed_text (Inr v) = v"
| "observed_text (Inl error) = error"

definition required_sysctl ::
  "'s HostInspector \<Rightarrow> string \<Rightarrow> string \<Rightarrow> string \<Rightarrow> string \<Rightarrow> ('s, CheckResult) py" where
  "required_sysctl i check_id relative expected remediation =
     pbind (read_proc i relative) (\<lambda>result.
       pret (check check_id (result = Inr expected) ''required'' (observed_text result) expected
               remediation))"

definition rp_filter :: "'s HostInspector \<Rightarrow> string \<Rightarrow> ('s, CheckResult) py" where
  "rp_filter i scope =
     pbind (read_proc i (''sys/net/ipv4/conf/'' @ scope @ ''/rp_filter'')) (\<lambda>result.
       pret (check (''sysctl.rp_filter.'' @ scope) (result = Inr ''0'') ''advisory''
               (observed_text result) ''0''
               ''review reverse-path filtering for the routed TUN path; tcpcc will not change it''))"

section \<open>The report\<close>

text \<open>Effects in order, with their results: the tuple displays of the source.\<close>

fun sequence :: "('s, 'a) py list \<Rightarrow> ('s, 'a list) py" where
  "sequence [] = pret []"
| "sequence (m # ms) = pbind m (\<lambda>x. pbind (sequence ms) (\<lambda>xs. pret (x # xs)))"

definition firewall_checks ::
  "'s HostInspector \<Rightarrow> string \<Rightarrow> string \<Rightarrow> string \<Rightarrow> string \<Rightarrow> string \<Rightarrow> ('s, CheckResult list) py" where
  "firewall_checks i firewall_backend nft_path iptables_path iptables_restore_path iptables_save_path =
     (if firewall_backend = ''nft-exec'' then
        sequence [tool i nft_path (''install nftables and expose '' @ nft_path @ '' on PATH'') (Some ''nft'')]
      else if firewall_backend = ''nft-lib'' then
        sequence [library i ''nftables'' ''install the libnftables shared library'']
      else if firewall_backend = ''iptables'' then
        sequence (map (\<lambda>(command, check_name).
            tool i command (''install iptables and expose '' @ command @ '' on PATH'') (Some check_name))
          [(iptables_path, ''iptables''), (iptables_restore_path, ''iptables-restore''),
           (iptables_save_path, ''iptables-save'')])
      else praise (ValueError (''firewall_backend must be one of: '' @ join '', '' FIREWALL_BACKENDS)))"

definition collect_preflight ::
  "string \<Rightarrow> 's HostInspector \<Rightarrow> int \<Rightarrow> string \<Rightarrow> string \<Rightarrow> string \<Rightarrow> string \<Rightarrow> string
   \<Rightarrow> ('s, PreflightReport) py" where
  "collect_preflight requested_cc i ipv firewall_backend nft_path iptables_path
       iptables_restore_path iptables_save_path =
     (if \<not> CC_NAME requested_cc
      then praise (ValueError (''requested congestion-control name must contain 1-15 lowercase ''
                               @ ''letters, digits, underscores, or hyphens''))
      else if ipv \<notin> {4, 6} then praise (ValueError ''ip_version must be 4 or 6'')
      else
        pbind (sequence [cap_net_admin i, tun_device i,
                         tool i ''ip'' ''install iproute2 and expose the ip executable on PATH'' None])
          (\<lambda>prefix_checks.
        pbind (firewall_checks i firewall_backend nft_path iptables_path iptables_restore_path
                 iptables_save_path) (\<lambda>fw.
        pbind (if ipv = 4
               then required_sysctl i ''sysctl.ipv4_forward'' ''sys/net/ipv4/ip_forward'' ''1''
                      ''set net.ipv4.ip_forward=1 before starting tcpcc''
               else required_sysctl i ''sysctl.ipv6_forward'' ''sys/net/ipv6/conf/all/forwarding'' ''1''
                      ''set net.ipv6.conf.all.forwarding=1 before starting tcpcc'') (\<lambda>forwarding.
        pbind (if ipv = 4 then sequence [rp_filter i ''all'', rp_filter i ''default''] else pret [])
          (\<lambda>family_advisories.
          pret \<lparr>pr_requested_cc = requested_cc,
                pr_checks = prefix_checks @ fw @ [forwarding] @ family_advisories\<rparr>)))))"

definition preflight_ok :: "PreflightReport \<Rightarrow> bool" where
  "preflight_ok r \<longleftrightarrow> list_all (\<lambda>c. ck_status c \<noteq> ''fail'') (pr_checks r)"

definition check_as_dict :: "CheckResult \<Rightarrow> json" where
  "check_as_dict c = JObj
     [(''id'', JStr (ck_id c)), (''status'', JStr (ck_status c)), (''severity'', JStr (ck_severity c)),
      (''observed'', JStr (ck_observed c)), (''expected'', JStr (ck_expected c)),
      (''remediation'', JStr (ck_remediation c))]"

definition preflight_as_dict :: "PreflightReport \<Rightarrow> json" where
  "preflight_as_dict r = JObj
     [(''schema'', JStr ''tcpcc.host-preflight.v1''), (''ok'', JBool (preflight_ok r)),
      (''requested_cc'', JStr (pr_requested_cc r)),
      (''checks'', JList (map check_as_dict (pr_checks r)))]"

definition preflight_to_json :: "PreflightReport \<Rightarrow> string" where
  "preflight_to_json r = json_dumps (preflight_as_dict r)"

section \<open>What a passing report means\<close>

text \<open>An inspector that looks and changes nothing, which is what the callables of the source do.\<close>

definition read_only :: "'s HostInspector \<Rightarrow> bool" where
  "read_only i \<longleftrightarrow>
     (\<forall>p s. snd (hi_reader i p s) = s) \<and> (\<forall>n s. snd (hi_resolver i n s) = s)
     \<and> (\<forall>n s. snd (hi_library_resolver i n s) = s) \<and> (\<forall>p s. snd (hi_statter i p s) = s)
     \<and> (\<forall>p m s. snd (hi_access i p m s) = s)"

definition proc_value :: "'s HostInspector \<Rightarrow> string \<Rightarrow> 's \<Rightarrow> string \<Rightarrow> bool" where
  "proc_value i relative s v \<longleftrightarrow>
     (\<exists>raw. fst (hi_reader i (path_join (hi_proc_root i) relative) s) = Inr raw
        \<and> v = py_strip raw \<and> v \<noteq> [] \<and> CHR 0x00 \<notin> set v)"

definition resolves :: "(string \<Rightarrow> ('s, string option) py) \<Rightarrow> 's \<Rightarrow> string \<Rightarrow> bool" where
  "resolves resolver s name \<longleftrightarrow> (\<exists>path. fst (resolver name s) = Inr (Some path))"

definition capable :: "'s HostInspector \<Rightarrow> 's \<Rightarrow> bool" where
  "capable i s \<longleftrightarrow>
     (\<exists>v ds. proc_value i ''self/status'' s v \<and> cap_eff v = Some ds \<and> bit (hex_val ds) CAP_NET_ADMIN)"

definition tun_usable :: "'s HostInspector \<Rightarrow> 's \<Rightarrow> bool" where
  "tun_usable i s \<longleftrightarrow>
     (let path = path_join (hi_dev_root i) ''net/tun''
      in (\<exists>mode. fst (hi_statter i path s) = Inr mode \<and> S_ISCHR mode)
         \<and> fst (hi_access i path R_OK_W_OK s) = Inr True)"

definition firewall_available :: "'s HostInspector \<Rightarrow> 's \<Rightarrow> string \<Rightarrow> string \<Rightarrow> string list \<Rightarrow> bool" where
  "firewall_available i s backend nft_path iptables_commands \<longleftrightarrow>
     (if backend = ''nft-exec'' then resolves (hi_resolver i) s nft_path
      else if backend = ''nft-lib'' then resolves (hi_library_resolver i) s ''nftables''
      else backend = ''iptables'' \<and> list_all (resolves (hi_resolver i) s) iptables_commands)"

lemma read_only_eval:
  assumes "read_only i"
  shows "hi_reader i p s = (r, s') \<Longrightarrow> s' = s" "hi_resolver i n s = (r2, s') \<Longrightarrow> s' = s"
    "hi_library_resolver i n s = (r2, s') \<Longrightarrow> s' = s" "hi_statter i p s = (r3, s') \<Longrightarrow> s' = s"
    "hi_access i p m s = (r4, s') \<Longrightarrow> s' = s"
  using assms unfolding read_only_def by (metis snd_conv)+

lemma check_fails: "ck_status (check i p sv ob ex rem) = ''fail'' \<longleftrightarrow> \<not> p \<and> sv \<noteq> ''advisory''"
  by (simp add: check_def)

lemma read_proc_result:
  assumes "read_only i" "read_proc i rel s = (Inr r, s')"
  shows "s' = s \<and> (\<forall>v. proc_value i rel s v \<longleftrightarrow> r = Inr v)"
  using assms
  by (auto simp: read_proc_def phandle_eq_Inr pbind_cases pret_def praise_def proc_value_def Let_def
      dest: read_only_eval split: if_splits)

text \<open>Every check looks something up and judges what it finds.\<close>

lemma pbind_check:
  assumes "pbind m (\<lambda>r. pret (check a (p r) sv (ob r) ex rem)) s = (Inr c, s')"
  obtains r where "m s = (Inr r, s')" "ck_status c = ''fail'' \<longleftrightarrow> \<not> p r \<and> sv \<noteq> ''advisory''"
  using assms by (auto simp: pbind_cases pret_def check_fails)

lemma required_not_advisory: "''required'' \<noteq> ''advisory''"
  by simp

lemma cap_net_admin_result:
  assumes "read_only i" "cap_net_admin i s = (Inr c, s')"
  shows "s' = s \<and> (ck_status c \<noteq> ''fail'' \<longleftrightarrow> capable i s)"
proof -
  from assms(2) obtain r where r: "read_proc i ''self/status'' s = (Inr r, s')"
    "ck_status c = ''fail'' \<longleftrightarrow> \<not> fst (cap_result r) \<and> ''required'' \<noteq> ''advisory''"
    unfolding cap_net_admin_def by (rule pbind_check)
  have "fst (cap_result r) \<longleftrightarrow> capable i s"
    using read_proc_result [OF assms(1) r(1)] unfolding capable_def
    by (cases r) (auto split: option.splits)
  then show ?thesis using r(2) required_not_advisory read_proc_result [OF assms(1) r(1)] by blast
qed

lemma tun_device_result:
  assumes "read_only i" "tun_device i s = (Inr c, s')"
  shows "s' = s \<and> (ck_status c \<noteq> ''fail'' \<longleftrightarrow> tun_usable i s)"
proof -
  define path where "path = path_join (hi_dev_root i) ''net/tun''"
  from assms(2) obtain r where r: "inspect_tun i path s = (Inr r, s')"
    "ck_status c = ''fail'' \<longleftrightarrow> \<not> fst r \<and> ''required'' \<noteq> ''advisory''"
    unfolding tun_device_def path_def by (rule pbind_check)
  have "s' = s \<and> (fst r \<longleftrightarrow> tun_usable i s)"
    using r(1) unfolding tun_usable_def path_def [symmetric] Let_def
    by (auto simp: inspect_tun_def phandle_eq_Inr pbind_cases pret_def praise_def
      dest: read_only_eval [OF assms(1)] split: if_splits)
  then show ?thesis using r(2) required_not_advisory by blast
qed

lemma lookup_result:
  assumes "\<And>s r s'. f name s = (r, s') \<Longrightarrow> s' = s" "lookup f name s = (Inr r, s')"
  shows "s' = s \<and> (r \<noteq> None \<longleftrightarrow> resolves f s name)"
  using assms
  by (fastforce simp: lookup_def resolves_def phandle_eq_Inr pret_def praise_def split: if_splits)

lemma tool_result:
  assumes "read_only i" "tool i name rem cn s = (Inr c, s')"
  shows "s' = s \<and> (ck_status c \<noteq> ''fail'' \<longleftrightarrow> resolves (hi_resolver i) s name)"
proof -
  from assms(2) obtain r where r: "lookup (hi_resolver i) name s = (Inr r, s')"
    "ck_status c = ''fail'' \<longleftrightarrow> \<not> r \<noteq> None \<and> ''required'' \<noteq> ''advisory''"
    unfolding tool_def by (rule pbind_check)
  have "s' = s \<and> (r \<noteq> None \<longleftrightarrow> resolves (hi_resolver i) s name)"
    by (rule lookup_result [OF _ r(1)]) (rule read_only_eval(2) [OF assms(1)])
  with r(2) required_not_advisory show ?thesis by blast
qed

lemma library_result:
  assumes "read_only i" "library i name rem s = (Inr c, s')"
  shows "s' = s \<and> (ck_status c \<noteq> ''fail'' \<longleftrightarrow> resolves (hi_library_resolver i) s name)"
proof -
  from assms(2) obtain r where r: "lookup (hi_library_resolver i) name s = (Inr r, s')"
    "ck_status c = ''fail'' \<longleftrightarrow> \<not> r \<noteq> None \<and> ''required'' \<noteq> ''advisory''"
    unfolding library_def by (rule pbind_check)
  have "s' = s \<and> (r \<noteq> None \<longleftrightarrow> resolves (hi_library_resolver i) s name)"
    by (rule lookup_result [OF _ r(1)]) (rule read_only_eval(3) [OF assms(1)])
  with r(2) required_not_advisory show ?thesis by blast
qed

lemma required_sysctl_result:
  assumes "read_only i" "required_sysctl i cid rel want rem s = (Inr c, s')"
  shows "s' = s \<and> (ck_status c \<noteq> ''fail'' \<longleftrightarrow> proc_value i rel s want)"
proof -
  from assms(2) obtain r where r: "read_proc i rel s = (Inr r, s')"
    "ck_status c = ''fail'' \<longleftrightarrow> \<not> r = Inr want \<and> ''required'' \<noteq> ''advisory''"
    unfolding required_sysctl_def by (rule pbind_check)
  from r(2) read_proc_result [OF assms(1) r(1)] required_not_advisory show ?thesis by blast
qed

lemma rp_filter_result:
  assumes "read_only i" "rp_filter i scope s = (Inr c, s')"
  shows "s' = s \<and> ck_status c \<noteq> ''fail''"
proof -
  from assms(2) obtain r where r: "read_proc i (''sys/net/ipv4/conf/'' @ scope @ ''/rp_filter'') s = (Inr r, s')"
    "ck_status c = ''fail'' \<longleftrightarrow> \<not> r = Inr ''0'' \<and> ''advisory'' \<noteq> ''advisory''"
    unfolding rp_filter_def by (rule pbind_check)
  from r(2) read_proc_result [OF assms(1) r(1)] show ?thesis by blast
qed

definition passes :: "CheckResult \<Rightarrow> bool" where
  "passes c \<longleftrightarrow> ck_status c \<noteq> ''fail''"

lemma sequence_Inr:
  "sequence [] s = (Inr cs, s') \<longleftrightarrow> cs = [] \<and> s' = s"
  "sequence (m # ms) s = (Inr cs, s') \<longleftrightarrow>
     (\<exists>c s1 cs'. m s = (Inr c, s1) \<and> sequence ms s1 = (Inr cs', s') \<and> cs = c # cs')"
  by (auto simp: pret_def pbind_cases)

lemmas check_results =
  cap_net_admin_result tun_device_result tool_result library_result required_sysctl_result
  rp_filter_result

lemma list_all_unfold: "list_all P [] = True" "list_all P (x # xs) \<longleftrightarrow> P x \<and> list_all P xs"
  by simp_all

lemma firewall_checks_result:
  assumes i: "read_only i" and fw: "firewall_checks i fb nft ipt restore save s = (Inr cs, s')"
  shows "s' = s \<and> (list_all passes cs \<longleftrightarrow> firewall_available i s fb nft [ipt, restore, save])"
proof (cases "fb = ''nft-exec''")
  case exec: True
  obtain c where c: "tool i nft (''install nftables and expose '' @ nft @ '' on PATH'') (Some ''nft'') s =
      (Inr c, s')" "cs = [c]"
    using fw unfolding firewall_checks_def if_P [OF exec] sequence_Inr by blast
  from tool_result [OF i c(1)] show ?thesis
    unfolding firewall_available_def if_P [OF exec] c(2) list_all_unfold passes_def by blast
next
  case ne: False
  show ?thesis
  proof (cases "fb = ''nft-lib''")
    case lib: True
    obtain c where c: "library i ''nftables'' ''install the libnftables shared library'' s = (Inr c, s')"
      "cs = [c]"
      using fw unfolding firewall_checks_def if_not_P [OF ne] if_P [OF lib] sequence_Inr by blast
    from library_result [OF i c(1)] show ?thesis
      unfolding firewall_available_def if_not_P [OF ne] if_P [OF lib] c(2) list_all_unfold passes_def
      by blast
  next
    case nl: False
    have ip: "fb = ''iptables''"
      using fw unfolding firewall_checks_def if_not_P [OF ne] if_not_P [OF nl]
      by (rule contrapos_pp) (simp only: if_False praise_def prod.inject sum.distinct simp_thms)
    obtain c1 c2 c3 r1 r2 r3 n1 n2 n3 s1 s2 where c: "tool i ipt r1 n1 s = (Inr c1, s1)"
      "tool i restore r2 n2 s1 = (Inr c2, s2)" "tool i save r3 n3 s2 = (Inr c3, s')" "cs = [c1, c2, c3]"
      using fw unfolding firewall_checks_def if_not_P [OF ne] if_not_P [OF nl] if_P [OF ip] list.map
        prod.case sequence_Inr by blast
    from tool_result [OF i c(1)] tool_result [OF i c(2)] tool_result [OF i c(3)] show ?thesis
      unfolding firewall_available_def if_not_P [OF ne] if_not_P [OF nl] c(4) list_all_unfold passes_def
      using ip by blast
  qed
qed

lemma pbind4:
  assumes "pbind a (\<lambda>x. pbind b (\<lambda>y. pbind c (\<lambda>z. pbind d (\<lambda>w. pret (f x y z w))))) s = (Inr r, s')"
  obtains x y z w s1 s2 s3 where "a s = (Inr x, s1)" "b s1 = (Inr y, s2)" "c s2 = (Inr z, s3)"
    "d s3 = (Inr w, s')" "r = f x y z w"
  using assms by (auto simp: pbind_cases pret_def)

text \<open>
  C22: the preflight leaves the host as it was, and its report is good exactly when the process
  has \<open>CAP_NET_ADMIN\<close>, the TUN device is a character device with read and write access, the
  \<open>ip\<close> command and the selected firewall backend are there, and forwarding is on for the
  address family.  The reverse-path filters never fail a report.
\<close>

theorem collect_preflight_ok_iff:
  assumes "read_only i"
    and "collect_preflight cc i ipv fb nft ipt restore save s = (Inr report, s')"
  shows "s' = s \<and> CC_NAME cc \<and> (ipv = 4 \<or> ipv = 6)
    \<and> (preflight_ok report \<longleftrightarrow>
         capable i s \<and> tun_usable i s \<and> resolves (hi_resolver i) s ''ip''
         \<and> firewall_available i s fb nft [ipt, restore, save]
         \<and> proc_value i (if ipv = 4 then ''sys/net/ipv4/ip_forward''
                         else ''sys/net/ipv6/conf/all/forwarding'') s ''1'')"
proof -
  let ?rel = "if ipv = 4 then ''sys/net/ipv4/ip_forward'' else ''sys/net/ipv6/conf/all/forwarding''"
  have n1: "\<not> \<not> CC_NAME cc"
  proof
    assume a: "\<not> CC_NAME cc"
    from assms(2) show False unfolding collect_preflight_def if_P [OF a] praise_def by simp
  qed
  have n2: "\<not> ipv \<notin> {4, 6}"
  proof
    assume a: "ipv \<notin> {4, 6}"
    from assms(2) show False
      unfolding collect_preflight_def if_not_P [OF n1] if_P [OF a] praise_def by simp
  qed
  obtain pre r3 fw cf adv s3 s4 s5 where d:
    "sequence [cap_net_admin i, tun_device i, tool i ''ip'' r3 None] s = (Inr pre, s3)"
    "firewall_checks i fb nft ipt restore save s3 = (Inr fw, s4)"
    "(if ipv = 4
      then required_sysctl i ''sysctl.ipv4_forward'' ''sys/net/ipv4/ip_forward'' ''1''
             ''set net.ipv4.ip_forward=1 before starting tcpcc''
      else required_sysctl i ''sysctl.ipv6_forward'' ''sys/net/ipv6/conf/all/forwarding'' ''1''
             ''set net.ipv6.conf.all.forwarding=1 before starting tcpcc'') s4 = (Inr cf, s5)"
    "(if ipv = 4 then sequence [rp_filter i ''all'', rp_filter i ''default''] else pret []) s5 = (Inr adv, s')"
    "report = \<lparr>pr_requested_cc = cc, pr_checks = pre @ fw @ [cf] @ adv\<rparr>"
    using assms(2) unfolding collect_preflight_def if_not_P [OF n1] if_not_P [OF n2] by (rule pbind4)
  from d(1)
  obtain c1 c2 c3 s1 s2 where c:
    "cap_net_admin i s = (Inr c1, s1)" "tun_device i s1 = (Inr c2, s2)"
    "tool i ''ip'' r3 None s2 = (Inr c3, s3)" "pre = [c1, c2, c3]"
    unfolding sequence_Inr by blast
  have f: "s5 = s4 \<and> (passes cf \<longleftrightarrow> proc_value i ?rel s4 ''1'')"
  proof (cases "ipv = 4")
    case True
    from required_sysctl_result [OF assms(1) d(3) [unfolded if_P [OF True]]] show ?thesis
      unfolding if_P [OF True] passes_def .
  next
    case False
    from required_sysctl_result [OF assms(1) d(3) [unfolded if_not_P [OF False]]] show ?thesis
      unfolding if_not_P [OF False] passes_def .
  qed
  have adv: "s' = s5 \<and> list_all passes adv"
  proof (cases "ipv = 4")
    case True
    obtain a1 a2 t where a: "rp_filter i ''all'' s5 = (Inr a1, t)" "rp_filter i ''default'' t = (Inr a2, s')"
      "adv = [a1, a2]"
      using d(4) unfolding if_P [OF True] sequence_Inr by blast
    from rp_filter_result [OF assms(1) a(1)] rp_filter_result [OF assms(1) a(2)] show ?thesis
      unfolding a(3) list_all_unfold passes_def by blast
  next
    case False
    from d(4) show ?thesis unfolding if_not_P [OF False] by (simp add: pret_def)
  qed
  have "s' = s \<and> (list_all passes (pr_checks report) \<longleftrightarrow> capable i s \<and> tun_usable i s
      \<and> resolves (hi_resolver i) s ''ip'' \<and> firewall_available i s fb nft [ipt, restore, save]
      \<and> proc_value i ?rel s ''1'')"
    using adv cap_net_admin_result [OF assms(1) c(1)] tun_device_result [OF assms(1) c(2)]
      tool_result [OF assms(1) c(3)] firewall_checks_result [OF assms(1) d(2)]
      f
    by (simp only: c(4) d(5) PreflightReport.simps list_all_append list_all_unfold passes_def append.simps)
      blast
  moreover have "preflight_ok report = list_all passes (pr_checks report)"
    by (simp add: preflight_ok_def passes_def [abs_def])
  ultimately show ?thesis using n1 n2 by blast
qed

text \<open>A host that is ready: root's capabilities, a TUN device, every command, forwarding on.\<close>

definition ready_host :: "unit HostInspector" where
  "ready_host = \<lparr>hi_proc_root = ''/proc'', hi_dev_root = ''/dev'',
     hi_reader = (\<lambda>p. pret (if p = ''/proc/self/status''
                             then ''CapEff:'' @ [CHR 0x09] @ ''0000000000001000'' @ [CHR 0x0A]
                             else ''1'' @ [CHR 0x0A])),
     hi_resolver = (\<lambda>n. pret (Some (''/sbin/'' @ n))), hi_library_resolver = (\<lambda>n. pret None),
     hi_statter = (\<lambda>p. pret 8630), hi_access = (\<lambda>p m. pret True)\<rparr>"

lemma ready_host_read_only: "read_only ready_host"
  by (simp add: read_only_def ready_host_def pret_def)

text \<open>
  The callables of an inspector may raise \<open>OSError\<close>, and the reader a decoding error.
\<close>

definition os_errors_only :: "'s HostInspector \<Rightarrow> bool" where
  "os_errors_only i \<longleftrightarrow>
     (\<forall>p s e s'. hi_reader i p s = (Inl e, s') \<longrightarrow> is_OSError e \<or> is_UnicodeError e)
     \<and> (\<forall>n s e s'. hi_resolver i n s = (Inl e, s') \<longrightarrow> is_OSError e)
     \<and> (\<forall>n s e s'. hi_library_resolver i n s = (Inl e, s') \<longrightarrow> is_OSError e)
     \<and> (\<forall>p s e s'. hi_statter i p s = (Inl e, s') \<longrightarrow> is_OSError e)
     \<and> (\<forall>p m s e s'. hi_access i p m s = (Inl e, s') \<longrightarrow> is_OSError e)"

lemma os_errors_onlyD:
  assumes "os_errors_only i"
  shows "hi_reader i p s = (Inl e, s') \<Longrightarrow> is_OSError e \<or> is_UnicodeError e"
    "hi_resolver i n s = (Inl e, s') \<Longrightarrow> is_OSError e"
    "hi_library_resolver i n s = (Inl e, s') \<Longrightarrow> is_OSError e"
    "hi_statter i p s = (Inl e, s') \<Longrightarrow> is_OSError e" "hi_access i p m s = (Inl e, s') \<Longrightarrow> is_OSError e"
  using assms unfolding os_errors_only_def by metis+

lemma returns_sequence: "(\<And>m. m \<in> set ms \<Longrightarrow> returns m) \<Longrightarrow> returns (sequence ms)"
  by (induction ms) (auto intro!: returns_intros)

lemma read_proc_returns: "os_errors_only i \<Longrightarrow> returns (read_proc i rel)"
  unfolding read_proc_def
  by (rule returns_phandle [where P = "\<lambda>e. is_OSError e \<or> is_UnicodeError e"])
    (auto simp: pbind_eq_Inl Let_def pret_def dest: os_errors_onlyD intro!: returns_pret)

lemma inspect_tun_returns: "os_errors_only i \<Longrightarrow> returns (inspect_tun i path)"
  unfolding inspect_tun_def
  by (rule returns_phandle [where P = is_OSError])
    (auto simp: pbind_eq_Inl pret_def dest: os_errors_onlyD intro!: returns_pret)

lemma lookup_returns:
  "os_errors_only i \<Longrightarrow> returns (lookup (hi_resolver i) name)"
  "os_errors_only i \<Longrightarrow> returns (lookup (hi_library_resolver i) name)"
  unfolding lookup_def
  by (rule returns_phandle [where P = is_OSError]; auto dest: os_errors_onlyD intro: returns_pret)+

lemma checks_return:
  assumes "os_errors_only i"
  shows "returns (cap_net_admin i)" "returns (tun_device i)" "returns (tool i n rem cn)"
    "returns (library i n rem)" "returns (required_sysctl i cid rel want rem)" "returns (rp_filter i scope)"
  unfolding cap_net_admin_def tun_device_def tool_def library_def required_sysctl_def rp_filter_def
  by (rule returns_pbind returns_pret read_proc_returns inspect_tun_returns lookup_returns assms)+

lemma sequences_return:
  "returns m \<Longrightarrow> returns (sequence [m])" "returns m \<Longrightarrow> returns n \<Longrightarrow> returns (sequence [m, n])"
  "returns m \<Longrightarrow> returns n \<Longrightarrow> returns k \<Longrightarrow> returns (sequence [m, n, k])"
  by (rule returns_sequence; auto)+

lemma collect_preflight_report:
  assumes "os_errors_only i" "CC_NAME cc" "ipv = 4 \<or> ipv = 6" "fb \<in> set FIREWALL_BACKENDS"
  shows "\<exists>report s'. collect_preflight cc i ipv fb nft ipt restore save s = (Inr report, s')"
proof -
  have "fb = ''nft-exec'' \<or> fb = ''nft-lib'' \<or> fb = ''iptables''"
    using assms(4) unfolding FIREWALL_BACKENDS_def by auto
  then have fw: "returns (firewall_checks i fb nft ipt restore save)"
    unfolding firewall_checks_def list.map prod.case
    by (cases "fb = ''nft-exec''"; cases "fb = ''nft-lib''"; cases "fb = ''iptables''")
      (simp_all only: if_True if_False simp_thms sequences_return checks_return assms(1))
  have n: "\<not> \<not> CC_NAME cc" "\<not> ipv \<notin> {4, 6}" using assms(2,3) by simp_all
  have "returns (collect_preflight cc i ipv fb nft ipt restore save)"
    unfolding collect_preflight_def if_not_P [OF n(1)] if_not_P [OF n(2)]
    by (rule returns_pbind returns_pret returns_if sequences_return checks_return assms(1) fw)+
  then show ?thesis by (simp add: returns_def)
qed

text \<open>
  C23: on valid arguments the preflight always comes to a report; what goes wrong on the host
  while a check looks is recorded in the report and never raised.
\<close>

theorem collect_preflight_returns:
  assumes "os_errors_only i" "CC_NAME cc" "ipv = 4 \<or> ipv = 6" "fb \<in> set FIREWALL_BACKENDS"
  shows "\<exists>report s'. collect_preflight cc i ipv fb nft ipt restore save s = (Inr report, s')"
  using assms by (rule collect_preflight_report)

lemma ready_host_os: "os_errors_only ready_host"
  by (simp add: os_errors_only_def ready_host_def pret_def)

lemma bbr_name: "CC_NAME ''bbr''"
  by code_simp

lemma nft_exec_backend: "''nft-exec'' \<in> set FIREWALL_BACKENDS"
  by (simp add: FIREWALL_BACKENDS_def)

theorem collect_preflight_returns_witness:
  "\<exists>report s'. collect_preflight ''bbr'' ready_host 4 ''nft-exec'' ''nft'' ''iptables'' ''iptables-restore''
      ''iptables-save'' () = (Inr report, s')"
  by (rule collect_preflight_returns [OF ready_host_os bbr_name _ nft_exec_backend]) simp

lemma ready_host_capable: "capable ready_host ()"
proof -
  have "py_strip (''CapEff:'' @ [CHR 0x09] @ ''0000000000001000'' @ [CHR 0x0A]) =
      ''CapEff:'' @ [CHR 0x09] @ ''0000000000001000''" by code_simp
  moreover have "cap_eff (''CapEff:'' @ [CHR 0x09] @ ''0000000000001000'') = Some ''0000000000001000''"
    by code_simp
  moreover have "hex_val ''0000000000001000'' = 4096" by code_simp
  moreover have "path_join ''/proc'' ''self/status'' = ''/proc/self/status''" by code_simp
  ultimately show ?thesis
    unfolding capable_def proc_value_def
    by (intro exI [of _ "''CapEff:'' @ [CHR 0x09] @ ''0000000000001000''"] exI [of _ "''0000000000001000''"])
      (simp add: ready_host_def pret_def CAP_NET_ADMIN_def bit_nat_def)
qed

theorem collect_preflight_ok_iff_witness:
  "\<exists>report s'. collect_preflight ''bbr'' ready_host 4 ''nft-exec'' ''nft'' ''iptables'' ''iptables-restore''
      ''iptables-save'' () = (Inr report, s') \<and> preflight_ok report"
proof -
  obtain report s' where r: "collect_preflight ''bbr'' ready_host 4 ''nft-exec'' ''nft'' ''iptables''
      ''iptables-restore'' ''iptables-save'' () = (Inr report, s')"
    using collect_preflight_report [OF ready_host_os bbr_name _ nft_exec_backend] by blast
  have "tun_usable ready_host ()"
    by (simp add: tun_usable_def ready_host_def pret_def S_ISCHR_def)
  moreover have "resolves (hi_resolver ready_host) () n" for n
    by (simp add: resolves_def ready_host_def pret_def)
  moreover have "proc_value ready_host ''sys/net/ipv4/ip_forward'' () ''1''"
  proof -
    have "py_strip (''1'' @ [CHR 0x0A]) = ''1''" by code_simp
    moreover have "path_join ''/proc'' ''sys/net/ipv4/ip_forward'' \<noteq> ''/proc/self/status''" by code_simp
    ultimately show ?thesis by (simp add: proc_value_def ready_host_def pret_def)
  qed
  ultimately show ?thesis
    using collect_preflight_ok_iff [OF ready_host_read_only r] r ready_host_capable
    by (simp only: firewall_available_def if_True simp_thms) blast
qed

text \<open>
  The JSON form of a report reads back as an object with the schema, the verdict, the
  requested congestion control and one object per check, in the order of the checks.
\<close>

lemma preflight_to_json_reads_back:
  "\<exists>ms. json_loads (preflight_to_json r) = Some (JObj ms)
     \<and> jget ''schema'' ms = JStr ''tcpcc.host-preflight.v1'' \<and> jget ''ok'' ms = JBool (preflight_ok r)
     \<and> jget ''requested_cc'' ms = JStr (pr_requested_cc r)
     \<and> jget ''checks'' ms = JList (map (\<lambda>c. sort_keys (check_as_dict c)) (pr_checks r))"
proof -
  define ms where "ms = [(''schema'', JStr ''tcpcc.host-preflight.v1''), (''ok'', JBool (preflight_ok r)),
     (''requested_cc'', JStr (pr_requested_cc r)),
     (''checks'', JList (map (\<lambda>c. sort_keys (check_as_dict c)) (pr_checks r)))]"
  have "no_float (preflight_as_dict r)"
    by (simp add: preflight_as_dict_def check_as_dict_def)
  then have "json_loads (preflight_to_json r) = Some (sort_keys (preflight_as_dict r))"
    unfolding preflight_to_json_def by (rule loads_json_dumps)
  moreover have "sort_keys (preflight_as_dict r) = JObj (sort_key fst ms)"
    by (simp add: preflight_as_dict_def ms_def o_def del: sort_key_simps)
  moreover have "jget k (sort_key fst ms) = jget k ms" for k
    by (rule jget_sorted) (simp add: ms_def)
  ultimately show ?thesis
    by (intro exI [of _ "sort_key fst ms"]) (simp add: ms_def jget_def)
qed

end
