(* ===== verification/Ownership.thy ===== *)
theory Ownership
  imports Preflight
begin

text \<open>
  The ownership identity of an instance (\<^verbatim>\<open>tools/tcpcc_host.py\<close>): \<^verbatim>\<open>NftOwnership\<close> and
  its marker text, the process start time read from procfs, \<^verbatim>\<open>inspect_nft_ownership\<close>,
  which classifies the marked rules of a ruleset listing, and the ownership reports with their
  JSON form.  The iptables backend classifies with the same \<open>owner_status\<close>.

  Reading a file and running \<^verbatim>\<open>nft\<close> are arguments on an arbitrary state; the listing is
  parsed by \<open>json_loads\<close>.  An integer is read whatever its length; the interpreter's limit of 4300
  digits on \<^verbatim>\<open>int\<close> is not modelled.
\<close>

section \<open>Reading integers\<close>

text \<open>\<open>int(text)\<close>: an optional sign and decimal digits with single underscores between them.\<close>

definition py_int :: "string \<Rightarrow> int option" where
  "py_int t =
     (let s = py_strip t;
          signed = (s \<noteq> [] \<and> hd s \<in> set ''+-'');
          parts = split_on (CHR ''_'') (if signed then tl s else s)
      in if list_all (\<lambda>p. p \<noteq> [] \<and> list_all is_dec_digit p) parts
         then Some ((if signed \<and> hd s = CHR ''-'' then -1 else 1) * int (dec_val (concat parts)))
         else None)"

section \<open>The marker\<close>

record NftOwnership =
  ow_pid :: int
  ow_start_time :: int
  ow_tun_name :: string

definition positive_field :: "pyval \<Rightarrow> string \<Rightarrow> exn + int" where
  "positive_field v field =
     (let bad = Inl (ValueError (''nftables ownership '' @ field @ '' must be positive''))
      in case v of PInt i \<Rightarrow> (if i < 1 then bad else Inr i) | _ \<Rightarrow> bad)"

definition NftOwnership_init :: "pyval \<Rightarrow> pyval \<Rightarrow> pyval \<Rightarrow> exn + NftOwnership" where
  "NftOwnership_init pid start_time tun_name =
     rbind (positive_field pid ''pid'') (\<lambda>p.
     rbind (positive_field start_time ''start_time'') (\<lambda>st.
     rbind (validate_tun_name tun_name) (\<lambda>t.
       Inr \<lparr>ow_pid = p, ow_start_time = st, ow_tun_name = t\<rparr>)))"

definition marker :: "NftOwnership \<Rightarrow> string" where
  "marker o' =
     ''tcpcc.owner.v1 pid='' @ str_int (ow_pid o') @ '' start='' @ str_int (ow_start_time o')
     @ '' tun='' @ ow_tun_name o'"

text \<open>\<open>[1-9][0-9]*\<close>.\<close>

definition is_positive_numeral :: "string \<Rightarrow> bool" where
  "is_positive_numeral ds \<longleftrightarrow> ds \<noteq> [] \<and> list_all is_dec_digit ds \<and> hd ds \<noteq> CHR ''0''"

text \<open>
  \<open>NFT_OWNER_MARKER.fullmatch\<close> with its three groups: each run of digits is followed by a
  space, so it is taken as long as it can be.
\<close>

definition digits_then :: "string \<Rightarrow> string \<Rightarrow> (string \<times> string) option" where
  "digits_then lit s =
     (let ds = takeWhile is_dec_digit s; rest = dropWhile is_dec_digit s
      in if is_positive_numeral ds \<and> startswith rest lit then Some (ds, drop (length lit) rest)
         else None)"

definition NFT_OWNER_MARKER :: "string \<Rightarrow> (string \<times> string \<times> string) option" where
  "NFT_OWNER_MARKER s =
     (if startswith s ''tcpcc.owner.v1 pid='' then
        (case digits_then '' start='' (drop 19 s) of
           None \<Rightarrow> None
         | Some (pid, s1) \<Rightarrow>
             (case digits_then '' tun='' s1 of
                None \<Rightarrow> None
              | Some (start, tun) \<Rightarrow> (if TUN_NAME tun then Some (pid, start, tun) else None)))
      else None)"

section \<open>The start time of a process\<close>

definition process_start_time ::
  "string \<Rightarrow> (string \<Rightarrow> ('s, string) py) \<Rightarrow> int \<Rightarrow> ('s, int) py" where
  "process_start_time proc_root reader pid =
     pbind (reader (path_join (path_join proc_root (str_int pid)) ''stat'')) (\<lambda>raw.
       let v = py_strip raw
       in case rfind_char (CHR '')'') v of
            None \<Rightarrow> praise (ValueError ''process stat has no command terminator'')
          | Some closing \<Rightarrow>
              (let fields = py_split (drop (closing + 1) v)
               in if length fields \<le> 19 then praise (ValueError ''process stat has no start-time field'')
                  else case py_int (fields ! 19) of
                         None \<Rightarrow> praise (ValueError (''invalid literal for int() with base 10: ''
                                                   @ py_repr (fields ! 19)))
                       | Some start_time \<Rightarrow>
                           (if start_time < 1 then praise (ValueError ''process start time is not positive'')
                            else pret start_time)))"

definition current_nft_ownership ::
  "string \<Rightarrow> (string \<Rightarrow> ('s, string) py) \<Rightarrow> ('s, int) py \<Rightarrow> string \<Rightarrow> ('s, NftOwnership) py" where
  "current_nft_ownership proc_root reader pid_provider tun_name =
     pbind pid_provider (\<lambda>pid.
     pbind (process_start_time proc_root reader pid) (\<lambda>start_time.
       plift (NftOwnership_init (PInt pid) (PInt start_time) (PStr tun_name))))"

section \<open>Classifying an owner\<close>

text \<open>The \<open>try\<close> around reading the start time: status and detail.\<close>

definition owner_status ::
  "string \<Rightarrow> (string \<Rightarrow> ('s, string) py) \<Rightarrow> int \<Rightarrow> int \<Rightarrow> ('s, string \<times> string) py" where
  "owner_status proc_root reader pid expected_start =
     phandle
       (pbind (process_start_time proc_root reader pid) (\<lambda>actual_start.
          pret (if actual_start = expected_start
                then (''active'', ''owner pid and process start time match'')
                else (''stale'', ''owner pid was reused by a different process''))))
       (\<lambda>e. if is_FileNotFoundError e then pret (''stale'', ''owner process is absent'')
            else if is_OSError e \<or> is_ValueError e
            then pret (''stale'', ''owner process identity is unreadable'')
            else praise e)"

definition malformed_marker :: "string \<Rightarrow> string \<Rightarrow> OwnershipObservation" where
  "malformed_marker name remediation =
     \<lparr>ob_name = name, ob_status = ''malformed'', ob_owner_pid = None, ob_owner_start_time = None,
      ob_tun_name = None, ob_detail = ''unsupported or malformed tcpcc ownership marker'',
      ob_remediation = remediation\<rparr>"

fun json_str :: "json \<Rightarrow> string option" where
  "json_str (JStr t) = Some t"
| "json_str _ = None"

text \<open>
  The loop body of \<open>inspect_nft_ownership\<close>: the \<open>table\<close> and the \<open>comment\<close> of an entry that
  is a marked rule of the family, or nothing.
\<close>

definition marked_rule :: "string \<Rightarrow> json \<Rightarrow> (json \<times> string) option" where
  "marked_rule table_family entry =
     (case entry of
        JObj ms \<Rightarrow>
          (case jget ''rule'' ms of
             JObj rs \<Rightarrow>
               (if jget ''family'' rs \<noteq> JStr table_family then None
                else case json_str (jget ''comment'' rs) of
                       None \<Rightarrow> None
                     | Some comment \<Rightarrow>
                         (if startswith comment NFT_OWNER_PREFIX
                          then Some (jget ''table'' rs, comment) else None))
           | _ \<Rightarrow> None)
      | _ \<Rightarrow> None)"

definition observe_rule ::
  "string \<Rightarrow> string \<Rightarrow> (string \<Rightarrow> ('s, string) py) \<Rightarrow> json \<Rightarrow> string
   \<Rightarrow> ('s, OwnershipObservation) py" where
  "observe_rule table_family proc_root reader table comment =
     (let valid = (case json_str table of Some t \<Rightarrow> NFT_TABLE_NAME t | None \<Rightarrow> False);
          name = (case json_str table of Some t \<Rightarrow> t | None \<Rightarrow> ''malformed'')
      in case NFT_OWNER_MARKER comment of
           Some (pid, start, tun) \<Rightarrow>
             (if valid then
                pbind (owner_status proc_root reader (int (dec_val pid)) (int (dec_val start)))
                  (\<lambda>(status, detail).
                    pret \<lparr>ob_name = name, ob_status = status, ob_owner_pid = Some (int (dec_val pid)),
                          ob_owner_start_time = Some (int (dec_val start)), ob_tun_name = Some tun,
                          ob_detail = detail,
                          ob_remediation =
                            (if status = ''stale''
                             then ''verify the recorded owner is gone, then run: nft delete table ''
                                  @ table_family @ '' '' @ name
                             else [])\<rparr>)
              else pret (malformed_marker name ''inspect the complete nftables ruleset manually''))
         | None \<Rightarrow>
             pret (malformed_marker name
               (if valid
                then ''inspect with: nft list table '' @ table_family @ '' '' @ name
                     @ ''; after verifying ownership, remove with: nft delete table ''
                     @ table_family @ '' '' @ name
                else ''inspect the complete nftables ruleset manually'')))"

fun observe_entries ::
  "string \<Rightarrow> string \<Rightarrow> (string \<Rightarrow> ('s, string) py) \<Rightarrow> json list \<Rightarrow> ('s, OwnershipObservation list) py" where
  "observe_entries table_family proc_root reader [] = pret []"
| "observe_entries table_family proc_root reader (entry # entries) =
     (case marked_rule table_family entry of
        None \<Rightarrow> observe_entries table_family proc_root reader entries
      | Some (table, comment) \<Rightarrow>
          pbind (observe_rule table_family proc_root reader table comment) (\<lambda>ob.
          pbind (observe_entries table_family proc_root reader entries) (\<lambda>obs.
            pret (ob # obs))))"

text \<open>\<open>json.loads(raw)["nftables"]\<close>, a list.\<close>

definition ruleset_entries :: "string \<Rightarrow> exn + json list" where
  "ruleset_entries raw =
     (let bad = Inl (RuntimeError ''nftables returned malformed ruleset JSON'')
      in case json_loads raw of
           Some (JObj ms) \<Rightarrow> (case jget ''nftables'' ms of JList entries \<Rightarrow> Inr entries | _ \<Rightarrow> bad)
         | _ \<Rightarrow> bad)"

definition is_executable_name :: "pyval \<Rightarrow> bool" where
  "is_executable_name v \<longleftrightarrow> (case v of PStr p \<Rightarrow> p \<noteq> [] \<and> CHR 0x00 \<notin> set p | _ \<Rightarrow> False)"

definition inspect_nft_ownership ::
  "string \<Rightarrow> string \<Rightarrow> (string list \<Rightarrow> ('s, string) py) \<Rightarrow> string \<Rightarrow> (string \<Rightarrow> ('s, string) py)
   \<Rightarrow> ('s, OwnershipReport) py" where
  "inspect_nft_ownership table_family nft_path runner proc_root reader =
     (if \<not> is_executable_name (PStr nft_path)
      then praise (ValueError ''nft_path must name one executable'')
      else if table_family \<notin> set [''ip'', ''ip6'']
      then praise (ValueError ''table_family must be ip or ip6'')
      else
        pbind (runner [nft_path, ''--json'', ''list'', ''ruleset'', table_family]) (\<lambda>raw.
        pbind (plift (ruleset_entries raw)) (\<lambda>entries.
        pbind (observe_entries table_family proc_root reader entries) (\<lambda>observations.
          pret (NftOwnershipReport (sort_key ob_name observations))))))"

section \<open>Reports\<close>

fun report_observations :: "OwnershipReport \<Rightarrow> OwnershipObservation list" where
  "report_observations (NftOwnershipReport obs) = obs"
| "report_observations (IptablesOwnershipReport obs) = obs"

definition blocking :: "OwnershipReport \<Rightarrow> bool" where
  "blocking r \<longleftrightarrow> list_ex (\<lambda>item. ob_status item \<noteq> ''active'') (report_observations r)"

definition optional :: "('a \<Rightarrow> json) \<Rightarrow> 'a option \<Rightarrow> json" where
  "optional f v = (case v of None \<Rightarrow> JNull | Some x \<Rightarrow> f x)"

text \<open>The two \<open>as_dict\<close> differ in the key of the name.\<close>

definition observation_as_dict :: "string \<Rightarrow> OwnershipObservation \<Rightarrow> json" where
  "observation_as_dict name_key ob = JObj
     [(name_key, JStr (ob_name ob)), (''status'', JStr (ob_status ob)),
      (''owner_pid'', optional JInt (ob_owner_pid ob)),
      (''owner_start_time'', optional JInt (ob_owner_start_time ob)),
      (''tun'', optional JStr (ob_tun_name ob)), (''detail'', JStr (ob_detail ob)),
      (''remediation'', JStr (ob_remediation ob))]"

fun report_as_dict :: "OwnershipReport \<Rightarrow> json" where
  "report_as_dict (NftOwnershipReport obs) = JObj
     [(''schema'', JStr ''tcpcc.nft-ownership.v1''), (''blocking'', JBool (blocking (NftOwnershipReport obs))),
      (''tables'', JList (map (observation_as_dict ''table'') obs))]"
| "report_as_dict (IptablesOwnershipReport obs) = JObj
     [(''schema'', JStr ''tcpcc.iptables-ownership.v1''), (''backend'', JStr ''iptables''),
      (''blocking'', JBool (blocking (IptablesOwnershipReport obs))),
      (''chains'', JList (map (observation_as_dict ''chain'') obs))]"

definition report_to_json :: "OwnershipReport \<Rightarrow> string" where
  "report_to_json r = json_dumps (report_as_dict r)"

section \<open>Markers are read back\<close>

lemma digit_char_digit_val: "is_dec_digit c \<Longrightarrow> digit_char (digit_val c) = c \<and> digit_val c < 10"
proof -
  have "list_all (\<lambda>c. digit_char (digit_val c) = c \<and> digit_val c < 10) ''0123456789''" by code_simp
  then show "is_dec_digit c \<Longrightarrow> digit_char (digit_val c) = c \<and> digit_val c < 10"
    by (simp only: is_dec_digit_def list_all_iff)
qed

lemma str_nat_dec_val: "is_positive_numeral ds \<Longrightarrow> str_nat (dec_val ds) = ds"
proof (induction ds rule: rev_induct)
  case Nil
  then show ?case by (simp add: is_positive_numeral_def)
next
  case (snoc d ds)
  have d: "digit_char (digit_val d) = d" "digit_val d < 10"
    using snoc.prems digit_char_digit_val [of d] by (simp_all add: is_positive_numeral_def)
  show ?case
  proof (cases "ds = []")
    case True
    with d show ?thesis by (simp add: str_nat_def dec_val_def val_base_def str_base.simps)
  next
    case False
    with snoc.prems have p: "is_positive_numeral ds" by (simp add: is_positive_numeral_def)
    with snoc.IH have ih: "str_base 10 (val_base 10 ds) = ds" by (simp add: str_nat_def dec_val_def)
    have "val_base 10 ds \<noteq> 0"
    proof
      assume "val_base 10 ds = 0"
      with ih str_nat_0 have "ds = ''0''" by (simp add: str_nat_def)
      with p show False by (simp add: is_positive_numeral_def)
    qed
    then have "\<not> val_base 10 ds * 10 + digit_val d < 10" by simp
    then have "str_base 10 (val_base 10 ds * 10 + digit_val d) = ds @ [d]"
      using d ih by (subst str_base.simps) simp
    then show ?thesis by (simp add: str_nat_def dec_val_def val_base_snoc)
  qed
qed

lemma positive_numeral_str_nat: "0 < n \<Longrightarrow> is_positive_numeral (str_nat n)"
  by (simp add: is_positive_numeral_def str_nat_digits hd_str_nat)

lemma dec_val_positive: "is_positive_numeral ds \<Longrightarrow> 0 < dec_val ds"
  using str_nat_dec_val [of ds] str_nat_0 by (cases "dec_val ds") (auto simp: is_positive_numeral_def)

lemma takeWhile_digits:
  assumes "list_all is_dec_digit ds" "r = [] \<or> \<not> is_dec_digit (hd r)"
  shows "takeWhile is_dec_digit (ds @ r) = ds" "dropWhile is_dec_digit (ds @ r) = r"
  using assms by (induction ds; cases r; simp)+

lemma digits_then_append:
  assumes "is_positive_numeral ds" "lit \<noteq> []" "\<not> is_dec_digit (hd lit)"
  shows "digits_then lit (ds @ lit @ r) = Some (ds, r)"
proof -
  have "takeWhile is_dec_digit (ds @ lit @ r) = ds" "dropWhile is_dec_digit (ds @ lit @ r) = lit @ r"
    using assms by (intro takeWhile_digits; auto simp: is_positive_numeral_def)+
  with assms(1) show ?thesis by (simp add: digits_then_def)
qed

lemma digits_then_Some:
  assumes "digits_then lit s = Some (ds, r)"
  shows "is_positive_numeral ds \<and> s = ds @ lit @ r"
proof -
  have "startswith (dropWhile is_dec_digit s) lit" "ds = takeWhile is_dec_digit s" "is_positive_numeral ds"
    "r = drop (length lit) (dropWhile is_dec_digit s)"
    using assms by (auto simp: digits_then_def Let_def split: if_splits)
  then show ?thesis
    by (metis append_eq_conv_conj startswith_iff takeWhile_dropWhile_id)
qed

lemma marker_literals:
  "\<not> is_dec_digit (hd '' start='')" "\<not> is_dec_digit (hd '' tun='')"
  by (simp_all add: is_dec_digit_def)

lemma NFT_OWNER_MARKER_Some:
  "NFT_OWNER_MARKER s = Some (p, st, t) \<longleftrightarrow>
     is_positive_numeral p \<and> is_positive_numeral st \<and> TUN_NAME t
     \<and> s = ''tcpcc.owner.v1 pid='' @ p @ '' start='' @ st @ '' tun='' @ t" (is "?L \<longleftrightarrow> ?R")
proof
  assume ?L
  then obtain s1 where s: "startswith s ''tcpcc.owner.v1 pid=''"
    "digits_then '' start='' (drop 19 s) = Some (p, s1)" "digits_then '' tun='' s1 = Some (st, t)" "TUN_NAME t"
    by (auto simp: NFT_OWNER_MARKER_def split: if_splits option.splits prod.splits)
  then obtain s0 where "s = ''tcpcc.owner.v1 pid='' @ s0" by (auto simp: startswith_iff)
  with s digits_then_Some [OF s(2)] digits_then_Some [OF s(3)] show ?R by simp
next
  assume r: ?R
  then have d: "drop 19 s = p @ '' start='' @ st @ '' tun='' @ t" "startswith s ''tcpcc.owner.v1 pid=''"
    by (simp_all add: startswith_def)
  have "digits_then '' start='' (p @ '' start='' @ st @ '' tun='' @ t) = Some (p, st @ '' tun='' @ t)"
    "digits_then '' tun='' (st @ '' tun='' @ t) = Some (st, t)"
    using r marker_literals by (intro digits_then_append; simp)+
  with r d show ?L unfolding NFT_OWNER_MARKER_def by (simp only: if_True option.case prod.case)
qed

lemma str_int_positive: "0 < i \<Longrightarrow> str_int i = str_nat (nat i)"
  by (simp add: str_int_def)

text \<open>
  C27: the marker pattern accepts exactly the markers of well-formed identities and its groups
  are the printed fields: every identity is recovered from its marker and no other text passes
  for one.
\<close>

theorem marker_round_trip:
  "NFT_OWNER_MARKER s = Some (p, st, t) \<longleftrightarrow>
     (\<exists>o'. s = marker o' \<and> 0 < ow_pid o' \<and> 0 < ow_start_time o' \<and> TUN_NAME (ow_tun_name o')
        \<and> p = str_int (ow_pid o') \<and> st = str_int (ow_start_time o') \<and> t = ow_tun_name o'
        \<and> int (dec_val p) = ow_pid o' \<and> int (dec_val st) = ow_start_time o')" (is "?L \<longleftrightarrow> ?R")
proof
  assume ?L
  then have n: "is_positive_numeral p" "is_positive_numeral st" "TUN_NAME t"
    "s = ''tcpcc.owner.v1 pid='' @ p @ '' start='' @ st @ '' tun='' @ t"
    by (simp_all only: NFT_OWNER_MARKER_Some)
  define o' where "o' = \<lparr>ow_pid = int (dec_val p), ow_start_time = int (dec_val st), ow_tun_name = t\<rparr>"
  have "str_int (int (dec_val p)) = p" "str_int (int (dec_val st)) = st"
    "0 < dec_val p" "0 < dec_val st"
    using n dec_val_positive str_nat_dec_val by (simp_all add: str_int_def)
  with n show ?R by (intro exI [of _ o']) (simp add: o'_def marker_def)
next
  assume ?R
  then show ?L
    by (auto simp: NFT_OWNER_MARKER_Some marker_def str_int_positive positive_numeral_str_nat)
qed

section \<open>The start time is found whatever the command is called\<close>

lemma split_by_join:
  assumes "parts \<noteq> []" "\<And>p x. p \<in> set parts \<Longrightarrow> x \<in> set p \<Longrightarrow> \<not> P x" "P c"
  shows "split_by P (join [c] parts) = parts"
  using assms
proof (induction "[c]" parts rule: join.induct)
  case (2 x)
  then show ?case by (auto simp: list_all_iff intro!: split_by_none)
next
  case (3 x y ys)
  have "split_by P (x @ c # join [c] (y # ys)) = x # split_by P (join [c] (y # ys))"
    using "3.prems" by (intro split_by_append_sep) (auto simp: list_all_iff)
  moreover have "split_by P (join [c] (y # ys)) = y # ys"
    using "3.prems" by (intro "3.hyps") auto
  ultimately show ?case by simp
qed simp

definition is_token :: "string \<Rightarrow> bool" where
  "is_token t \<longleftrightarrow> t \<noteq> [] \<and> list_all (\<lambda>c. \<not> is_space c) t"

lemma is_space_blank: "is_space (CHR '' '')" "is_space (CHR 0x0A)"
  by (simp_all add: is_space_def)

lemma py_split_join:
  assumes "parts \<noteq> []" "list_all is_token parts"
  shows "py_split ('' '' @ join '' '' parts) = parts"
proof -
  have "split_by is_space (join '' '' parts) = parts"
    using assms by (intro split_by_join) (auto simp: is_token_def list_all_iff is_space_blank)
  moreover have "filter (\<lambda>w. w \<noteq> []) parts = parts"
    using assms(2) by (simp add: filter_id_conv is_token_def list_all_iff)
  ultimately show ?thesis by (simp add: py_split_def is_space_blank)
qed

lemma py_int_str_nat: "py_int (str_nat n) = Some (int n)"
proof -
  have d: "list_all is_dec_digit (str_nat n)" by (rule str_nat_digits)
  then have hl: "is_dec_digit (hd (str_nat n))" "is_dec_digit (last (str_nat n))"
    by (simp_all add: list_all_iff)
  have strip: "py_strip (str_nat n) = str_nat n"
    using digit_not_space hl by (intro py_strip_id) blast
  have sign: "hd (str_nat n) \<notin> set ''+-''"
    using hl(1) by (auto simp: is_dec_digit_def)
  have "\<not> is_dec_digit (CHR ''_'')" by (simp add: is_dec_digit_def)
  then have "CHR ''_'' \<notin> set (str_nat n)" by (rule str_nat_char)
  then have "split_on (CHR ''_'') (str_nat n) = [str_nat n]"
    unfolding split_on_def by (intro split_by_none) (auto simp: list_all_iff)
  with strip sign d show ?thesis by (simp add: py_int_def Let_def)
qed

lemma py_strip_newline:
  assumes "v \<noteq> []" "\<not> is_space (hd v)" "\<not> is_space (last v)"
  shows "py_strip (v @ [CHR 0x0A]) = v"
proof -
  have "dropWhile is_space (v @ [CHR 0x0A]) = v @ [CHR 0x0A]" using assms(1,2) by (cases v) auto
  moreover have "dropWhile is_space (rev v) = rev v" using assms(1,3) by (intro dropWhile_id) (simp add: hd_rev)
  ultimately show ?thesis by (simp add: py_strip_def is_space_blank)
qed

lemma join_last: "parts \<noteq> [] \<Longrightarrow> last parts \<noteq> [] \<Longrightarrow> last (join sep parts) = last (last parts) \<and> join sep parts \<noteq> []"
proof (induction sep parts rule: join.induct)
  case (3 sep x y ys)
  then show ?case by (cases ys) auto
qed auto

definition stat_line :: "int \<Rightarrow> string \<Rightarrow> string list \<Rightarrow> string" where
  "stat_line pid command columns = str_int pid @ '' ('' @ command @ '') '' @ join '' '' columns"

text \<open>
  C39: the start time is the twenty-second field of the process's \<open>stat\<close> line, whatever the
  command is called: blanks and parentheses in it do not move the field.
\<close>

theorem process_start_time_any_command:
  assumes "reader (path_join (path_join proc_root (str_int pid)) ''stat'') s =
      (Inr (stat_line pid command columns @ [CHR 0x0A]), s')"
    and "0 \<le> pid" "20 \<le> length columns" "list_all is_token columns"
    and "list_all (\<lambda>f. CHR '')'' \<notin> set f) columns" "columns ! 19 = str_nat n" "0 < n"
  shows "process_start_time proc_root reader pid s = (Inr (int n), s')"
proof -
  define v where "v = stat_line pid command columns"
  have ne: "columns \<noteq> []" using assms(3) by auto
  then have tl: "is_token (last columns)" using assms(4) by (simp add: list_all_iff)
  have "is_dec_digit (hd (str_nat (nat pid)))" using str_nat_digits [of "nat pid"] by (simp add: list_all_iff)
  then have "\<not> is_space (hd v)" using digit_not_space assms(2) by (simp add: v_def stat_line_def str_int_def)
  moreover have "\<not> is_space (last v)"
    using join_last [OF ne, of "'' ''"] tl by (auto simp: v_def stat_line_def is_token_def list_all_iff)
  ultimately have strip: "py_strip (v @ [CHR 0x0A]) = v"
    by (intro py_strip_newline) (auto simp: v_def stat_line_def)
  have no: "CHR '')'' \<notin> set ('' '' @ join '' '' columns)"
    using set_join [of "'' ''" columns] assms(5) by (auto simp: list_all_iff)
  have v: "v = (str_int pid @ '' ('' @ command) @ CHR '')'' # ('' '' @ join '' '' columns)"
    by (simp add: v_def stat_line_def)
  have r: "rfind_char (CHR '')'') v = Some (length (str_int pid @ '' ('' @ command))"
    unfolding v by (rule rfind_char_append [OF no])
  have "drop (length xs + 1) (xs @ x # ys) = ys" for xs ys :: string and x by simp
  then have "drop (length (str_int pid @ '' ('' @ command) + 1) v = '' '' @ join '' '' columns"
    unfolding v by blast
  then have f: "py_split (drop (length (str_int pid @ '' ('' @ command) + 1) v) = columns"
    using py_split_join [OF ne assms(4)] by (simp only:)
  have "\<not> length columns \<le> 19" using assms(3) by simp
  with assms(1,6,7) strip r f show ?thesis
    unfolding v_def [symmetric]
    by (simp only: process_start_time_def pbind_def prod.case sum.case Let_def option.case if_False
        py_int_str_nat) (simp add: pret_def)
qed

definition stat_reader :: "string \<Rightarrow> (unit, string) py" where
  "stat_reader path = pret (stat_line 7 ''a) (b'' (replicate 20 ''5'') @ [CHR 0x0A])"

lemma digit_5: "str_nat 5 = ''5''"
  by code_simp

theorem process_start_time_any_command_witness:
  "process_start_time ''/proc'' stat_reader 7 () = (Inr 5, ())"
proof -
  have "stat_reader (path_join (path_join ''/proc'' (str_int 7)) ''stat'') () =
      (Inr (stat_line 7 ''a) (b'' (replicate 20 ''5'') @ [CHR 0x0A]), ())"
    by (simp only: stat_reader_def pret_def)
  moreover have "is_token ''5''" by code_simp
  then have "list_all is_token (replicate 20 ''5'')" by (simp only: list_all_iff) simp
  ultimately show ?thesis
    using process_start_time_any_command [of stat_reader "''/proc''" 7 "()" "''a) (b''" "replicate 20 ''5''" "()" 5]
    by (simp add: list_all_iff digit_5)
qed

section \<open>When the report blocks\<close>

text \<open>A reader that only looks.\<close>

definition reads_only :: "(string \<Rightarrow> ('s, string) py) \<Rightarrow> bool" where
  "reads_only reader \<longleftrightarrow> (\<forall>p s. snd (reader p s) = s)"

text \<open>A marked rule whose table and marker are well-formed and whose owner is still running.\<close>

definition rule_active :: "string \<Rightarrow> (string \<Rightarrow> ('s, string) py) \<Rightarrow> 's \<Rightarrow> json \<times> string \<Rightarrow> bool" where
  "rule_active proc_root reader s rule \<longleftrightarrow>
     (\<exists>t p st tun. fst rule = JStr t \<and> NFT_TABLE_NAME t \<and> NFT_OWNER_MARKER (snd rule) = Some (p, st, tun)
        \<and> fst (process_start_time proc_root reader (int (dec_val p)) s) = Inr (int (dec_val st)))"

text \<open>The table that a rule names, as a report writes it.\<close>

definition rule_table :: "json \<times> string \<Rightarrow> string" where
  "rule_table rule = (case json_str (fst rule) of Some t \<Rightarrow> t | None \<Rightarrow> ''malformed'')"

definition marked_rules :: "string \<Rightarrow> json list \<Rightarrow> (json \<times> string) list" where
  "marked_rules table_family entries = List.map_filter (marked_rule table_family) entries"

lemma process_start_time_keeps: "reads_only reader \<Longrightarrow> snd (process_start_time root' reader pid s) = s"
  by (auto simp: reads_only_def process_start_time_def pbind_def Let_def praise_def pret_def
      split: prod.splits sum.splits option.splits) (metis snd_conv)+

lemma owner_status_result:
  assumes "reads_only reader" "owner_status root' reader pid st s = (Inr (status, detail), s')"
  shows "s' = s \<and> (status = ''active'' \<longleftrightarrow> fst (process_start_time root' reader pid s) = Inr st)"
proof -
  obtain r where r: "process_start_time root' reader pid s = (r, s)"
    using process_start_time_keeps [OF assms(1)] by (metis prod.collapse)
  show ?thesis
    using assms(2) r
    by (cases r) (auto simp: owner_status_def phandle_def pbind_def pret_def praise_def split: if_splits)
qed

lemma observe_rule_result:
  assumes "reads_only reader" "observe_rule fam root' reader table comment s = (Inr ob, s')"
  shows "s' = s \<and> ob_name ob = rule_table (table, comment)
    \<and> (ob_status ob = ''active'' \<longleftrightarrow> rule_active root' reader s (table, comment))"
proof -
  define valid where "valid = (case json_str table of Some t \<Rightarrow> NFT_TABLE_NAME t | None \<Rightarrow> False)"
  have valid: "valid \<longleftrightarrow> (\<exists>t. table = JStr t \<and> NFT_TABLE_NAME t)"
    by (cases table) (auto simp: valid_def)
  note u = assms(2) [unfolded observe_rule_def Let_def valid_def [symmetric]]
  show ?thesis
  proof (cases "NFT_OWNER_MARKER comment")
    case None
    with u show ?thesis
      by (simp add: pret_def malformed_marker_def rule_active_def rule_table_def) auto
  next
    case (Some m)
    obtain p st tun where m: "m = (p, st, tun)" by (cases m) auto
    show ?thesis
    proof (cases valid)
      case False
      with u Some m have "s' = s" "ob_status ob = ''malformed''" "ob_name ob = rule_table (table, comment)"
        by (auto simp: pret_def malformed_marker_def rule_table_def)
      with False valid show ?thesis by (auto simp: rule_active_def)
    next
      case True
      with u Some m obtain status detail where
        o: "owner_status root' reader (int (dec_val p)) (int (dec_val st)) s = (Inr (status, detail), s')"
          "ob_status ob = status" "ob_name ob = rule_table (table, comment)"
        by (auto simp: pbind_eq_Inr pret_def rule_table_def)
      from owner_status_result [OF assms(1) o(1)] o(2,3) True valid Some m show ?thesis
        by (auto simp: rule_active_def)
    qed
  qed
qed

lemma observe_entries_result:
  assumes "reads_only reader" "observe_entries fam root' reader entries s = (Inr obs, s')"
  shows "s' = s \<and> list_all2 (\<lambda>ob rule. ob_name ob = rule_table rule
      \<and> (ob_status ob = ''active'' \<longleftrightarrow> rule_active root' reader s rule)) obs (marked_rules fam entries)"
  using assms(2)
proof (induction entries arbitrary: obs s')
  case Nil
  then show ?case by (simp add: pret_def marked_rules_def)
next
  case (Cons entry entries)
  show ?case
  proof (cases "marked_rule fam entry")
    case None
    with Cons show ?thesis by (simp add: marked_rules_def map_filter_simps)
  next
    case (Some rule)
    obtain table comment where rule: "rule = (table, comment)" by fastforce
    with Cons.prems Some obtain ob s1 obs' where
      o: "observe_rule fam root' reader table comment s = (Inr ob, s1)"
        "observe_entries fam root' reader entries s1 = (Inr obs', s')" "obs = ob # obs'"
      by (auto simp: pbind_eq_Inr pret_def)
    with observe_rule_result [OF assms(1) o(1)] Cons.IH [of obs' s'] Some rule show ?thesis
      by (simp add: marked_rules_def map_filter_simps)
  qed
qed

lemma list_all2_list_ex:
  assumes "list_all2 R xs ys" "\<And>x y. R x y \<Longrightarrow> P x \<longleftrightarrow> Q y"
  shows "list_ex P xs \<longleftrightarrow> list_ex Q ys"
  using assms(1) by (induction rule: list_all2_induct) (simp_all add: assms(2))

lemma list_ex_sort_key: "list_ex P (sort_key f xs) \<longleftrightarrow> list_ex P xs"
  by (simp add: list_ex_iff)

text \<open>
  C15: the inspection changes nothing and reports every marked rule of the family under the name of
  its table, once each and sorted by table, as active exactly where the rule is well-formed and its
  owner, the process of that pid with that start time, is running; it blocks exactly when some
  marked rule is not active.
\<close>

theorem inspect_nft_ownership_blocks_iff:
  assumes "reads_only reader"
    and "runner [nft_path, ''--json'', ''list'', ''ruleset'', table_family] s = (Inr raw, s1)"
    and "inspect_nft_ownership table_family nft_path runner proc_root reader s = (Inr report, s')"
  shows "\<exists>entries obs. ruleset_entries raw = Inr entries \<and> s' = s1
     \<and> report_observations report = sort_key ob_name obs
     \<and> length (report_observations report) = length (marked_rules table_family entries)
     \<and> sorted (map ob_name (report_observations report))
     \<and> list_all2 (\<lambda>ob rule. ob_name ob = rule_table rule
          \<and> (ob_status ob = ''active'' \<longleftrightarrow> rule_active proc_root reader s1 rule)) obs (marked_rules table_family entries)
     \<and> (blocking report \<longleftrightarrow>
          list_ex (\<lambda>rule. \<not> rule_active proc_root reader s1 rule) (marked_rules table_family entries))"
proof -
  from assms(2,3) obtain entries obs where e: "ruleset_entries raw = Inr entries"
    and o: "observe_entries table_family proc_root reader entries s1 = (Inr obs, s')"
    and r: "report = NftOwnershipReport (sort_key ob_name obs)"
    by (auto simp: inspect_nft_ownership_def pbind_eq_Inr plift_def praise_def pret_def split: if_splits)
  note obs = observe_entries_result [OF assms(1) o]
  have "list_ex (\<lambda>ob. ob_status ob \<noteq> ''active'') obs \<longleftrightarrow>
      list_ex (\<lambda>rule. \<not> rule_active proc_root reader s1 rule) (marked_rules table_family entries)"
    by (rule list_all2_list_ex [OF conjunct2 [OF obs]]) simp
  with e r obs list_all2_lengthD [OF conjunct2 [OF obs]] show ?thesis
    by (intro exI [of _ entries] exI [of _ obs]) (simp add: blocking_def list_ex_sort_key)
qed

text \<open>
  A listing with one rule whose owner is process 7 started at 5, which the reader above shows
  to be running, and one rule whose owner is another process.
\<close>

definition listed_rule :: "string \<Rightarrow> NftOwnership \<Rightarrow> json" where
  "listed_rule table o' =
     JObj [(''rule'', JObj [(''family'', JStr ''ip''), (''table'', JStr table), (''comment'', JStr (marker o'))])]"

definition sample_listing :: "json list" where
  "sample_listing =
     [JObj [(''metainfo'', JNull)],
      listed_rule ''tcpcc_a'' \<lparr>ow_pid = 7, ow_start_time = 5, ow_tun_name = ''tcpcc0''\<rparr>,
      listed_rule ''tcpcc_b'' \<lparr>ow_pid = 7, ow_start_time = 6, ow_tun_name = ''tcpcc1''\<rparr>]"

definition sample_runner :: "string list \<Rightarrow> (unit, string) py" where
  "sample_runner argv = pret (dumps (JObj [(''nftables'', JList sample_listing)]))"

lemma ruleset_sample: "ruleset_entries (dumps (JObj [(''nftables'', JList sample_listing)])) = Inr sample_listing"
proof -
  have "no_float (JObj [(''nftables'', JList sample_listing)])"
    by (simp add: sample_listing_def listed_rule_def)
  from loads_dumps [OF this] show ?thesis
    unfolding ruleset_entries_def by (simp add: jget_def del: dumps.simps)
qed

lemma marked_sample:
  "marked_rules ''ip'' sample_listing =
     [(JStr ''tcpcc_a'', marker \<lparr>ow_pid = 7, ow_start_time = 5, ow_tun_name = ''tcpcc0''\<rparr>),
      (JStr ''tcpcc_b'', marker \<lparr>ow_pid = 7, ow_start_time = 6, ow_tun_name = ''tcpcc1''\<rparr>)]"
proof -
  have "startswith (marker o') NFT_OWNER_PREFIX" for o'
    by (simp add: marker_def NFT_OWNER_PREFIX_def startswith_def)
  then have "marked_rule ''ip'' (listed_rule t o') = Some (JStr t, marker o')" for t o'
    by (simp add: marked_rule_def listed_rule_def jget_def)
  moreover have "marked_rule ''ip'' (JObj [(''metainfo'', JNull)]) = None"
    by (simp add: marked_rule_def jget_def)
  ultimately show ?thesis by (simp add: marked_rules_def sample_listing_def map_filter_simps)
qed

definition reader_os_errors :: "(string \<Rightarrow> ('s, string) py) \<Rightarrow> bool" where
  "reader_os_errors reader \<longleftrightarrow> (\<forall>p s e s'. reader p s = (Inl e, s') \<longrightarrow> is_OSError e \<or> is_ValueError e)"

lemma process_start_time_error:
  assumes "reader_os_errors reader" "process_start_time root' reader pid s = (Inl e, s')"
  shows "is_OSError e \<or> is_ValueError e"
proof -
  let ?path = "path_join (path_join root' (str_int pid)) ''stat''"
  obtain r s1 where r: "reader ?path s = (r, s1)" by fastforce
  show ?thesis
  proof (cases r)
    case (Inl e')
    with assms(2) r have "e' = e" by (simp add: process_start_time_def pbind_def)
    with assms(1) r Inl show ?thesis unfolding reader_os_errors_def by blast
  next
    case (Inr raw)
    with assms(2) r show ?thesis
      by (auto simp: process_start_time_def pbind_def Let_def praise_def pret_def
          split: option.splits if_splits)
  qed
qed

lemma owner_status_returns: "reader_os_errors reader \<Longrightarrow> returns (owner_status root' reader pid st)"
  unfolding owner_status_def
  by (rule returns_phandle [where P = "\<lambda>e. is_OSError e \<or> is_ValueError e"])
    (unfold pbind_eq_Inl pret_def, auto dest: process_start_time_error simp: returns_def)

lemma observe_entries_returns:
  assumes "reader_os_errors reader"
  shows "returns (observe_entries fam root' reader entries)"
proof (induction entries)
  case (Cons entry entries)
  have "returns (observe_rule fam root' reader table comment)" for table comment
    unfolding observe_rule_def Let_def
    by (auto split: option.split prod.split intro!: returns_intros owner_status_returns assms)
  with Cons show ?case by (auto split: option.split intro!: returns_intros)
qed (simp add: returns_intros)

theorem inspect_nft_ownership_blocks_iff_witness:
  "\<exists>report. inspect_nft_ownership ''ip'' ''nft'' sample_runner ''/proc'' stat_reader () = (Inr report, ())
     \<and> length (report_observations report) = 2"
proof -
  have ro: "reads_only stat_reader" by (simp add: reads_only_def stat_reader_def pret_def)
  have re: "reader_os_errors stat_reader" by (simp add: reader_os_errors_def stat_reader_def pret_def)
  have run: "sample_runner [''nft'', ''--json'', ''list'', ''ruleset'', ''ip''] () =
      (Inr (dumps (JObj [(''nftables'', JList sample_listing)])), ())"
    by (simp only: sample_runner_def pret_def)
  obtain obs where "observe_entries ''ip'' ''/proc'' stat_reader sample_listing () = (Inr obs, ())"
    using observe_entries_returns [OF re] unfolding returns_def by force
  then have i: "inspect_nft_ownership ''ip'' ''nft'' sample_runner ''/proc'' stat_reader () =
      (Inr (NftOwnershipReport (sort_key ob_name obs)), ())"
    using run ruleset_sample
    by (simp add: inspect_nft_ownership_def is_executable_name_def pbind_def plift_def pret_def)
  from inspect_nft_ownership_blocks_iff [OF ro run i] ruleset_sample marked_sample i show ?thesis by auto
qed

text \<open>
  The JSON form of an ownership report reads back with the schema and the verdict of the
  report.
\<close>

lemma report_to_json_reads_back:
  "\<exists>ms. json_loads (report_to_json r) = Some (JObj ms)
     \<and> jget ''blocking'' ms = JBool (blocking r)
     \<and> jget ''schema'' ms = JStr (case r of NftOwnershipReport _ \<Rightarrow> ''tcpcc.nft-ownership.v1''
                                  | IptablesOwnershipReport _ \<Rightarrow> ''tcpcc.iptables-ownership.v1'')"
proof -
  have nf: "no_float (observation_as_dict k ob)" for k ob
    by (simp add: observation_as_dict_def optional_def split: option.split)
  then have "no_float (report_as_dict r)" by (cases r) auto
  then have l: "json_loads (report_to_json r) = Some (sort_keys (report_as_dict r))"
    unfolding report_to_json_def by (rule loads_json_dumps)
  obtain ms where ms: "report_as_dict r = JObj ms" "distinct (map fst ms)"
    "jget ''blocking'' ms = JBool (blocking r)"
    "jget ''schema'' ms = JStr (case r of NftOwnershipReport _ \<Rightarrow> ''tcpcc.nft-ownership.v1''
                                  | IptablesOwnershipReport _ \<Rightarrow> ''tcpcc.iptables-ownership.v1'')"
    by (cases r) (auto simp: jget_def)
  let ?ms = "map (\<lambda>(k, v). (k, sort_keys v)) ms"
  have "jget k (sort_key fst ?ms) = sort_keys (jget k ms)" for k
  proof -
    have "distinct (map fst ?ms)" using ms(2) by (simp add: o_def case_prod_unfold)
    then have "jget k (sort_key fst ?ms) = jget k ?ms" by (rule jget_sorted)
    also have "map_of (rev ?ms) k = map_option sort_keys (map_of (rev ms) k)"
      by (simp add: rev_map map_of_map)
    then have "jget k ?ms = sort_keys (jget k ms)" by (simp add: jget_def split: option.split)
    finally show ?thesis .
  qed
  with l ms show ?thesis by (intro exI [of _ "sort_key fst ?ms"]) simp
qed

end
