(* ===== verification/Journal.thy ===== *)
theory Journal
  imports Errors
begin

text \<open>
  \<^verbatim>\<open>OwnershipJournal\<close> of \<^verbatim>\<open>tools/tcpcc_host.py\<close>, the list of cleanup callbacks that
  the host-network transaction and its lease unwind, and the contract that everything with a
  \<^verbatim>\<open>close\<close> method keeps (locale \<open>lease\<close>): closing marks the object closed before any effect
  and whatever the outcome, and closing a closed object does nothing.

  A callback is a computation on an arbitrary state.  The journal is passed and returned
  beside that state: a callback that would call back into the journal it is registered with
  is outside the model.
\<close>

type_synonym 's callback = "('s, unit) py"

record 's journal =
  j_entries :: "(string \<times> 's callback) list"
  j_closed :: bool

definition OwnershipJournal :: "'s journal" where
  "OwnershipJournal = \<lparr>j_entries = [], j_closed = False\<rparr>"

definition defer_callback :: "string \<Rightarrow> 's callback \<Rightarrow> 's journal \<Rightarrow> exn + 's journal" where
  "defer_callback label callback j =
     (if j_closed j then Inl (RuntimeError ''cannot add a resource to a closed journal'')
      else if label = [] then Inl (ValueError ''cleanup label must not be empty'')
      else Inr (j\<lparr>j_entries := j_entries j @ [(label, callback)]\<rparr>))"

text \<open>The loop of \<open>close\<close>: every callback runs, the failures are collected.\<close>

fun run_callbacks :: "(string \<times> 's callback) list \<Rightarrow> 's \<Rightarrow> (string \<times> exn) list \<times> 's" where
  "run_callbacks [] s = ([], s)"
| "run_callbacks ((label, callback) # entries) s =
     (case callback s of
        (r, s') \<Rightarrow>
          (case run_callbacks entries s' of
             (failures, s'') \<Rightarrow>
               (case r of Inl e \<Rightarrow> ((label, e) # failures, s'') | Inr _ \<Rightarrow> (failures, s''))))"

definition close_journal :: "'s journal \<Rightarrow> 's \<Rightarrow> (exn + unit) \<times> 's journal \<times> 's" where
  "close_journal j s =
     (if j_closed j then (Inr (), j, s)
      else
        (case run_callbacks (rev (j_entries j)) s of
           (failures, s') \<Rightarrow>
             (if failures = [] then Inr () else Inl (CleanupError failures),
              \<lparr>j_entries = [], j_closed = True\<rparr>, s')))"

section \<open>The contract of close\<close>

locale lease =
  fixes close :: "'h \<Rightarrow> 's \<Rightarrow> (exn + unit) \<times> 'h \<times> 's"
    and closed :: "'h \<Rightarrow> bool"
  assumes close_closes: "close h s = (r, h', s') \<Longrightarrow> closed h'"
    and close_again: "closed h \<Longrightarrow> close h s = (Inr (), h, s)"
begin

text \<open>Closing any number of times has the effect of closing once.\<close>

fun close_times :: "nat \<Rightarrow> 'h \<Rightarrow> 's \<Rightarrow> (exn + unit) list \<times> 'h \<times> 's" where
  "close_times 0 h s = ([], h, s)"
| "close_times (Suc n) h s =
     (case close h s of (r, h', s') \<Rightarrow> (case close_times n h' s' of (rs, x) \<Rightarrow> (r # rs, x)))"

lemma close_times_closed: "closed h \<Longrightarrow> close_times n h s = (replicate n (Inr ()), h, s)"
  by (induction n) (simp_all add: close_again)

lemma close_times_Suc:
  assumes "close h s = (r, h', s')"
  shows "close_times (Suc n) h s = (r # replicate n (Inr ()), h', s')"
  using close_times_closed [OF close_closes [OF assms], of n s'] assms by simp

end

interpretation journal: lease close_journal j_closed
  by standard (auto simp: close_journal_def split: if_splits prod.splits)

section \<open>What closing does\<close>

text \<open>The states between the callbacks, and the failures among them, read off directly.\<close>

definition callback_state :: "(string \<times> 's callback) list \<Rightarrow> 's \<Rightarrow> 's" where
  "callback_state entries s = foldl (\<lambda>s entry. snd (snd entry s)) s entries"

definition callback_failures :: "(string \<times> 's callback) list \<Rightarrow> 's \<Rightarrow> (string \<times> exn) list" where
  "callback_failures entries s =
     concat (map (\<lambda>k. case fst (snd (entries ! k) (callback_state (take k entries) s)) of
                        Inl e \<Rightarrow> [(fst (entries ! k), e)] | Inr _ \<Rightarrow> [])
               [0..<length entries])"

lemma callback_state_simps [simp]:
  "callback_state [] s = s"
  "callback_state (entry # entries) s = callback_state entries (snd (snd entry s))"
  by (simp_all add: callback_state_def)

lemma callback_failures_Nil [simp]: "callback_failures [] s = []"
  by (simp add: callback_failures_def)

lemma callback_failures_Cons:
  "callback_failures (entry # entries) s =
     (case fst (snd entry s) of Inl e \<Rightarrow> [(fst entry, e)] | Inr _ \<Rightarrow> [])
     @ callback_failures entries (snd (snd entry s))"
  by (simp add: callback_failures_def upt_conv_Cons map_Suc_upt [symmetric] o_def
      del: upt_Suc cong: sum.case_cong)

lemma run_callbacks_eq: "run_callbacks entries s = (callback_failures entries s, callback_state entries s)"
proof (induction entries s rule: run_callbacks.induct)
  case (2 label callback entries s)
  obtain r s' where "callback s = (r, s')" by fastforce
  with 2 show ?case by (simp add: callback_failures_Cons split: sum.splits)
qed simp

text \<open>Callbacks that also note in a log that they ran, numbered in the order of registration.\<close>

definition logged :: "nat \<Rightarrow> 's callback \<Rightarrow> (nat list \<times> 's) callback" where
  "logged i callback = (\<lambda>(ls, s). case callback s of (r, s') \<Rightarrow> (r, (ls @ [i], s')))"

definition logged_entries :: "(string \<times> 's callback) list \<Rightarrow> (string \<times> (nat list \<times> 's) callback) list" where
  "logged_entries entries = map (\<lambda>(i, (label, callback)). (label, logged i callback)) (enumerate 0 entries)"

fun defer_all :: "(string \<times> 's callback) list \<Rightarrow> 's journal \<Rightarrow> exn + 's journal" where
  "defer_all [] j = Inr j"
| "defer_all ((label, callback) # entries) j =
     rbind (defer_callback label callback j) (defer_all entries)"

lemma defer_all_open:
  assumes "\<not> j_closed j" "list_all (\<lambda>(label, callback). label \<noteq> []) entries"
  shows "defer_all entries j = Inr (j\<lparr>j_entries := j_entries j @ entries\<rparr>)"
  using assms by (induction entries j rule: defer_all.induct) (auto simp: defer_callback_def)

lemma logged_state:
  "callback_state (map (\<lambda>(i, (label, callback)). (label, logged i callback)) es) (ls, s) =
     (ls @ map fst es, callback_state (map snd es) s)"
  by (induction es arbitrary: ls s) (auto simp: logged_def split: prod.splits)

lemma logged_failures:
  "callback_failures (map (\<lambda>(i, (label, callback)). (label, logged i callback)) es) (ls, s) =
     callback_failures (map snd es) s"
  by (induction es arbitrary: ls s) (auto simp: logged_def callback_failures_Cons split: prod.splits sum.splits)

lemma logged_labels: "map fst (logged_entries entries) = map fst entries"
proof -
  have "map fst (logged_entries entries) = map fst (map snd (enumerate 0 entries))"
    unfolding logged_entries_def map_map by (rule map_cong) auto
  then show ?thesis by simp
qed

lemma labels_list_all:
  "list_all (\<lambda>(label, callback). label \<noteq> []) es \<longleftrightarrow> list_all (\<lambda>label. label \<noteq> []) (map fst es)"
  by (induction es) auto

text \<open>
  C8: callbacks registered with a fresh journal all run when it is closed, each exactly once
  and in the reverse order of registration, also when some of them raise and however often
  \<open>close\<close> is called; the failures are reported together, in the order in which they
  happened, by the first call, the later calls return, and nothing can be registered any more.
\<close>

theorem journal_runs_each_once:
  assumes "list_all (\<lambda>(label, callback). label \<noteq> []) entries"
  shows "\<exists>j j'. defer_all (logged_entries entries) OwnershipJournal = Inr j
     \<and> journal.close_times (Suc n) j ([], s) =
         ((if callback_failures (rev entries) s = [] then Inr ()
           else Inl (CleanupError (callback_failures (rev entries) s))) # replicate n (Inr ()),
          j', (rev [0..<length entries], callback_state (rev entries) s))
     \<and> (\<forall>label callback. \<exists>e. defer_callback label callback j' = Inl e)"
proof -
  define j where "j = \<lparr>j_entries = logged_entries entries, j_closed = False\<rparr>"
  define j' :: "(nat list \<times> 'a) journal" where "j' = \<lparr>j_entries = [], j_closed = True\<rparr>"
  define es where "es = rev (enumerate 0 entries)"
  have "list_all (\<lambda>(label, callback). label \<noteq> []) (logged_entries entries)"
    using assms logged_labels [of entries] unfolding labels_list_all by simp
  then have d: "defer_all (logged_entries entries) OwnershipJournal = Inr j"
    by (simp add: defer_all_open OwnershipJournal_def j_def)
  have es: "map fst es = rev [0..<length entries]" "map snd es = rev entries"
    by (simp_all add: es_def rev_map [symmetric])
  have "rev (logged_entries entries) = map (\<lambda>(i, (label, callback)). (label, logged i callback)) es"
    by (simp add: logged_entries_def es_def rev_map)
  then have "close_journal j ([], s) =
      ((if callback_failures (rev entries) s = [] then Inr ()
        else Inl (CleanupError (callback_failures (rev entries) s))), j',
       (rev [0..<length entries], callback_state (rev entries) s))"
    by (simp add: close_journal_def j_def j'_def run_callbacks_eq logged_state logged_failures es)
  from journal.close_times_Suc [OF this, of n] d show ?thesis
    by (intro exI [of _ j] exI [of _ j']) (simp add: defer_callback_def j'_def)
qed

theorem journal_runs_each_once_witness:
  "\<exists>j j'. defer_all (logged_entries [(''tun:a'', pret ()), (''nft:b'', praise (ValueError ''x''))])
       OwnershipJournal = Inr j
     \<and> journal.close_times (Suc 2) j ([], ()) =
         ([Inl (CleanupError [(''nft:b'', ValueError ''x'')]), Inr (), Inr ()], j', ([1, 0], ()))"
proof -
  let ?es = "[(''tun:a'', pret ()), (''nft:b'', praise (ValueError ''x''))] :: (string \<times> unit callback) list"
  have l: "list_all (\<lambda>(label, callback). label \<noteq> []) ?es" by simp
  have f: "callback_failures (rev ?es) () = [(''nft:b'', ValueError ''x'')]"
    by (simp add: callback_failures_Cons pret_def praise_def)
  have u: "rev [0..<length ?es] = [1, 0]" by (simp add: upt_conv_Cons)
  from journal_runs_each_once [OF l, of 2 "()"] show ?thesis
    unfolding f u by (auto simp: numeral_2_eq_2)
qed

end
