(* ===== verification/Tun.thy ===== *)
theory Tun
  imports Host_Names Journal
begin

text \<open>
  The TUN queue of \<^verbatim>\<open>tools/tcpcc_host.py\<close>: \<^verbatim>\<open>TunConfig\<close>, \<^verbatim>\<open>TunQueue\<close> and
  \<^verbatim>\<open>create_tun_queue\<close>, which opens the TUN device, attaches an exclusive interface,
  configures it with the \<^verbatim>\<open>ip\<close> command and retries under another generated name when the
  name is taken.

  Opening, \<^verbatim>\<open>ioctl\<close>, closing, running a command and making a name up are the fields of
  \<open>tun_os\<close>, on an arbitrary state.  \<^verbatim>\<open>ioctl\<close> returns the buffer it has changed.  The main
  results: no descriptor is lost on any path, the retries are bounded, and a returned queue
  belongs to a fresh interface of the requested name.
\<close>

section \<open>Configuration\<close>

record TunConfig =
  tc_host_address :: string
  tc_guest_address :: string
  tc_mtu :: int
  tc_name :: "string option"

definition MIN_IPV4_MTU :: int where "MIN_IPV4_MTU = 68"
definition MIN_IPV6_MTU :: int where "MIN_IPV6_MTU = 1280"
definition MAX_IPV4_MTU :: int where "MAX_IPV4_MTU = 65535"

definition address_argument :: "pyval \<Rightarrow> string \<Rightarrow> exn + ip_address" where
  "address_argument v field =
     (case v of
        PStr text \<Rightarrow> (case ip_address text of
                        Some a \<Rightarrow> Inr a
                      | None \<Rightarrow> Inl (ValueError (field @ '' must be one IP address'')))
      | _ \<Rightarrow> Inl (ValueError (field @ '' must be one IP address'')))"

definition is_str :: "pyval \<Rightarrow> bool" where
  "is_str v \<longleftrightarrow> (case v of PStr t \<Rightarrow> True | _ \<Rightarrow> False)"

definition mtu_argument :: "int \<Rightarrow> pyval \<Rightarrow> exn + int" where
  "mtu_argument minimum v =
     (let bad = Inl (ValueError (''TUN MTU must be an integer from '' @ str_int minimum @ '' through ''
                                 @ str_int MAX_IPV4_MTU))
      in case v of PInt m \<Rightarrow> (if minimum \<le> m \<and> m \<le> MAX_IPV4_MTU then Inr m else bad) | _ \<Rightarrow> bad)"

definition name_argument :: "pyval \<Rightarrow> exn + string option" where
  "name_argument v =
     (case v of PNone \<Rightarrow> Inr None | _ \<Rightarrow> rbind (validate_tun_name v) (\<lambda>n. Inr (Some n)))"

text \<open>\<open>TunConfig(host_address, guest_address, mtu, name)\<close> with its \<open>__post_init__\<close>.\<close>

definition TunConfig_init :: "pyval \<Rightarrow> pyval \<Rightarrow> pyval \<Rightarrow> pyval \<Rightarrow> exn + TunConfig" where
  "TunConfig_init host_address guest_address mtu name =
     rbind (rguard (is_str host_address) (ValueError ''host_address must be one IP address'')) (\<lambda>_.
     rbind (rguard (is_str guest_address) (ValueError ''guest_address must be one IP address'')) (\<lambda>_.
     rbind (address_argument host_address ''host_address'') (\<lambda>host_ip.
     rbind (address_argument guest_address ''guest_address'') (\<lambda>guest_ip.
     rbind (rguard (ip_version host_ip = ip_version guest_ip)
              (ValueError ''host_address and guest_address families must match'')) (\<lambda>_.
     rbind (rguard (\<not> (is_unspecified host_ip \<or> is_unspecified guest_ip
                       \<or> is_multicast host_ip \<or> is_multicast guest_ip))
              (ValueError ''host_address and guest_address must be usable unicast'')) (\<lambda>_.
     rbind (rguard (host_ip \<noteq> guest_ip)
              (ValueError ''host_address and guest_address must be different'')) (\<lambda>_.
     rbind (mtu_argument (if ip_version host_ip = 4 then MIN_IPV4_MTU else MIN_IPV6_MTU) mtu) (\<lambda>m.
     rbind (name_argument name) (\<lambda>n.
       Inr \<lparr>tc_host_address = ip_str host_ip, tc_guest_address = ip_str guest_ip, tc_mtu = m,
            tc_name = n\<rparr>)))))))))"

section \<open>The queue\<close>

record tun_queue =
  tq_name :: string
  tq_fd :: "int option"

definition TunQueue_fd :: "tun_queue \<Rightarrow> exn + int" where
  "TunQueue_fd q = (case tq_fd q of None \<Rightarrow> Inl (ValueError ''TUN queue is closed'') | Some fd \<Rightarrow> Inr fd)"

definition TunQueue_closed :: "tun_queue \<Rightarrow> bool" where
  "TunQueue_closed q \<longleftrightarrow> tq_fd q = None"

definition TunQueue_close ::
  "(int \<Rightarrow> ('s, unit) py) \<Rightarrow> tun_queue \<Rightarrow> 's \<Rightarrow> (exn + unit) \<times> tun_queue \<times> 's" where
  "TunQueue_close closer q s =
     (case tq_fd q of
        None \<Rightarrow> (Inr (), q, s)
      | Some fd \<Rightarrow> (case closer fd s of (r, s') \<Rightarrow> (r, q\<lparr>tq_fd := None\<rparr>, s')))"

interpretation tun_queue: lease "TunQueue_close closer" TunQueue_closed
  for closer :: "int \<Rightarrow> ('s, unit) py"
  by standard (auto simp: TunQueue_close_def TunQueue_closed_def split: option.splits prod.splits)

section \<open>Attaching the interface\<close>

definition TUNSETIFF :: nat where "TUNSETIFF = 0x400454CA"
definition IFF_TUN :: nat where "IFF_TUN = 0x0001"
definition IFF_NO_PI :: nat where "IFF_NO_PI = 0x1000"
definition IFF_TUN_EXCL :: nat where "IFF_TUN_EXCL = 0x8000"
definition IFNAMSIZ :: nat where "IFNAMSIZ = 16"
definition IFREQ_SIZE :: nat where "IFREQ_SIZE = 40"
definition DEFAULT_TUN_MTU :: int where "DEFAULT_TUN_MTU = 1500"
definition DEFAULT_NAME_ATTEMPTS :: int where "DEFAULT_NAME_ATTEMPTS = 8"

text \<open>The flags have no bit in common, so their union is their sum.\<close>

definition TUN_IFF_FLAGS :: nat where
  "TUN_IFF_FLAGS = IFF_TUN + IFF_NO_PI + IFF_TUN_EXCL"

text \<open>\<open>O_RDWR | O_NONBLOCK | O_CLOEXEC\<close> on Linux.\<close>

definition OPEN_FLAGS :: int where
  "OPEN_FLAGS = 2 + 2048 + 524288"

definition EBUSY :: int where "EBUSY = 16"
definition EEXIST :: int where "EEXIST = 17"

definition encode_ascii :: "string \<Rightarrow> bytes" where
  "encode_ascii t = map (\<lambda>c. of_nat (of_char c)) t"

text \<open>\<open>struct.pack_into("16sH", ...)\<close> into a zeroed buffer, on a little-endian machine.\<close>

definition ifreq :: "string \<Rightarrow> bytes" where
  "ifreq name =
     fit_bytes IFNAMSIZ (encode_ascii name) @ unsigned_bytes 2 (int TUN_IFF_FLAGS)
     @ replicate (IFREQ_SIZE - IFNAMSIZ - 2) 0"

definition attached_name :: "bytes \<Rightarrow> exn + string" where
  "attached_name request =
     (let encoded = takeWhile (\<lambda>b. b \<noteq> 0) (take IFNAMSIZ request)
      in if list_all (\<lambda>b. unat b < 128) encoded then Inr (map (\<lambda>b. char_of (unat b)) encoded)
         else Inl (RuntimeError ''TUNSETIFF returned a non-ASCII interface name''))"

record 's tun_os =
  os_open :: "string \<Rightarrow> int \<Rightarrow> ('s, int) py"
  os_ioctl :: "int \<Rightarrow> nat \<Rightarrow> bytes \<Rightarrow> ('s, bytes) py"
  os_close :: "int \<Rightarrow> ('s, unit) py"
  os_run :: "string list \<Rightarrow> ('s, unit) py"
  os_new_name :: "('s, string) py"

text \<open>
  The body of the \<open>try\<close> in one attempt.  Its exceptions carry \<open>name_collision\<close>, which only
  a refused \<open>ioctl\<close> on a generated name sets.
\<close>

definition tag :: "(exn \<Rightarrow> bool) \<Rightarrow> ('s, 'a) py \<Rightarrow> (exn \<times> bool, 's, 'a) pym" where
  "tag collision m s = (case m s of (Inl e, s') \<Rightarrow> (Inl (e, collision e), s') | (Inr x, s') \<Rightarrow> (Inr x, s'))"

definition name_taken :: "exn \<Rightarrow> bool" where
  "name_taken e \<longleftrightarrow> is_OSError e \<and> (os_errno e = Some EBUSY \<or> os_errno e = Some EEXIST)"

definition configure_interface ::
  "'s tun_os \<Rightarrow> string \<Rightarrow> TunConfig \<Rightarrow> ip_address \<Rightarrow> ip_address \<Rightarrow> string \<Rightarrow> ('s, unit) py" where
  "configure_interface os ip_path config host_ip guest_ip name =
     pthen (os_run os [ip_path, ''address'', ''add'',
                       tc_host_address config @ ''/'' @ str_int (max_prefixlen host_ip), ''peer'',
                       tc_guest_address config @ ''/'' @ str_int (max_prefixlen guest_ip), ''dev'', name])
     (pthen (os_run os [ip_path, ''link'', ''set'', ''dev'', name, ''mtu'', str_int (tc_mtu config), ''up''])
       (if ip_version host_ip = 6
        then os_run os [ip_path, ''-6'', ''route'', ''replace'', tc_guest_address config @ ''/128'',
                        ''dev'', name, ''src'', tc_host_address config]
        else pret ()))"

definition setup_tun ::
  "'s tun_os \<Rightarrow> string \<Rightarrow> TunConfig \<Rightarrow> ip_address \<Rightarrow> ip_address \<Rightarrow> bool \<Rightarrow> string \<Rightarrow> int
   \<Rightarrow> (exn \<times> bool, 's, string) pym" where
  "setup_tun os ip_path config host_ip guest_ip generated name fd =
     pbind (tag (\<lambda>e. generated \<and> name_taken e) (os_ioctl os fd TUNSETIFF (ifreq name))) (\<lambda>request.
     pbind (tag (\<lambda>_. False) (plift (attached_name request))) (\<lambda>actual_name.
       if actual_name \<noteq> name
       then praise (RuntimeError (''TUNSETIFF attached '' @ py_repr actual_name @ '', expected ''
                                  @ py_repr name), False)
       else pthen (tag (\<lambda>_. False) (configure_interface os ip_path config host_ip guest_ip name))
              (pret actual_name)))"

text \<open>\<open>_close_after_setup_error\<close>.\<close>

definition close_after_setup_error :: "(int \<Rightarrow> ('s, unit) py) \<Rightarrow> int \<Rightarrow> exn \<Rightarrow> ('s, unit) py" where
  "close_after_setup_error closer fd setup_error =
     phandle (closer fd) (\<lambda>cleanup_error. praise (TunSetupCleanupError setup_error cleanup_error))"

text \<open>\<open>ipaddress.ip_address(text)\<close> as an expression of the source.\<close>

definition parse_address :: "string \<Rightarrow> exn + ip_address" where
  "parse_address t =
     (case ip_address t of
        Some a \<Rightarrow> Inr a
      | None \<Rightarrow> Inl (ValueError (py_repr t @ '' does not appear to be an IPv4 or IPv6 address'')))"

fun tun_attempts ::
  "nat \<Rightarrow> int \<Rightarrow> 's tun_os \<Rightarrow> string \<Rightarrow> string \<Rightarrow> TunConfig \<Rightarrow> ('s, tun_queue) py" where
  "tun_attempts 0 attempts os tun_path ip_path config =
     praise (OSError FileExistsError (Some EEXIST)
       (''[Errno 17] could not allocate a unique TUN name after '' @ str_int attempts @ '' attempts''))"
| "tun_attempts (Suc k) attempts os tun_path ip_path config =
     pbind (case tc_name config of
              None \<Rightarrow> pbind (os_new_name os) (\<lambda>n. plift (validate_tun_name (PStr n)))
            | Some n \<Rightarrow> plift (validate_tun_name (PStr n))) (\<lambda>name.
     pbind (plift (parse_address (tc_host_address config))) (\<lambda>host_ip.
     pbind (plift (parse_address (tc_guest_address config))) (\<lambda>guest_ip.
     pbind (os_open os tun_path OPEN_FLAGS) (\<lambda>fd s.
       case setup_tun os ip_path config host_ip guest_ip (tc_name config = None) name fd s of
         (Inr actual_name, s') \<Rightarrow> (Inr \<lparr>tq_name = actual_name, tq_fd = Some fd\<rparr>, s')
       | (Inl (setup_error, name_collision), s') \<Rightarrow>
           pthen (close_after_setup_error (os_close os) fd setup_error)
             (if name_collision then tun_attempts k attempts os tun_path ip_path config
              else praise setup_error) s'))))"

definition create_tun_queue ::
  "'s tun_os \<Rightarrow> string \<Rightarrow> pyval \<Rightarrow> pyval \<Rightarrow> TunConfig \<Rightarrow> ('s, tun_queue) py" where
  "create_tun_queue os tun_path ip_path max_name_attempts config =
     (case ip_path of
        PStr path \<Rightarrow>
          (if path = [] \<or> CHR 0x00 \<in> set path then praise (ValueError ''ip_path must name one executable'')
           else
             (case max_name_attempts of
                PInt n \<Rightarrow>
                  (if n < 1 then praise (ValueError ''max_name_attempts must be a positive integer'')
                   else let attempts = (if tc_name config = None then n else 1)
                        in tun_attempts (nat attempts) attempts os tun_path path config)
              | _ \<Rightarrow> praise (ValueError ''max_name_attempts must be a positive integer'')))
      | _ \<Rightarrow> praise (ValueError ''ip_path must name one executable''))"

section \<open>Valid configurations\<close>

text \<open>What \<open>__post_init__\<close> establishes, and what the network transaction relies on.\<close>

definition valid_tun_config :: "TunConfig \<Rightarrow> bool" where
  "valid_tun_config c \<longleftrightarrow>
     (\<exists>h g. tc_host_address c = ip_str h \<and> tc_guest_address c = ip_str g \<and> wf_ip h \<and> wf_ip g
        \<and> ip_version h = ip_version g \<and> h \<noteq> g
        \<and> \<not> is_unspecified h \<and> \<not> is_unspecified g \<and> \<not> is_multicast h \<and> \<not> is_multicast g
        \<and> (if ip_version h = 4 then 68 else 1280) \<le> tc_mtu c)
     \<and> tc_mtu c \<le> 65535
     \<and> (\<forall>n. tc_name c = Some n \<longrightarrow> validate_tun_name (PStr n) = Inr n)"

lemma address_argument_Inr:
  "address_argument v f = Inr a \<longleftrightarrow> (\<exists>t. v = PStr t \<and> ip_address t = Some a)"
  by (cases v) (auto simp: address_argument_def split: option.splits)

lemma mtu_argument_Inr: "mtu_argument lo v = Inr m \<longleftrightarrow> v = PInt m \<and> lo \<le> m \<and> m \<le> 65535"
  by (cases v) (auto simp: mtu_argument_def MAX_IPV4_MTU_def Let_def)

lemma name_argument_Inr:
  "name_argument v = Inr n \<longleftrightarrow>
     (v = PNone \<and> n = None \<or> (\<exists>t. v = PStr t \<and> n = Some t \<and> validate_tun_name (PStr t) = Inr t))"
  by (cases v) (auto simp: name_argument_def rbind_eq_Inr validate_tun_name_Inr)

text \<open>
  C38: a \<open>TunConfig\<close> is constructed exactly from two different usable unicast addresses of
  one family, an MTU from the family's minimum to 65535 and no name or a valid one; the
  addresses are kept in canonical form, so the constructed object is valid.
\<close>

theorem TunConfig_init_iff:
  "TunConfig_init host guest mtu name = Inr c \<longleftrightarrow>
     (\<exists>ht gt h g. host = PStr ht \<and> guest = PStr gt \<and> ip_address ht = Some h \<and> ip_address gt = Some g
        \<and> tc_host_address c = ip_str h \<and> tc_guest_address c = ip_str g \<and> mtu = PInt (tc_mtu c)
        \<and> name = (case tc_name c of None \<Rightarrow> PNone | Some n \<Rightarrow> PStr n) \<and> valid_tun_config c)"
  (is "?L \<longleftrightarrow> ?R")
proof
  assume ?L
  then obtain ht gt h g m n where a: "host = PStr ht" "guest = PStr gt" "ip_address ht = Some h"
    "ip_address gt = Some g" "ip_version h = ip_version g" "h \<noteq> g" "\<not> is_unspecified h"
    "\<not> is_unspecified g" "\<not> is_multicast h" "\<not> is_multicast g"
    "mtu_argument (if ip_version h = 4 then MIN_IPV4_MTU else MIN_IPV6_MTU) mtu = Inr m"
    "name_argument name = Inr n"
    and c: "c = \<lparr>tc_host_address = ip_str h, tc_guest_address = ip_str g, tc_mtu = m, tc_name = n\<rparr>"
    by (auto simp: TunConfig_init_def rbind_eq_Inr address_argument_Inr)
  have "valid_tun_config c"
    unfolding valid_tun_config_def c
    by (rule conjI, rule exI [of _ h], rule exI [of _ g])
      (use a in \<open>auto simp: mtu_argument_Inr name_argument_Inr MIN_IPV4_MTU_def MIN_IPV6_MTU_def
         dest: ip_address_wf\<close>)
  with a(1-4) show ?R
    using a(11,12) by (auto simp: c mtu_argument_Inr name_argument_Inr)
next
  assume ?R
  then obtain ht gt h g where a: "host = PStr ht" "guest = PStr gt" "ip_address ht = Some h"
    "ip_address gt = Some g" "tc_host_address c = ip_str h" "tc_guest_address c = ip_str g"
    "mtu = PInt (tc_mtu c)" "name = (case tc_name c of None \<Rightarrow> PNone | Some n \<Rightarrow> PStr n)"
    and v: "valid_tun_config c" by blast
  from v obtain h' g' where v': "tc_host_address c = ip_str h'" "tc_guest_address c = ip_str g'"
    "wf_ip h'" "wf_ip g'" "ip_version h' = ip_version g'" "h' \<noteq> g'" "\<not> is_unspecified h'"
    "\<not> is_unspecified g'" "\<not> is_multicast h'" "\<not> is_multicast g'"
    "(if ip_version h' = 4 then 68 else 1280) \<le> tc_mtu c" "tc_mtu c \<le> 65535"
    "\<And>n. tc_name c = Some n \<Longrightarrow> validate_tun_name (PStr n) = Inr n"
    unfolding valid_tun_config_def by blast
  have e: "h = h'" "g = g'"
    using a v' ip_address_wf ip_str_inject by metis+
  have "mtu_argument (if ip_version h' = 4 then MIN_IPV4_MTU else MIN_IPV6_MTU) mtu = Inr (tc_mtu c)"
    using v'(11,12) a(7) by (auto simp: mtu_argument_Inr MIN_IPV4_MTU_def MIN_IPV6_MTU_def split: if_splits)
  moreover have "name_argument name = Inr (tc_name c)"
    using a(8) v'(13) by (cases "tc_name c") (simp_all add: name_argument_Inr)
  ultimately show ?L
    using a v' unfolding TunConfig_init_def e by (simp add: is_str_def address_argument_def)
qed

section \<open>No descriptor is lost\<close>

text \<open>
  What the descriptor table does: \<open>open\<close> returns a descriptor that was not in use, \<open>close\<close>
  gives it back even when it reports an error, the other calls leave the table alone.
\<close>

definition fd_table :: "'s tun_os \<Rightarrow> ('s \<Rightarrow> int set) \<Rightarrow> bool" where
  "fd_table os fds \<longleftrightarrow>
     (\<forall>p f s fd s'. os_open os p f s = (Inr fd, s') \<longrightarrow> fd \<notin> fds s \<and> fds s' = insert fd (fds s))
     \<and> (\<forall>p f s e s'. os_open os p f s = (Inl e, s') \<longrightarrow> fds s' = fds s)
     \<and> (\<forall>fd req b s r s'. os_ioctl os fd req b s = (r, s') \<longrightarrow> fds s' = fds s)
     \<and> (\<forall>argv s r s'. os_run os argv s = (r, s') \<longrightarrow> fds s' = fds s)
     \<and> (\<forall>s r s'. os_new_name os s = (r, s') \<longrightarrow> fds s' = fds s)
     \<and> (\<forall>fd s r s'. os_close os fd s = (r, s') \<longrightarrow> fds s' = fds s - {fd})"

lemma fd_tableD:
  assumes "fd_table os fds"
  shows "os_open os p f s = (Inr fd, s') \<Longrightarrow> fd \<notin> fds s \<and> fds s' = insert fd (fds s)"
    "os_open os p f s = (Inl e, s') \<Longrightarrow> fds s' = fds s"
    "os_ioctl os fd req b s = (r, s') \<Longrightarrow> fds s' = fds s"
    "os_run os argv s = (u, s') \<Longrightarrow> fds s' = fds s"
    "os_new_name os s = (n, s') \<Longrightarrow> fds s' = fds s"
    "os_close os fd s = (u, s') \<Longrightarrow> fds s' = fds s - {fd}"
  using assms unfolding fd_table_def by metis+

lemma keeps_tag [keeps_intros]: "keeps obs m \<Longrightarrow> keeps obs (tag c m)"
  by (fastforce simp: keeps_def tag_def split: prod.splits sum.splits)

lemma setup_tun_keeps:
  assumes "fd_table os fds"
  shows "keeps fds (setup_tun os ip_path config host_ip guest_ip generated name fd)"
proof -
  have "keeps fds (os_ioctl os a b c)" "keeps fds (os_run os v)" for a b c v
    using fd_tableD [OF assms] by (auto simp: keeps_def)
  then show ?thesis
    unfolding setup_tun_def configure_interface_def by (intro keeps_intros)
qed

text \<open>One attempt up to the opened descriptor.\<close>

lemma tun_attempts_cases:
  assumes "tun_attempts (Suc k) attempts os tun_path ip_path config s = (r, s')"
    and "keeps obs (os_new_name os)"
  obtains (early) e where "r = Inl e" "obs s' = obs s"
  | (refused) e s1 where "r = Inl e" "obs s1 = obs s" "os_open os tun_path OPEN_FLAGS s1 = (Inl e, s')"
  | (opened) name h g s1 fd s2 x s3 where
      "obs s1 = obs s" "os_open os tun_path OPEN_FLAGS s1 = (Inr fd, s2)"
      "setup_tun os ip_path config h g (tc_name config = None) name fd s2 = (x, s3)"
      "(r, s') =
         (case x of
            Inr actual_name \<Rightarrow> (Inr \<lparr>tq_name = actual_name, tq_fd = Some fd\<rparr>, s3)
          | Inl (e, name_collision) \<Rightarrow>
              pthen (close_after_setup_error (os_close os) fd e)
                (if name_collision then tun_attempts k attempts os tun_path ip_path config
                 else praise e) s3)"
proof -
  let ?name = "case tc_name config of
      None \<Rightarrow> pbind (os_new_name os) (\<lambda>n. plift (validate_tun_name (PStr n)))
    | Some n \<Rightarrow> plift (validate_tun_name (PStr n))"
  have keep_name: "keeps obs ?name"
    using assms(2) by (cases "tc_name config") (simp_all add: keeps_intros)
  obtain x s1 where x: "?name s = (x, s1)" by fastforce
  then have s1: "obs s1 = obs s" by (rule keepsD [OF keep_name])
  note u = assms(1) [unfolded tun_attempts.simps]
  show thesis
  proof (cases x)
    case (Inl e)
    with u x have "r = Inl e" "s' = s1" by (auto simp: pbind_def)
    with s1 show thesis by (intro early) simp_all
  next
    case name: (Inr name)
    show thesis
    proof (cases "parse_address (tc_host_address config)")
      case (Inl e)
      with u x name have "r = Inl e" "s' = s1" by (auto simp: pbind_def praise_def)
      with s1 show thesis by (intro early) simp_all
    next
      case h: (Inr h)
      show thesis
      proof (cases "parse_address (tc_guest_address config)")
        case (Inl e)
        with u x name h have "r = Inl e" "s' = s1" by (auto simp: pbind_def praise_def)
        with s1 show thesis by (intro early) simp_all
      next
        case g: (Inr g)
        obtain y s2 where y: "os_open os tun_path OPEN_FLAGS s1 = (y, s2)" by fastforce
        show thesis
        proof (cases y)
          case (Inl e)
          with u x name h g y have "r = Inl e" "s' = s2" by (auto simp: pbind_def)
          with s1 y Inl show thesis by (intro refused) simp_all
        next
          case (Inr fd)
          obtain z s3 where z: "setup_tun os ip_path config h g (tc_name config = None) name fd s2 = (z, s3)"
            by fastforce
          with u x name h g y Inr show thesis
            by (intro opened [OF s1 y [unfolded Inr] z]) (auto simp: pbind_def split: sum.splits)
        qed
      qed
    qed
  qed
qed

lemma close_after_setup_error_fds:
  assumes "fd_table os fds" "close_after_setup_error (os_close os) fd e s = (r, s')"
  shows "fds s' = fds s - {fd}"
  using assms(2) fd_tableD(6) [OF assms(1), of fd s]
  by (auto simp: close_after_setup_error_def phandle_def praise_def split: prod.splits sum.splits)

lemma tun_attempts_fds:
  assumes "fd_table os fds" "tun_attempts k attempts os tun_path ip_path config s = (r, s')"
  shows "case r of
      Inl e \<Rightarrow> fds s' = fds s
    | Inr q \<Rightarrow> (\<exists>fd. tq_fd q = Some fd \<and> fd \<notin> fds s \<and> fds s' = insert fd (fds s))"
  using assms(2)
proof (induction k arbitrary: s r s')
  case 0
  then show ?case by (auto simp: praise_def)
next
  case (Suc k)
  have n: "keeps fds (os_new_name os)" using fd_tableD(5) [OF assms(1)] by (rule keepsI)
  from Suc.prems n show ?case
  proof (cases rule: tun_attempts_cases)
    case (refused e s1)
    with fd_tableD(2) [OF assms(1) refused(3)] show ?thesis by simp
  next
    case (opened name h g s1 fd s2 x s3)
    from fd_tableD(1) [OF assms(1) opened(2)] opened(1) have o: "fd \<notin> fds s" "fds s2 = insert fd (fds s)"
      by auto
    have s3: "fds s3 = insert fd (fds s)"
      using keepsD [OF setup_tun_keeps [OF assms(1)] opened(3)] o(2) by simp
    show ?thesis
    proof (cases x)
      case (Inr actual)
      with opened(4) o s3 show ?thesis by auto
    next
      case (Inl ec)
      obtain e c where ec: "ec = (e, c)" by fastforce
      obtain y s4 where y: "close_after_setup_error (os_close os) fd e s3 = (y, s4)" by fastforce
      have s4: "fds s4 = fds s"
        using close_after_setup_error_fds [OF assms(1) y] s3 o(1) by auto
      show ?thesis
      proof (cases y)
        case (Inl e')
        with opened(4) \<open>x = Inl ec\<close> ec y s4 show ?thesis by (auto simp: pthen_def pbind_def)
      next
        case (Inr _)
        with opened(4) \<open>x = Inl ec\<close> ec y
        have "(r, s') = (if c then tun_attempts k attempts os tun_path ip_path config else praise e) s4"
          by (auto simp: pthen_def pbind_def)
        then show ?thesis
          using Suc.IH [of s4 r s'] s4 by (cases c; cases r) (auto simp: praise_def)
      qed
    qed
  qed auto
qed

text \<open>
  C7: whatever fails while a TUN queue is created (opening, attaching, a name that is taken,
  an \<open>ip\<close> command, the interface name), the descriptor opened for it is closed again and the
  descriptor table is as before; when a queue is returned it owns exactly one new descriptor.
\<close>

theorem create_tun_queue_no_leak:
  assumes "fd_table os fds" "create_tun_queue os tun_path ip_path attempts config s = (r, s')"
  shows "case r of
      Inl e \<Rightarrow> fds s' = fds s
    | Inr q \<Rightarrow> (\<exists>fd. tq_fd q = Some fd \<and> fd \<notin> fds s \<and> fds s' = insert fd (fds s))"
  using assms(2) tun_attempts_fds [OF assms(1)]
  by (auto simp: create_tun_queue_def praise_def Let_def split: pyval.splits if_splits)

text \<open>Descriptors as a list, on which every generated name is taken.\<close>

definition taken_os :: "int list tun_os" where
  "taken_os = \<lparr>
     os_open = (\<lambda>p f s. (Inr (Max (set (0 # s)) + 1), (Max (set (0 # s)) + 1) # s)),
     os_ioctl = (\<lambda>fd req b s. (Inl (OSError PlainOSError (Some EBUSY) ''busy''), s)),
     os_close = (\<lambda>fd s. (Inr (), filter (\<lambda>x. x \<noteq> fd) s)),
     os_run = (\<lambda>argv s. (Inr (), s)), os_new_name = (\<lambda>s. (Inr ''tcpcc0'', s))\<rparr>"

definition sample_tun :: "string option \<Rightarrow> TunConfig" where
  "sample_tun name =
     \<lparr>tc_host_address = ip_str (IPv4 0x0A000001), tc_guest_address = ip_str (IPv4 0x0A000002),
      tc_mtu = 1500, tc_name = name\<rparr>"

lemma taken_os_table: "fd_table taken_os set"
proof -
  have "Max (set (0 # s)) + 1 \<notin> set s" for s :: "int list"
    using Max_ge [of "set (0 # s)" "Max (set (0 # s)) + 1"] by (auto simp del: Max_insert)
  then show ?thesis by (auto simp: fd_table_def taken_os_def)
qed

lemma tcpcc0_valid: "validate_tun_name (PStr ''tcpcc0'') = Inr ''tcpcc0''"
  by code_simp

lemma parse_sample:
  "parse_address (tc_host_address (sample_tun n)) = Inr (IPv4 0x0A000001)"
  "parse_address (tc_guest_address (sample_tun n)) = Inr (IPv4 0x0A000002)"
  by (simp_all add: parse_address_def sample_tun_def ip_address_ip_str del: ip_str.simps)

theorem create_tun_queue_no_leak_witness:
  "\<exists>e. create_tun_queue taken_os ''/dev/net/tun'' (PStr ''ip'') (PInt 1) (sample_tun None) [1, 2] =
     (Inl e, [1, 2]) \<and> set [1, 2] = {1, 2 :: int}"
proof -
  have n: "tc_name (sample_tun None) = None" by (simp add: sample_tun_def)
  have t: "name_taken (OSError PlainOSError (Some EBUSY) ''busy'')" by (simp add: name_taken_def)
  have "\<exists>e. create_tun_queue taken_os ''/dev/net/tun'' (PStr ''ip'') (PInt 1) (sample_tun None) [1, 2] =
      (Inl e, [1, 2])"
    using t
    by (simp add: create_tun_queue_def n parse_sample pbind_def plift_def pthen_def tcpcc0_valid
        taken_os_def setup_tun_def tag_def close_after_setup_error_def phandle_def praise_def)
  then obtain e where e: "create_tun_queue taken_os ''/dev/net/tun'' (PStr ''ip'') (PInt 1)
      (sample_tun None) [1, 2] = (Inl e, [1, 2])" ..
  from create_tun_queue_no_leak [OF taken_os_table e] e show ?thesis by simp
qed

section \<open>What a returned queue is\<close>

lemma tag_eq_Inr: "tag c m s = (Inr x, s') \<longleftrightarrow> m s = (Inr x, s')"
  by (auto simp: tag_def split: prod.splits sum.splits)

lemma setup_tun_Inr:
  "setup_tun os ip_path config h g generated name fd s = (Inr actual, s') \<longleftrightarrow>
     actual = name \<and> (\<exists>request s1. os_ioctl os fd TUNSETIFF (ifreq name) s = (Inr request, s1)
        \<and> attached_name request = Inr name
        \<and> configure_interface os ip_path config h g name s1 = (Inr (), s'))"
  by (auto simp: setup_tun_def pbind_cases tag_eq_Inr plift_def praise_def pret_def split: if_splits)

lemma tun_attempts_Inr:
  assumes "tun_attempts k attempts os tun_path ip_path config s = (Inr q, s')"
  shows "\<exists>name h g fd s1 s2. validate_tun_name (PStr name) = Inr name
     \<and> (tc_name config = None \<or> tc_name config = Some name)
     \<and> parse_address (tc_host_address config) = Inr h \<and> parse_address (tc_guest_address config) = Inr g
     \<and> os_open os tun_path OPEN_FLAGS s1 = (Inr fd, s2)
     \<and> setup_tun os ip_path config h g (tc_name config = None) name fd s2 = (Inr name, s')
     \<and> q = \<lparr>tq_name = name, tq_fd = Some fd\<rparr>"
  using assms
proof (induction k arbitrary: s)
  case 0
  then show ?case by (simp add: praise_def)
next
  case (Suc k)
  then obtain name h g fd s0 s2 where
    name: "(case tc_name config of
        None \<Rightarrow> pbind (os_new_name os) (\<lambda>n. plift (validate_tun_name (PStr n)))
      | Some n \<Rightarrow> plift (validate_tun_name (PStr n))) s = (Inr name, s0)"
    and p: "parse_address (tc_host_address config) = Inr h" "parse_address (tc_guest_address config) = Inr g"
    and o: "os_open os tun_path OPEN_FLAGS s0 = (Inr fd, s2)"
    and r0: "(case setup_tun os ip_path config h g (tc_name config = None) name fd s2 of
            (Inr actual_name, s') \<Rightarrow> (Inr \<lparr>tq_name = actual_name, tq_fd = Some fd\<rparr>, s')
          | (Inl (e, name_collision), s') \<Rightarrow>
              pthen (close_after_setup_error (os_close os) fd e)
                (if name_collision then tun_attempts k attempts os tun_path ip_path config
                 else praise e) s') = (Inr q, s')"
    unfolding tun_attempts.simps pbind_eq_Inr plift_def prod.inject by blast
  obtain x s3 where x: "setup_tun os ip_path config h g (tc_name config = None) name fd s2 = (x, s3)"
    by fastforce
  note r = r0 [unfolded x prod.case]
  have n: "validate_tun_name (PStr name) = Inr name" "tc_name config = None \<or> tc_name config = Some name"
    using name by (auto simp: pbind_cases plift_def validate_tun_name_Inr split: option.splits)
  show ?case
  proof (cases x)
    case (Inr actual)
    with x have "actual = name" by (simp add: setup_tun_Inr)
    with Inr r n p o x show ?thesis by auto
  next
    case (Inl ec)
    with r obtain s4 where "tun_attempts k attempts os tun_path ip_path config s4 = (Inr q, s')"
      by (auto simp: pthen_eq_Inr praise_def split: prod.splits if_splits)
    then show ?thesis by (rule Suc.IH)
  qed
qed

text \<open>The name written into the request is the name read back from it.\<close>

lemma ifreq_flags: "unpack_fields [FS 16, FU 2, FS 22] (ifreq name) =
    [VB (fit_bytes 16 (encode_ascii name)), VI 0x9001, VB (replicate 22 0)]"
proof -
  have "length (fit_bytes 16 (encode_ascii name)) = 16" by (simp add: fit_bytes_def)
  moreover have "unsigned_val (unsigned_bytes 2 0x9001) = 0x9001"
    by (simp add: unsigned_codec.dec_enc unsigned_range_def)
  ultimately show ?thesis
    by (simp add: ifreq_def IFNAMSIZ_def IFREQ_SIZE_def TUN_IFF_FLAGS_def IFF_TUN_def IFF_NO_PI_def
        IFF_TUN_EXCL_def unsigned_codec.enc_length)
qed

lemma unat_of_char [simp]: "unat (of_nat (of_char c) :: byte) = of_char c"
proof -
  have "(of_char c :: nat) < 256" by (rule nat_of_char_less_256)
  then show ?thesis by (simp add: unat_of_nat)
qed

lemma encode_ascii_zero: "CHR 0x00 \<notin> set t \<Longrightarrow> 0 \<notin> set (encode_ascii t)"
proof
  assume a: "CHR 0x00 \<notin> set t" "0 \<in> set (encode_ascii t)"
  then obtain c where c: "c \<in> set t" "(of_nat (of_char c) :: byte) = 0" by (auto simp: encode_ascii_def)
  then have "(of_char c :: nat) = 0" by (metis unat_of_char unsigned_0)
  moreover have "of_char (CHR 0x00) = (0 :: nat)" by simp
  ultimately have "c = CHR 0x00" by (metis of_char_eq_iff)
  with a(1) c(1) show False by simp
qed

text \<open>
  The request for a valid name holds the name and the flags of an exclusive TUN interface
  without packet information, and a kernel that leaves the name as it is attaches that name.
\<close>

lemma attached_name_ifreq:
  assumes "TUN_NAME name"
  shows "attached_name (ifreq name) = Inr name"
proof -
  have l: "length (encode_ascii name) \<le> 15" and ch: "\<And>c. c \<in> set name \<Longrightarrow> is_tun_char c"
    using assms by (auto simp: TUN_NAME_def list_all_iff encode_ascii_def)
  have z: "0 \<notin> set (encode_ascii name)"
    using tun_char_facts(3) [OF ch] by (intro encode_ascii_zero) blast
  have t: "take IFNAMSIZ (ifreq name) = encode_ascii name @ 0 # replicate (15 - length (encode_ascii name)) 0"
    using l by (simp add: ifreq_def IFNAMSIZ_def fit_bytes_def Suc_diff_le flip: replicate_Suc)
  have "takeWhile (\<lambda>b. b \<noteq> 0) (take IFNAMSIZ (ifreq name)) = encode_ascii name"
    unfolding t using z by (subst takeWhile_append2) auto
  moreover have "list_all (\<lambda>b. unat b < 128) (encode_ascii name)"
    using tun_char_facts(1) [OF ch] by (auto simp: encode_ascii_def list_all_iff is_ascii_char_def)
  moreover have "map (\<lambda>b. char_of (unat b)) (encode_ascii name) = name"
    by (simp add: encode_ascii_def o_def)
  ultimately show ?thesis by (simp add: attached_name_def Let_def)
qed

text \<open>
  C24: a returned queue has a valid name, the configured one if there is one; its descriptor
  was opened on the TUN device and attached by one \<open>TUNSETIFF\<close> whose request asks for an
  exclusive interface of that name, the kernel reported the same name back, and after that
  every configuration command ran without an error, as the last effects of the call.
\<close>

theorem create_tun_queue_result:
  assumes "create_tun_queue os tun_path ip_path attempts config s = (Inr q, s')"
  shows "\<exists>path name h g fd s1 s2 request s3.
     ip_path = PStr path \<and> q = \<lparr>tq_name = name, tq_fd = Some fd\<rparr>
     \<and> validate_tun_name (PStr name) = Inr name \<and> (tc_name config = None \<or> tc_name config = Some name)
     \<and> ip_address (tc_host_address config) = Some h \<and> ip_address (tc_guest_address config) = Some g
     \<and> os_open os tun_path OPEN_FLAGS s1 = (Inr fd, s2)
     \<and> os_ioctl os fd TUNSETIFF (ifreq name) s2 = (Inr request, s3)
     \<and> unpack_fields [FS 16, FU 2, FS 22] (ifreq name) =
         [VB (fit_bytes 16 (encode_ascii name)), VI 0x9001, VB (replicate 22 0)]
     \<and> attached_name request = Inr name
     \<and> configure_interface os path config h g name s3 = (Inr (), s')"
proof -
  obtain path k n where "ip_path = PStr path"
    and a: "tun_attempts k n os tun_path path config s = (Inr q, s')"
    using assms
    by (auto simp: create_tun_queue_def praise_def Let_def split: pyval.splits if_splits)
  with tun_attempts_Inr [OF a] ifreq_flags show ?thesis
    unfolding setup_tun_Inr parse_address_def by (fastforce split: option.splits)
qed

definition working_os :: "string list list tun_os" where
  "working_os = \<lparr>
     os_open = (\<lambda>p f s. (Inr 7, s)), os_ioctl = (\<lambda>fd req b s. (Inr b, s)),
     os_close = (\<lambda>fd s. (Inr (), s)), os_run = (\<lambda>argv s. (Inr (), s @ [argv])),
     os_new_name = (\<lambda>s. (Inr ''tcpcc0'', s))\<rparr>"

theorem create_tun_queue_result_witness:
  "fst (create_tun_queue working_os ''/dev/net/tun'' (PStr ''ip'') (PInt 1) (sample_tun None) []) =
     Inr \<lparr>tq_name = ''tcpcc0'', tq_fd = Some 7\<rparr>
   \<and> validate_tun_name (PStr ''tcpcc0'') = Inr ''tcpcc0''"
proof -
  have n: "tc_name (sample_tun None) = None" by (simp add: sample_tun_def)
  have t: "TUN_NAME ''tcpcc0''" by code_simp
  obtain s' where "create_tun_queue working_os ''/dev/net/tun'' (PStr ''ip'') (PInt 1) (sample_tun None) [] =
      (Inr \<lparr>tq_name = ''tcpcc0'', tq_fd = Some 7\<rparr>, s')"
    by (simp add: create_tun_queue_def n parse_sample pbind_def plift_def pthen_def tcpcc0_valid
        working_os_def setup_tun_def tag_def attached_name_ifreq [OF t] configure_interface_def pret_def)
  with create_tun_queue_result [OF this] show ?thesis by auto
qed

section \<open>The number of attempts\<close>

definition small_os :: "nat tun_os" where
  "small_os = \<lparr>
     os_open = (\<lambda>p f n. (Inr (int n), Suc n)), os_ioctl = (\<lambda>fd req b n. (Inr b, n)),
     os_close = (\<lambda>fd n. (Inr (), n)), os_run = (\<lambda>argv n. (Inr (), n)),
     os_new_name = (\<lambda>n. (Inr ''tcpcc0'', n))\<rparr>"

text \<open>An observation that counts how often the device is opened.\<close>

definition counts_opens :: "'s tun_os \<Rightarrow> ('s \<Rightarrow> nat) \<Rightarrow> bool" where
  "counts_opens os opens \<longleftrightarrow>
     (\<forall>p f s r s'. os_open os p f s = (r, s') \<longrightarrow> opens s' = Suc (opens s))
     \<and> (\<forall>fd req b. keeps opens (os_ioctl os fd req b)) \<and> (\<forall>argv. keeps opens (os_run os argv))
     \<and> keeps opens (os_new_name os) \<and> (\<forall>fd. keeps opens (os_close os fd))"

lemma tun_attempts_opens:
  assumes "counts_opens os opens" "tun_attempts k attempts os tun_path ip_path config s = (r, s')"
  shows "opens s' \<le> opens s + k"
  using assms(2)
proof (induction k arbitrary: s r s')
  case 0
  then show ?case by (simp add: praise_def)
next
  case (Suc k)
  have n: "keeps opens (os_new_name os)" and c: "\<And>fd. keeps opens (os_close os fd)"
    and o: "\<And>s r s'. os_open os tun_path OPEN_FLAGS s = (r, s') \<Longrightarrow> opens s' = Suc (opens s)"
    using assms(1) by (auto simp: counts_opens_def)
  have attach: "keeps opens (setup_tun os ip_path config h g gen name fd)" for h g gen name fd
    using assms(1) unfolding setup_tun_def configure_interface_def counts_opens_def
    by (intro keeps_intros) auto
  from Suc.prems n show ?case
  proof (cases rule: tun_attempts_cases)
    case (refused e s1)
    with o [OF refused(3)] show ?thesis by simp
  next
    case (opened name h g s1 fd s2 x s3)
    have s3: "opens s3 = Suc (opens s)"
      using o [OF opened(2)] opened(1) keepsD [OF attach opened(3)] by simp
    show ?thesis
    proof (cases x)
      case (Inr a)
      with opened(4) s3 show ?thesis by simp
    next
      case (Inl ec)
      obtain e coll where ec: "ec = (e, coll)" by fastforce
      have k: "keeps opens (close_after_setup_error (os_close os) fd e)"
        unfolding close_after_setup_error_def by (intro keeps_intros c)
      obtain y s4 where y: "close_after_setup_error (os_close os) fd e s3 = (y, s4)" by fastforce
      have s4: "opens s4 = Suc (opens s)" using keepsD [OF k y] s3 by simp
      have "s' = s4 \<or> tun_attempts k attempts os tun_path ip_path config s4 = (r, s')"
        using opened(4) Inl ec y
        by (cases y; cases coll) (simp_all add: pthen_def pbind_def praise_def)
      then show ?thesis using Suc.IH [of s4 r s'] s4 by auto
    qed
  qed simp
qed

text \<open>
  C35: the device is opened at most once for a configured name and at most
  \<open>max_name_attempts\<close> times for a generated one.
\<close>

theorem create_tun_queue_attempts:
  assumes "counts_opens os opens" "create_tun_queue os tun_path ip_path (PInt n) config s = (r, s')"
  shows "opens s' \<le> opens s + (if tc_name config = None then nat n else 1)"
  using assms(2) tun_attempts_opens [OF assms(1), of 1] tun_attempts_opens [OF assms(1), of "nat n"]
  by (cases "tc_name config")
    (auto simp: create_tun_queue_def praise_def Let_def simp del: tun_attempts.simps
      split: pyval.splits if_splits)

theorem create_tun_queue_attempts_witness:
  "\<exists>r s'. create_tun_queue (small_os) ''/dev/net/tun'' (PStr ''ip'') (PInt 3) (sample_tun None) 0 = (r, s')
     \<and> s' \<le> 3"
proof -
  have c: "counts_opens small_os (\<lambda>n. n)"
    by (auto simp: counts_opens_def small_os_def keeps_def)
  obtain r s' where r: "create_tun_queue small_os ''/dev/net/tun'' (PStr ''ip'') (PInt 3) (sample_tun None) 0 =
      (r, s')" by fastforce
  from create_tun_queue_attempts [OF c r] r show ?thesis
    by (auto simp: sample_tun_def split: if_splits)
qed

end
