(* ===== verification/Nft.thy ===== *)
theory Nft
  imports Ownership Tun
begin

text \<open>
  The nftables side of \<^verbatim>\<open>tools/tcpcc_host.py\<close>: \<^verbatim>\<open>NftDnatConfig\<close>, the batch that
  installs one DNAT table, the dry run, \<^verbatim>\<open>NftDnatLease\<close>, the two transports
  (\<^verbatim>\<open>NftExecTransport\<close>, \<^verbatim>\<open>LibNftablesTransport\<close>) and \<^verbatim>\<open>NftFirewallBackend\<close>.

  Running \<^verbatim>\<open>nft\<close> and the functions of the libnftables library are arguments on an
  arbitrary state.  What procfs, \<^verbatim>\<open>getpid\<close> and the random source give is the record
  \<open>host_env\<close>.
\<close>

section \<open>Configuration\<close>

record NftDnatConfig =
  dc_listen_address :: string
  dc_listen_port :: int
  dc_target_address :: string
  dc_target_port :: int
  dc_table_name :: "string option"

definition table_argument :: "pyval \<Rightarrow> exn + string option" where
  "table_argument v =
     (case v of PNone \<Rightarrow> Inr None | _ \<Rightarrow> rbind (validate_nft_table_name v) (\<lambda>n. Inr (Some n)))"

text \<open>\<open>NftDnatConfig(...)\<close> with its \<open>__post_init__\<close>.\<close>

definition NftDnatConfig_init ::
  "pyval \<Rightarrow> pyval \<Rightarrow> pyval \<Rightarrow> pyval \<Rightarrow> pyval \<Rightarrow> exn + NftDnatConfig" where
  "NftDnatConfig_init listen_address listen_port target_address target_port table_name =
     rbind (validate_endpoint_address listen_address ''listen_address'') (\<lambda>la.
     rbind (validate_endpoint_address target_address ''target_address'') (\<lambda>ta.
     rbind (validate_port listen_port ''listen_port'') (\<lambda>lp.
     rbind (validate_port target_port ''target_port'') (\<lambda>tp.
     rbind (parse_address la) (\<lambda>l.
     rbind (parse_address ta) (\<lambda>t.
     rbind (rguard (ip_version l = ip_version t)
              (ValueError ''DNAT listen and target address families must match'')) (\<lambda>_.
     rbind (rguard (la \<noteq> ta) (ValueError ''DNAT listen and target addresses must be different'')) (\<lambda>_.
     rbind (table_argument table_name) (\<lambda>n.
       Inr \<lparr>dc_listen_address = la, dc_listen_port = lp, dc_target_address = ta, dc_target_port = tp,
            dc_table_name = n\<rparr>)))))))))"

text \<open>
  \<open>ip_version\<close> of a configuration.  A constructed one holds the canonical text of an address
  (\<open>NftDnatConfig_init_valid\<close>), so the second case does not arise.
\<close>

definition dnat_ip_version :: "NftDnatConfig \<Rightarrow> int" where
  "dnat_ip_version c = (case ip_address (dc_listen_address c) of Some a \<Rightarrow> ip_version a | None \<Rightarrow> 0)"

definition table_family :: "NftDnatConfig \<Rightarrow> string" where
  "table_family c = (if dnat_ip_version c = 4 then ''ip'' else ''ip6'')"

definition address_selector :: "NftDnatConfig \<Rightarrow> string" where
  "address_selector c = (if dnat_ip_version c = 4 then ''ip'' else ''ip6'')"

definition destination_prefix :: "NftDnatConfig \<Rightarrow> int" where
  "destination_prefix c = (if dnat_ip_version c = 4 then 32 else 128)"

definition dnat_destination :: "NftDnatConfig \<Rightarrow> string" where
  "dnat_destination c =
     (if dnat_ip_version c = 6
      then ''['' @ dc_target_address c @ '']:'' @ str_int (dc_target_port c)
      else dc_target_address c @ '':'' @ str_int (dc_target_port c))"

section \<open>The batch\<close>

definition NEWLINE :: string where
  "NEWLINE = [CHR 0x0A]"

definition dnat_batch :: "NftDnatConfig \<Rightarrow> string \<Rightarrow> NftOwnership option \<Rightarrow> string" where
  "dnat_batch config table_name ownership =
     ''create table '' @ table_family config @ '' '' @ table_name @ NEWLINE
     @ ''add chain '' @ table_family config @ '' '' @ table_name
     @ '' prerouting { type nat hook prerouting priority dstnat; policy accept; }'' @ NEWLINE
     @ ''add rule '' @ table_family config @ '' '' @ table_name @ '' prerouting ''
     @ address_selector config @ '' daddr '' @ dc_listen_address config
     @ '' tcp dport '' @ str_int (dc_listen_port config) @ '' counter dnat to '' @ dnat_destination config
     @ (case ownership of
          None \<Rightarrow> [] | Some o' \<Rightarrow> '' comment '' @ [QUOTE] @ marker o' @ [QUOTE])
     @ NEWLINE"

type_synonym 's nft_runner = "string list \<Rightarrow> string option \<Rightarrow> ('s, unit) py"

definition check_nft_dnat_compatibility ::
  "NftDnatConfig \<Rightarrow> NftOwnership \<Rightarrow> string \<Rightarrow> 's nft_runner \<Rightarrow> ('s, string) py \<Rightarrow> ('s, unit) py" where
  "check_nft_dnat_compatibility config ownership nft_path runner table_name_factory =
     (if \<not> is_executable_name (PStr nft_path)
      then praise (ValueError ''nft_path must name one executable'')
      else
        pbind table_name_factory (\<lambda>n.
        pbind (plift (validate_nft_table_name (PStr n))) (\<lambda>table_name.
          phandle
            (runner [nft_path, ''--check'', ''--file'', ''-''] (Some (dnat_batch config table_name (Some ownership))))
            (\<lambda>e. case e of CalledProcessError code err t \<Rightarrow> praise (NftCompatibilityError e)
                 | _ \<Rightarrow> praise e))))"

section \<open>The lease\<close>

record NftDnatLease =
  nl_table_name :: string
  nl_nft_path :: string
  nl_backend_id :: string
  nl_table_family :: string
  nl_closed :: bool

definition NftDnatLease_init :: "string \<Rightarrow> string \<Rightarrow> string \<Rightarrow> string \<Rightarrow> NftDnatLease" where
  "NftDnatLease_init table_name nft_path backend_id family =
     \<lparr>nl_table_name = table_name, nl_nft_path = nft_path, nl_backend_id = backend_id,
      nl_table_family = family, nl_closed = False\<rparr>"

definition NftDnatLease_close ::
  "'s nft_runner \<Rightarrow> NftDnatLease \<Rightarrow> 's \<Rightarrow> (exn + unit) \<times> NftDnatLease \<times> 's" where
  "NftDnatLease_close runner l s =
     (if nl_closed l then (Inr (), l, s)
      else
        (case runner [nl_nft_path l, ''delete'', ''table'', nl_table_family l, nl_table_name l] None s of
           (r, s') \<Rightarrow> (r, l\<lparr>nl_closed := True\<rparr>, s')))"

interpretation nft_lease: lease "NftDnatLease_close runner" nl_closed
  for runner :: "'s nft_runner"
  by standard (auto simp: NftDnatLease_close_def split: if_splits prod.splits)

definition install_nft_dnat ::
  "NftDnatConfig \<Rightarrow> string \<Rightarrow> 's nft_runner \<Rightarrow> ('s, string) py \<Rightarrow> NftOwnership option \<Rightarrow> string
   \<Rightarrow> ('s, NftDnatLease) py" where
  "install_nft_dnat config nft_path runner table_name_factory ownership backend_id =
     (if \<not> is_executable_name (PStr nft_path)
      then praise (ValueError ''nft_path must name one executable'')
      else
        pbind (case dc_table_name config of None \<Rightarrow> table_name_factory | Some n \<Rightarrow> pret n) (\<lambda>n.
        pbind (plift (validate_nft_table_name (PStr n))) (\<lambda>table_name.
        pthen (runner [nft_path, ''--file'', ''-''] (Some (dnat_batch config table_name ownership)))
          (pret (NftDnatLease_init table_name nft_path backend_id (table_family config))))))"

section \<open>Transports\<close>

record 's nft_transport =
  tr_backend_id :: string
  tr_command_name :: string
  tr_run :: "'s nft_runner"
  tr_read :: "string list \<Rightarrow> ('s, string) py"

type_synonym 's firewall_runner = "string list \<Rightarrow> string option \<Rightarrow> ('s, string) py"

definition NftExecTransport :: "pyval \<Rightarrow> 's firewall_runner \<Rightarrow> exn + 's nft_transport" where
  "NftExecTransport nft_path runner =
     (case nft_path of
        PStr path \<Rightarrow>
          (if \<not> is_executable_name nft_path then Inl (ValueError ''nft_path must name one executable'')
           else Inr \<lparr>tr_backend_id = ''nft-exec'', tr_command_name = path,
                      tr_run = (\<lambda>argv input. pthen (runner argv input) (pret ())),
                      tr_read = (\<lambda>argv. runner argv None)\<rparr>)
      | _ \<Rightarrow> Inl (ValueError ''nft_path must name one executable''))"

text \<open>
  The libnftables library: which symbols it has, and its functions.  A context is \<open>None\<close> for
  the null pointer; an output buffer is \<open>None\<close> for the null pointer.  \<open>lib_decode\<close> is
  UTF-8 decoding with replacement characters.
\<close>

record 's nft_library =
  lib_has :: "string \<Rightarrow> bool"
  lib_ctx_new :: "int \<Rightarrow> ('s, int option) py"
  lib_ctx_free :: "int \<Rightarrow> ('s, unit) py"
  lib_buffer_output :: "int \<Rightarrow> ('s, int) py"
  lib_buffer_error :: "int \<Rightarrow> ('s, int) py"
  lib_get_output :: "int \<Rightarrow> ('s, bytes option) py"
  lib_get_error :: "int \<Rightarrow> ('s, bytes option) py"
  lib_set_dry_run :: "int \<Rightarrow> bool \<Rightarrow> ('s, unit) py"
  lib_run_cmd :: "int \<Rightarrow> bytes \<Rightarrow> ('s, int) py"
  lib_set_json :: "int \<Rightarrow> bool \<Rightarrow> ('s, unit) py"
  lib_get_flags :: "int \<Rightarrow> ('s, nat) py"
  lib_set_flags :: "int \<Rightarrow> nat \<Rightarrow> ('s, unit) py"
  lib_decode :: "bytes \<Rightarrow> string"

definition NFT_CTX_OUTPUT_JSON :: nat where
  "NFT_CTX_OUTPUT_JSON = 16"

definition REQUIRED_SYMBOLS :: "string list" where
  "REQUIRED_SYMBOLS =
     [''nft_ctx_new'', ''nft_ctx_free'', ''nft_ctx_buffer_output'', ''nft_ctx_buffer_error'',
      ''nft_ctx_get_output_buffer'', ''nft_ctx_get_error_buffer'', ''nft_ctx_set_dry_run'',
      ''nft_run_cmd_from_buffer'']"

text \<open>\<open>command.encode("utf-8")\<close> for code points below 256.\<close>

definition encode_utf8 :: "string \<Rightarrow> bytes" where
  "encode_utf8 t =
     concat (map (\<lambda>c. let n = (of_char c :: nat)
                      in if n < 128 then [of_nat n] else [of_nat (192 + n div 64), of_nat (128 + n mod 64)]) t)"

text \<open>
  \<open>loader\<close> returns a handle, and \<open>lt_library\<close> is what a handle offers.  The transport's own
  state, the handle cached by \<open>_load\<close>, is the second component of the state; the lock only
  keeps other threads out.
\<close>

record 's lib_transport =
  lt_library_path :: "string option"
  lt_finder :: "string \<Rightarrow> ('s, string option) py"
  lt_loader :: "string \<Rightarrow> ('s, int) py"
  lt_library :: "int \<Rightarrow> 's nft_library"

type_synonym 's lib_state = "'s \<times> int option"

definition LibNftablesTransport ::
  "pyval \<Rightarrow> (string \<Rightarrow> ('s, string option) py) \<Rightarrow> (string \<Rightarrow> ('s, int) py) \<Rightarrow> (int \<Rightarrow> 's nft_library)
   \<Rightarrow> exn + 's lib_transport" where
  "LibNftablesTransport library_path finder loader lib =
     (case library_path of
        PNone \<Rightarrow> Inr \<lparr>lt_library_path = None, lt_finder = finder, lt_loader = loader, lt_library = lib\<rparr>
      | PStr path \<Rightarrow>
          (if path = [] \<or> CHR 0x00 \<in> set path
           then Inl (ValueError ''library_path must name one shared library'')
           else Inr \<lparr>lt_library_path = Some path, lt_finder = finder, lt_loader = loader, lt_library = lib\<rparr>)
      | _ \<Rightarrow> Inl (ValueError ''library_path must name one shared library''))"

definition lib_path :: "'s lib_transport \<Rightarrow> ('s, string) py" where
  "lib_path t =
     pbind (case lt_library_path t of Some path \<Rightarrow> pret (Some path) | None \<Rightarrow> lt_finder t ''nftables'')
       (\<lambda>found. case found of
          Some path \<Rightarrow>
            (if path = []
             then praise (OSError FileNotFoundError None
                    ''libnftables shared library was not found; install libnftables'')
             else pret path)
        | None \<Rightarrow> praise (OSError FileNotFoundError None
                    ''libnftables shared library was not found; install libnftables''))"

text \<open>
  The checks of \<open>_load\<close> on the symbols of a library.  Declaring argument and result types
  has no effect in the model.
\<close>

definition check_library :: "'s nft_library \<Rightarrow> exn + unit" where
  "check_library lib =
     (let missing = filter (\<lambda>n. \<not> lib_has lib n) REQUIRED_SYMBOLS
      in if missing \<noteq> []
         then Inl (RuntimeError (''libnftables is missing required symbols: '' @ join '', '' missing))
         else if lib_has lib ''nft_ctx_output_set_json'' then Inr ()
         else if lib_has lib ''nft_ctx_output_get_flags'' \<and> lib_has lib ''nft_ctx_output_set_flags''
         then Inr ()
         else Inl (RuntimeError ''libnftables cannot enable JSON output''))"

definition load_library :: "'s lib_transport \<Rightarrow> ('s lib_state, 's nft_library) py" where
  "load_library t s =
     (case snd s of
        Some handle \<Rightarrow> (Inr (lt_library t handle), s)
      | None \<Rightarrow>
          pbind (on_fst (pbind (lib_path t) (lt_loader t))) (\<lambda>handle.
          pthen (plift (check_library (lt_library t handle)))
            (\<lambda>s'. (Inr (lt_library t handle), (fst s', Some handle)))) s)"

definition decode_buffer :: "'s nft_library \<Rightarrow> bytes option \<Rightarrow> string" where
  "decode_buffer lib v = lib_decode lib (case v of Some b \<Rightarrow> b | None \<Rightarrow> [])"

text \<open>The body of the \<open>try\<close> of \<open>_invoke\<close> on an allocated context.\<close>

definition run_in_context ::
  "'s nft_library \<Rightarrow> int \<Rightarrow> string \<Rightarrow> bool \<Rightarrow> bool \<Rightarrow> ('s, int \<times> string \<times> string) py" where
  "run_in_context lib context command dry_run json_output =
     pbind (lib_buffer_output lib context) (\<lambda>r1.
     if r1 \<noteq> 0 then praise (RuntimeError ''libnftables could not buffer output'') else
     pbind (lib_buffer_error lib context) (\<lambda>r2.
     if r2 \<noteq> 0 then praise (RuntimeError ''libnftables could not buffer errors'') else
     pthen (lib_set_dry_run lib context dry_run)
     (pthen (if json_output then
               (if lib_has lib ''nft_ctx_output_set_json'' then lib_set_json lib context True
                else pbind (lib_get_flags lib context) (\<lambda>flags.
                       lib_set_flags lib context (or flags NFT_CTX_OUTPUT_JSON)))
             else pret ())
     (pbind (lib_run_cmd lib context (encode_utf8 command)) (\<lambda>return_code.
      pbind (lib_get_output lib context) (\<lambda>out.
      pbind (lib_get_error lib context) (\<lambda>err.
        pret (return_code, decode_buffer lib out, decode_buffer lib err))))))))"

definition invoke ::
  "'s lib_transport \<Rightarrow> string \<Rightarrow> string \<Rightarrow> bool \<Rightarrow> bool \<Rightarrow> ('s lib_state, string) py" where
  "invoke t command operation dry_run json_output =
     (if command = [] \<or> CHR 0x00 \<in> set command
      then praise (ValueError ''libnftables command buffer is invalid'')
      else
        pbind (load_library t) (\<lambda>lib.
        pbind (on_fst (lib_ctx_new lib 0)) (\<lambda>context.
          case context of
            None \<Rightarrow> praise (RuntimeError ''libnftables could not allocate a context'')
          | Some c \<Rightarrow>
              pbind (on_fst (pfinally (run_in_context lib c command dry_run json_output) (lib_ctx_free lib c)))
                (\<lambda>(return_code, stdout, stderr).
                  if return_code \<noteq> 0 then praise (LibNftablesError operation return_code stderr)
                  else pret stdout))))"

definition argv_repr :: "string list \<Rightarrow> string" where
  "argv_repr argv = ''['' @ join '', '' (map py_repr argv) @ '']''"

definition lib_run :: "'s lib_transport \<Rightarrow> 's lib_state nft_runner" where
  "lib_run t argv input =
     (let unsupported =
        praise (ValueError (''unsupported libnftables runner invocation: '' @ argv_repr argv))
      in case input of
           Some text \<Rightarrow>
             (if argv = [''libnftables'', ''--file'', ''-'']
              then pthen (invoke t text ''apply'' False False) (pret ())
              else if argv = [''libnftables'', ''--check'', ''--file'', ''-'']
              then pthen (invoke t text ''dry-run'' True False) (pret ())
              else unsupported)
         | None \<Rightarrow>
             (if length argv = 5 \<and> take 3 argv = [''libnftables'', ''delete'', ''table'']
                 \<and> argv ! 3 \<in> set [''ip'', ''ip6'']
              then pbind (plift (validate_nft_table_name (PStr (argv ! 4)))) (\<lambda>table_name.
                     pthen (invoke t (''delete table '' @ argv ! 3 @ '' '' @ table_name @ NEWLINE)
                              ''delete'' False False) (pret ()))
              else unsupported))"

definition lib_read :: "'s lib_transport \<Rightarrow> string list \<Rightarrow> ('s lib_state, string) py" where
  "lib_read t argv =
     (if length argv \<noteq> 5 \<or> take 4 argv \<noteq> [''libnftables'', ''--json'', ''list'', ''ruleset'']
         \<or> argv ! 4 \<notin> set [''ip'', ''ip6'']
      then praise (ValueError (''unsupported libnftables read invocation: '' @ argv_repr argv))
      else invoke t (''list ruleset '' @ argv ! 4 @ NEWLINE) ''list-ruleset'' False True)"

definition lib_as_transport :: "'s lib_transport \<Rightarrow> 's lib_state nft_transport" where
  "lib_as_transport t =
     \<lparr>tr_backend_id = ''nft-lib'', tr_command_name = ''libnftables'', tr_run = lib_run t, tr_read = lib_read t\<rparr>"

section \<open>The backend\<close>

record 's host_env =
  he_reader :: "string \<Rightarrow> ('s, string) py"
  he_getpid :: "('s, int) py"
  he_random :: "nat \<Rightarrow> ('s, bytes) py"

definition env_table_name :: "'s host_env \<Rightarrow> ('s, string) py" where
  "env_table_name env = pbind (he_random env 6) (\<lambda>b. pret (new_nft_table_name b))"

definition env_ownership :: "'s host_env \<Rightarrow> string \<Rightarrow> ('s, NftOwnership) py" where
  "env_ownership env tun_name = current_nft_ownership ''/proc'' (he_reader env) (he_getpid env) tun_name"

record 's nft_backend =
  nb_transport :: "'s nft_transport"
  nb_table_family :: string

definition NftFirewallBackend :: "'s nft_transport \<Rightarrow> string \<Rightarrow> exn + 's nft_backend" where
  "NftFirewallBackend transport family =
     (if tr_backend_id transport \<notin> set [''nft-lib'', ''nft-exec'']
      then Inl (ValueError ''nft transport has an unsupported backend identifier'')
      else if family \<notin> set [''ip'', ''ip6''] then Inl (ValueError ''table_family must be ip or ip6'')
      else Inr \<lparr>nb_transport = transport, nb_table_family = family\<rparr>)"

definition nft_inspect_ownership :: "'s host_env \<Rightarrow> 's nft_backend \<Rightarrow> ('s, OwnershipReport) py" where
  "nft_inspect_ownership env b =
     inspect_nft_ownership (nb_table_family b) (tr_command_name (nb_transport b)) (tr_read (nb_transport b))
       ''/proc'' (he_reader env)"

definition nft_check_compatibility :: "'s host_env \<Rightarrow> 's nft_backend \<Rightarrow> NftDnatConfig \<Rightarrow> ('s, unit) py" where
  "nft_check_compatibility env b config =
     (if table_family config \<noteq> nb_table_family b
      then praise (ValueError ''nftables backend address family mismatch'')
      else
        pbind (env_ownership env ''tcpcc-probe'') (\<lambda>ownership.
          check_nft_dnat_compatibility config ownership (tr_command_name (nb_transport b))
            (tr_run (nb_transport b)) (env_table_name env)))"

definition nft_install ::
  "'s host_env \<Rightarrow> 's nft_backend \<Rightarrow> NftDnatConfig \<Rightarrow> NftOwnership \<Rightarrow> ('s, NftDnatLease) py" where
  "nft_install env b config ownership =
     (if table_family config \<noteq> nb_table_family b
      then praise (ValueError ''nftables backend address family mismatch'')
      else install_nft_dnat config (tr_command_name (nb_transport b)) (tr_run (nb_transport b))
             (env_table_name env) (Some ownership) (tr_backend_id (nb_transport b)))"

section \<open>Valid configurations\<close>

definition valid_dnat_config :: "NftDnatConfig \<Rightarrow> bool" where
  "valid_dnat_config c \<longleftrightarrow>
     (\<exists>l t. dc_listen_address c = ip_str l \<and> dc_target_address c = ip_str t \<and> wf_ip l \<and> wf_ip t
        \<and> ip_version l = ip_version t \<and> l \<noteq> t
        \<and> \<not> is_unspecified l \<and> \<not> is_unspecified t \<and> \<not> is_multicast l \<and> \<not> is_multicast t)
     \<and> 1 \<le> dc_listen_port c \<and> dc_listen_port c \<le> 65535
     \<and> 1 \<le> dc_target_port c \<and> dc_target_port c \<le> 65535
     \<and> (\<forall>n. dc_table_name c = Some n \<longrightarrow> NFT_TABLE_NAME n)"

lemma parse_address_ip_str: "wf_ip a \<Longrightarrow> parse_address (ip_str a) = Inr a"
  by (simp add: parse_address_def ip_address_ip_str)

lemma table_argument_Inr:
  "table_argument v = Inr n \<longleftrightarrow>
     (v = PNone \<and> n = None \<or> (\<exists>t. v = PStr t \<and> n = Some t \<and> NFT_TABLE_NAME t))"
  by (cases v) (auto simp: table_argument_def rbind_eq_Inr validate_nft_table_name_Inr)

lemma NftDnatConfig_init_Inr:
  "NftDnatConfig_init la lp ta tp n = Inr c \<longleftrightarrow>
     (\<exists>ls ts l t. la = PStr ls \<and> ta = PStr ts \<and> ip_address ls = Some l \<and> ip_address ts = Some t
        \<and> \<not> is_unspecified l \<and> \<not> is_multicast l \<and> \<not> is_unspecified t \<and> \<not> is_multicast t
        \<and> validate_port lp ''listen_port'' = Inr (dc_listen_port c)
        \<and> validate_port tp ''target_port'' = Inr (dc_target_port c)
        \<and> ip_version l = ip_version t \<and> l \<noteq> t \<and> table_argument n = Inr (dc_table_name c)
        \<and> dc_listen_address c = ip_str l \<and> dc_target_address c = ip_str t)" (is "?L \<longleftrightarrow> ?R")
proof
  assume ?L
  then obtain ls ts l t l' t' lpi tpi nn where a: "la = PStr ls" "ta = PStr ts" "ip_address ls = Some l"
    "ip_address ts = Some t" "\<not> is_unspecified l" "\<not> is_multicast l" "\<not> is_unspecified t" "\<not> is_multicast t"
    "validate_port lp ''listen_port'' = Inr lpi" "validate_port tp ''target_port'' = Inr tpi"
    "parse_address (ip_str l) = Inr l'" "parse_address (ip_str t) = Inr t'" "ip_version l' = ip_version t'"
    "ip_str l \<noteq> ip_str t" "table_argument n = Inr nn"
    "c = \<lparr>dc_listen_address = ip_str l, dc_listen_port = lpi, dc_target_address = ip_str t,
           dc_target_port = tpi, dc_table_name = nn\<rparr>"
    unfolding NftDnatConfig_init_def rbind_eq_Inr validate_endpoint_address_Inr rguard_eq_Inr by blast
  then have "l' = l" "t' = t" using parse_address_ip_str ip_address_wf by fastforce+
  with a show ?R by auto
next
  assume ?R
  then obtain ls ts l t where a: "la = PStr ls" "ta = PStr ts" "ip_address ls = Some l"
    "ip_address ts = Some t" "\<not> is_unspecified l" "\<not> is_multicast l" "\<not> is_unspecified t" "\<not> is_multicast t"
    "validate_port lp ''listen_port'' = Inr (dc_listen_port c)"
    "validate_port tp ''target_port'' = Inr (dc_target_port c)"
    "ip_version l = ip_version t" "l \<noteq> t" "table_argument n = Inr (dc_table_name c)"
    "dc_listen_address c = ip_str l" "dc_target_address c = ip_str t" by blast
  have w: "wf_ip l" "wf_ip t" using a(3,4) ip_address_wf by blast+
  then have "ip_str l \<noteq> ip_str t" using a(12) ip_str_inject by blast
  with a w show ?L
    by (simp add: NftDnatConfig_init_def validate_endpoint_address_def parse_address_ip_str)
qed

lemma NftDnatConfig_init_valid:
  assumes "NftDnatConfig_init la lp ta tp n = Inr c"
  shows "valid_dnat_config c"
proof -
  from assms obtain ls ts l t where a: "ip_address ls = Some l"
    "ip_address ts = Some t" "\<not> is_unspecified l" "\<not> is_multicast l" "\<not> is_unspecified t" "\<not> is_multicast t"
    "ip_version l = ip_version t" "l \<noteq> t" "table_argument n = Inr (dc_table_name c)"
    "dc_listen_address c = ip_str l" "dc_target_address c = ip_str t"
    and p: "validate_port lp ''listen_port'' = Inr (dc_listen_port c)"
    "validate_port tp ''target_port'' = Inr (dc_target_port c)"
    unfolding NftDnatConfig_init_Inr by blast
  have w: "wf_ip l" "wf_ip t" using a(1,2) ip_address_wf by blast+
  show ?thesis
    unfolding valid_dnat_config_def
    by (rule conjI, rule exI [of _ l], rule exI [of _ t])
      (use a w p in \<open>auto simp: validate_port_Inr table_argument_Inr\<close>)
qed

text \<open>
  C40: a DNAT configuration is constructed exactly from two different usable addresses of one
  family, two ports from 1 to 65535 and no table name or a valid one; the addresses are kept in
  canonical form.
\<close>

theorem NftDnatConfig_init_iff:
  "NftDnatConfig_init la lp ta tp n = Inr c \<longleftrightarrow>
     (\<exists>ls ts l t. la = PStr ls \<and> ta = PStr ts \<and> ip_address ls = Some l \<and> ip_address ts = Some t
        \<and> dc_listen_address c = ip_str l \<and> dc_target_address c = ip_str t
        \<and> lp = PInt (dc_listen_port c) \<and> tp = PInt (dc_target_port c)
        \<and> n = (case dc_table_name c of None \<Rightarrow> PNone | Some t \<Rightarrow> PStr t) \<and> valid_dnat_config c)"
  (is "?L \<longleftrightarrow> ?R")
proof
  assume L: ?L
  then obtain ls ts l t where a: "la = PStr ls" "ta = PStr ts" "ip_address ls = Some l"
    "ip_address ts = Some t" "table_argument n = Inr (dc_table_name c)"
    "dc_listen_address c = ip_str l" "dc_target_address c = ip_str t"
    and p: "validate_port lp ''listen_port'' = Inr (dc_listen_port c)"
    "validate_port tp ''target_port'' = Inr (dc_target_port c)"
    unfolding NftDnatConfig_init_Inr by blast
  with NftDnatConfig_init_valid [OF L] show ?R
    by (auto simp: validate_port_Inr table_argument_Inr split: option.split)
next
  assume ?R
  then obtain ls ts l t where a: "la = PStr ls" "ta = PStr ts" "ip_address ls = Some l"
    "ip_address ts = Some t" "dc_listen_address c = ip_str l" "dc_target_address c = ip_str t"
    "lp = PInt (dc_listen_port c)" "tp = PInt (dc_target_port c)"
    "n = (case dc_table_name c of None \<Rightarrow> PNone | Some t \<Rightarrow> PStr t)"
    and v: "valid_dnat_config c" by blast
  from v obtain l' t' where v': "dc_listen_address c = ip_str l'" "dc_target_address c = ip_str t'"
    "wf_ip l'" "wf_ip t'" "ip_version l' = ip_version t'" "l' \<noteq> t'" "\<not> is_unspecified l'"
    "\<not> is_unspecified t'" "\<not> is_multicast l'" "\<not> is_multicast t'"
    unfolding valid_dnat_config_def by blast
  have e: "l = l'" "t = t'" using a v' ip_address_wf ip_str_inject by metis+
  have "table_argument n = Inr (dc_table_name c)"
    using a(9) v by (cases "dc_table_name c") (auto simp: table_argument_Inr valid_dnat_config_def)
  with a v v' e show ?L
    unfolding NftDnatConfig_init_Inr
    by (auto simp: validate_port_Inr valid_dnat_config_def)
qed

section \<open>The lines of a batch\<close>

text \<open>An address of the configuration without a scope identifier is one word of a rule.\<close>

definition plain_dnat_config :: "NftDnatConfig \<Rightarrow> bool" where
  "plain_dnat_config c \<longleftrightarrow>
     list_all is_word_char (dc_listen_address c) \<and> list_all is_word_char (dc_target_address c)"

lemma plain_dnat_config_init:
  assumes "NftDnatConfig_init (PStr ls) lp (PStr ts) tp n = Inr c"
    "ip_address ls = Some l" "ip_address ts = Some t" "scope_free l" "scope_free t"
  shows "plain_dnat_config c"
  using assms ip_str_word by (auto simp: NftDnatConfig_init_Inr plain_dnat_config_def)

lemma table_family_cases: "table_family c = ''ip'' \<or> table_family c = ''ip6''"
  by (simp add: table_family_def)

lemma dnat_words:
  assumes "valid_dnat_config c"
  shows "list_all is_word_char (str_int (dc_listen_port c))"
    "list_all is_word_char (str_int (dc_target_port c))"
    "list_all is_word_char (table_family c)" "list_all is_word_char (address_selector c)"
proof -
  have "list_all is_word_char ''ip''" "list_all is_word_char ''ip6''" by code_simp+
  then show "list_all is_word_char (table_family c)" "list_all is_word_char (address_selector c)"
    by (simp_all only: table_family_def address_selector_def split: if_split) simp_all
qed (use assms in \<open>auto simp: valid_dnat_config_def intro!: str_int_word\<close>)

text \<open>A valid owner, as \<open>NftOwnership_init\<close> makes it.\<close>

definition valid_owner :: "NftOwnership \<Rightarrow> bool" where
  "valid_owner o' \<longleftrightarrow> 1 \<le> ow_pid o' \<and> 1 \<le> ow_start_time o' \<and> TUN_NAME (ow_tun_name o')
     \<and> ow_tun_name o' \<notin> set [''.'', ''..'']"

lemma NftOwnership_init_valid: "NftOwnership_init p st t = Inr o' \<Longrightarrow> valid_owner o'"
  by (auto simp: NftOwnership_init_def rbind_eq_Inr positive_field_def validate_tun_name_Inr
      valid_owner_def Let_def split: pyval.splits if_splits)

definition line_free :: "string \<Rightarrow> bool" where
  "line_free t \<longleftrightarrow> CHR 0x0A \<notin> set t"

lemma line_free_append [simp]: "line_free (a @ b) \<longleftrightarrow> line_free a \<and> line_free b"
  by (auto simp: line_free_def)

lemma line_free_word: "list_all is_word_char t \<Longrightarrow> line_free t"
  unfolding line_free_def by (rule word_free) simp_all

lemma valid_owner_words:
  assumes "valid_owner o'"
  shows "list_all is_word_char (str_int (ow_pid o'))" "list_all is_word_char (str_int (ow_start_time o'))"
    "list_all is_word_char (ow_tun_name o')"
  using assms by (simp_all add: valid_owner_def str_int_word tun_name_word)

lemma line_free_marker: "valid_owner o' \<Longrightarrow> line_free (marker o')"
  using valid_owner_words [THEN line_free_word] by (simp add: marker_def) (simp add: line_free_def)

lemma line_free_destination:
  assumes "valid_dnat_config c" "plain_dnat_config c"
  shows "line_free (dnat_destination c)"
  using assms line_free_word dnat_words(2) [OF assms(1), THEN line_free_word]
  by (simp add: dnat_destination_def plain_dnat_config_def) (simp add: line_free_def)

definition create_line :: "NftDnatConfig \<Rightarrow> string \<Rightarrow> string" where
  "create_line c t = ''create table '' @ table_family c @ '' '' @ t"

definition chain_line :: "NftDnatConfig \<Rightarrow> string \<Rightarrow> string" where
  "chain_line c t = ''add chain '' @ table_family c @ '' '' @ t
     @ '' prerouting { type nat hook prerouting priority dstnat; policy accept; }''"

definition rule_line :: "NftDnatConfig \<Rightarrow> string \<Rightarrow> NftOwnership option \<Rightarrow> string" where
  "rule_line c t ownership = ''add rule '' @ table_family c @ '' '' @ t @ '' prerouting ''
     @ address_selector c @ '' daddr '' @ dc_listen_address c
     @ '' tcp dport '' @ str_int (dc_listen_port c) @ '' counter dnat to '' @ dnat_destination c
     @ (case ownership of
          None \<Rightarrow> [] | Some o' \<Rightarrow> '' comment '' @ [QUOTE] @ marker o' @ [QUOTE])"

lemma dnat_batch_lines:
  "dnat_batch c t o' = join [CHR 0x0A] [create_line c t, chain_line c t, rule_line c t o', []]"
  by (simp only: dnat_batch_def create_line_def chain_line_def rule_line_def NEWLINE_def join.simps
      append_assoc append_Nil2)

lemma line_free_lines:
  assumes "valid_dnat_config c" "plain_dnat_config c" "NFT_TABLE_NAME t"
    "\<And>o'. ownership = Some o' \<Longrightarrow> valid_owner o'"
  shows "line_free (create_line c t)" "line_free (chain_line c t)" "line_free (rule_line c t ownership)"
proof -
  note w = dnat_words [OF assms(1), THEN line_free_word] table_name_word [OF assms(3), THEN line_free_word]
    line_free_destination [OF assms(1,2)]
  have a: "line_free (dc_listen_address c)" using assms(2) line_free_word by (simp add: plain_dnat_config_def)
  show "line_free (create_line c t)" by (simp only: create_line_def line_free_append w) (simp add: line_free_def)
  show "line_free (chain_line c t)" by (simp only: chain_line_def line_free_append w) (simp add: line_free_def)
  have "line_free (case ownership of
      None \<Rightarrow> [] | Some o' \<Rightarrow> '' comment '' @ [QUOTE] @ marker o' @ [QUOTE])"
    using assms(4) line_free_marker
    by (cases ownership) (simp_all, simp_all add: line_free_def QUOTE_def)
  then show "line_free (rule_line c t ownership)"
    by (simp only: rule_line_def line_free_append w a) (simp add: line_free_def)
qed

lemma split_dnat_batch:
  assumes "valid_dnat_config c" "plain_dnat_config c" "NFT_TABLE_NAME t"
    "\<And>o'. ownership = Some o' \<Longrightarrow> valid_owner o'"
  shows "split_on (CHR 0x0A) (dnat_batch c t ownership) =
           [create_line c t, chain_line c t, rule_line c t ownership, []]"
  unfolding dnat_batch_lines
  by (rule split_on_join) (use line_free_lines [OF assms] in \<open>auto simp: line_free_def\<close>)

text \<open>
  \<^verbatim>\<open>nft\<close> ends a command at a line break, and at a semicolon outside braces: a line is one command
  where no semicolon comes before the first brace, and nothing comes after the block it opens.
\<close>

definition one_command :: "string \<Rightarrow> bool" where
  "one_command l \<longleftrightarrow>
     CHR '';'' \<notin> set (takeWhile (\<lambda>c. c \<noteq> CHR ''{'') l) \<and> CHR ''}'' \<notin> set (butlast (dropWhile (\<lambda>c. c \<noteq> CHR ''{'') l))"

definition bare :: "string \<Rightarrow> bool" where
  "bare t \<longleftrightarrow> CHR '';'' \<notin> set t \<and> CHR ''{'' \<notin> set t"

lemma bare_append [simp]: "bare (a @ b) \<longleftrightarrow> bare a \<and> bare b"
  by (auto simp: bare_def)

lemma bare_word: "list_all is_word_char t \<Longrightarrow> bare t"
proof -
  have "\<not> is_word_char (CHR '';'')" "\<not> is_word_char (CHR ''{'')" by code_simp+
  then show "list_all is_word_char t \<Longrightarrow> bare t" unfolding bare_def list_all_iff by blast
qed

lemma bare_one_command: "bare l \<Longrightarrow> one_command l"
proof -
  assume b: "bare l"
  then have "\<forall>c \<in> set l. c \<noteq> CHR ''{''" unfolding bare_def by blast
  then have t: "takeWhile (\<lambda>c. c \<noteq> CHR ''{'') l = l" "dropWhile (\<lambda>c. c \<noteq> CHR ''{'') l = []" by simp_all
  show "one_command l" unfolding one_command_def t using b by (simp add: bare_def)
qed

lemma block_one_command:
  assumes "bare p" "CHR ''}'' \<notin> set (butlast block)"
  shows "one_command (p @ CHR ''{'' # block)"
proof -
  have p: "\<And>c. c \<in> set p \<Longrightarrow> c \<noteq> CHR ''{''" using assms(1) unfolding bare_def by blast
  have "takeWhile (\<lambda>c. c \<noteq> CHR ''{'') (p @ CHR ''{'' # block) = p"
    "dropWhile (\<lambda>c. c \<noteq> CHR ''{'') (p @ CHR ''{'' # block) = CHR ''{'' # block"
    using takeWhile_append2 [of p "\<lambda>c. c \<noteq> CHR ''{''"] dropWhile_append2 [of p "\<lambda>c. c \<noteq> CHR ''{''"] p by simp_all
  with assms show ?thesis by (simp add: one_command_def bare_def)
qed

lemma one_command_lines:
  assumes "valid_dnat_config c" "plain_dnat_config c" "NFT_TABLE_NAME t"
    "\<And>o'. ownership = Some o' \<Longrightarrow> valid_owner o'"
  shows "one_command (create_line c t)" "one_command (chain_line c t)" "one_command (rule_line c t ownership)"
proof -
  note w = dnat_words [OF assms(1), THEN bare_word] table_name_word [OF assms(3), THEN bare_word]
  have a: "bare (dc_listen_address c)" "bare (dc_target_address c)"
    using assms(2) bare_word by (simp_all add: plain_dnat_config_def)
  show "one_command (create_line c t)"
    by (rule bare_one_command, simp only: create_line_def bare_append w) (simp add: bare_def)
  have "bare (''add chain '' @ table_family c @ '' '' @ t @ '' prerouting '')"
    by (simp only: bare_append w) (simp add: bare_def)
  from block_one_command [OF this, of "'' type nat hook prerouting priority dstnat; policy accept; }''"]
  show "one_command (chain_line c t)" by (simp add: chain_line_def)
  have d: "bare (dnat_destination c)"
    using a w by (simp add: dnat_destination_def) (simp add: bare_def)
  have "bare (marker o')" if "ownership = Some o'" for o'
    using valid_owner_words [OF assms(4) [OF that], THEN bare_word]
    by (simp only: marker_def bare_append) (simp add: bare_def)
  then have "bare (case ownership of None \<Rightarrow> [] | Some o' \<Rightarrow> '' comment '' @ [QUOTE] @ marker o' @ [QUOTE])"
    by (cases ownership) (simp_all, simp_all add: bare_def QUOTE_def)
  then show "one_command (rule_line c t ownership)"
    by (intro bare_one_command) (simp only: rule_line_def bare_append w a d, simp add: bare_def)
qed

text \<open>
  The table that a batch of three commands creates: the first line creates a table and the others
  add a chain and a rule.
\<close>

definition batch_table :: "string \<Rightarrow> (string \<times> string) option" where
  "batch_table text =
     (case split_on (CHR 0x0A) text of
        [l1, l2, l3, l4] \<Rightarrow>
          (if l4 = [] \<and> startswith l2 ''add chain '' \<and> startswith l3 ''add rule ''
              \<and> list_all one_command [l1, l2, l3] then
             (case split_on (CHR '' '') l1 of
                [w1, w2, family, name] \<Rightarrow>
                  (if w1 = ''create'' \<and> w2 = ''table'' \<and> family \<in> set [''ip'', ''ip6''] \<and> NFT_TABLE_NAME name
                   then Some (family, name) else None)
              | _ \<Rightarrow> None)
           else None)
      | _ \<Rightarrow> None)"

lemma create_line_words:
  assumes "NFT_TABLE_NAME t"
  shows "split_on (CHR '' '') (create_line c t) = [''create'', ''table'', table_family c, t]"
proof -
  have "create_line c t = join [CHR '' ''] [''create'', ''table'', table_family c, t]"
    by (simp add: create_line_def)
  moreover have "CHR '' '' \<notin> set (table_family c)" using table_family_cases [of c] by auto
  moreover have "CHR '' '' \<notin> set t" using table_name_word [OF assms] by (rule word_free) simp
  ultimately show ?thesis by (auto simp only: intro!: split_on_join) auto
qed

lemma batch_table_dnat_batch:
  assumes "valid_dnat_config c" "plain_dnat_config c" "NFT_TABLE_NAME t"
    "\<And>o'. ownership = Some o' \<Longrightarrow> valid_owner o'"
  shows "batch_table (dnat_batch c t ownership) = Some (table_family c, t)"
proof -
  have "startswith (chain_line c t) ''add chain ''" "startswith (rule_line c t ownership) ''add rule ''"
    unfolding chain_line_def rule_line_def by (rule startswith_append)+
  then show ?thesis
    using assms(3) table_family_cases [of c]
    by (simp add: batch_table_def split_dnat_batch [OF assms] create_line_words [OF assms(3)] one_command_lines [OF assms])
qed

text \<open>
  C25: for a configuration without scope identifiers the batch has exactly three commands, one
  that creates the table, one that adds its chain and one that adds its rule, whatever the table
  name and the owner are.
\<close>

theorem dnat_batch_three_commands:
  assumes "NftDnatConfig_init (PStr ls) lp (PStr ts) tp n = Inr c"
    "ip_address ls = Some l" "ip_address ts = Some t" "scope_free l" "scope_free t"
    "validate_nft_table_name (PStr name) = Inr name" "NftOwnership_init p st tun = Inr ownership"
  shows "split_on (CHR 0x0A) (dnat_batch c name (Some ownership)) =
           [create_line c name, chain_line c name, rule_line c name (Some ownership), []]
         \<and> batch_table (dnat_batch c name (Some ownership)) = Some (table_family c, name)"
proof -
  have v: "valid_dnat_config c" "plain_dnat_config c" "NFT_TABLE_NAME name" "valid_owner ownership"
    using assms NftDnatConfig_init_valid plain_dnat_config_init NftOwnership_init_valid
      validate_nft_table_name_Inr by blast+
  have o: "\<And>o'. Some ownership = Some o' \<Longrightarrow> valid_owner o'" using v(4) by simp
  show ?thesis using split_dnat_batch [OF v(1-3) o] batch_table_dnat_batch [OF v(1-3) o] by blast
qed

definition sample_dnat :: NftDnatConfig where
  "sample_dnat = \<lparr>dc_listen_address = ip_str (IPv4 0x0A000001), dc_listen_port = 80,
     dc_target_address = ip_str (IPv4 0x0A000002), dc_target_port = 8080, dc_table_name = None\<rparr>"

definition sample_owner :: NftOwnership where
  "sample_owner = \<lparr>ow_pid = 7, ow_start_time = 12, ow_tun_name = ''tun0''\<rparr>"

lemma sample_address: "ip_address (ip_str (IPv4 w)) = Some (IPv4 w)"
  by (rule ip_address_ip_str) simp

lemma sample_dnat_init:
  "NftDnatConfig_init (PStr (ip_str (IPv4 0x0A000001))) (PInt 80) (PStr (ip_str (IPv4 0x0A000002)))
     (PInt 8080) PNone = Inr sample_dnat"
  unfolding NftDnatConfig_init_Inr
  by (intro exI conjI, rule refl, rule refl, rule sample_address, rule sample_address)
    (simp_all add: is_unspecified_def validate_port_Inr table_argument_Inr sample_dnat_def
      del: ip_str.simps)

lemma sample_owner_init:
  "NftOwnership_init (PInt 7) (PInt 12) (PStr ''tun0'') = Inr sample_owner"
  "validate_nft_table_name (PStr ''tcpcc_0a'') = Inr ''tcpcc_0a''"
  by code_simp+

lemma sample_family: "table_family sample_dnat = ''ip''"
  by (simp add: table_family_def dnat_ip_version_def sample_dnat_def sample_address del: ip_str.simps)

theorem dnat_batch_three_commands_witness:
  "batch_table (dnat_batch sample_dnat ''tcpcc_0a'' (Some sample_owner)) = Some (''ip'', ''tcpcc_0a'')"
  using dnat_batch_three_commands [OF sample_dnat_init sample_address sample_address _ _
      sample_owner_init(2,1)] sample_family by simp

text \<open>
  A scope identifier is kept in the address text and \<^verbatim>\<open>ipaddress\<close> allows any character but
  \<^verbatim>\<open>%\<close> and \<^verbatim>\<open>/\<close> in it, a line break included; the validators accept such an address.
\<close>

definition scoped_address :: string where
  "scoped_address = ip_str (IPv6 1 (Some (''a'' @ NEWLINE @ ''flush ruleset'' @ NEWLINE @ ''b'')))"

text \<open>
  C26: a listen address with a scope identifier that holds line breaks is accepted, and its
  text reaches the batch as a command of its own.
\<close>

theorem scope_identifier_injects:
  "\<exists>c. NftDnatConfig_init (PStr scoped_address) (PInt 80) (PStr (ip_str (IPv6 2 None))) (PInt 80) PNone = Inr c
       \<and> ''flush ruleset'' \<in> set (split_on (CHR 0x0A) (dnat_batch c name ownership))"
proof -
  let ?a = "IPv6 1 (Some (''a'' @ NEWLINE @ ''flush ruleset'' @ NEWLINE @ ''b''))"
  let ?c = "\<lparr>dc_listen_address = scoped_address, dc_listen_port = 80, dc_target_address = ip_str (IPv6 2 None),
     dc_target_port = 80, dc_table_name = None\<rparr>"
  have w: "wf_ip ?a" by (simp add: NEWLINE_def)
  have a: "ip_address scoped_address = Some ?a" unfolding scoped_address_def by (rule ip_address_ip_str [OF w])
  have t: "ip_address (ip_str (IPv6 2 None)) = Some (IPv6 2 None)" by (rule ip_address_ip_str) simp
  have "NftDnatConfig_init (PStr scoped_address) (PInt 80) (PStr (ip_str (IPv6 2 None))) (PInt 80) PNone = Inr ?c"
    unfolding NftDnatConfig_init_Inr
    by (intro exI conjI, rule refl, rule refl, rule a, rule t)
      (simp_all add: is_unspecified_def validate_port_Inr table_argument_Inr scoped_address_def del: ip_str.simps)
  moreover obtain pre post where
    "dnat_batch ?c name ownership = pre @ CHR 0x0A # ''flush ruleset'' @ CHR 0x0A # post"
    by (rule that [of "''create table '' @ table_family ?c @ '' '' @ name @ NEWLINE
         @ ''add chain '' @ table_family ?c @ '' '' @ name
         @ '' prerouting { type nat hook prerouting priority dstnat; policy accept; }'' @ NEWLINE
         @ ''add rule '' @ table_family ?c @ '' '' @ name @ '' prerouting ''
         @ address_selector ?c @ '' daddr '' @ v6_str (unat (1 :: 128 word)) @ ''%a''"])
      (simp only: dnat_batch_def NftDnatConfig.simps scoped_address_def ip_str.simps option.case NEWLINE_def
        append_assoc append_Cons append_Nil)
  ultimately show ?thesis using split_on_middle [of "CHR 0x0A" "''flush ruleset''"] by auto
qed

section \<open>Installing and deleting a table\<close>

text \<open>
  What nftables promises about the tables of the host (\<open>tables\<close>, by family and name): a
  batch is applied as a whole or not at all, \<^verbatim>\<open>create table\<close> fails when the table exists, a
  check has no effect, and deleting a table that is named by one identifier removes that table.
\<close>

definition table_key :: "string \<times> string \<Rightarrow> bool" where
  "table_key k \<longleftrightarrow> fst k \<in> set [''ip'', ''ip6''] \<and> NFT_TABLE_NAME (snd k)"

lemma table_key_config: "NFT_TABLE_NAME name \<Longrightarrow> table_key (table_family c, name)"
  using table_family_cases [of c] by (auto simp: table_key_def)

definition nft_kernel :: "'s nft_runner \<Rightarrow> string \<Rightarrow> ('s \<Rightarrow> (string \<times> string) set) \<Rightarrow> bool" where
  "nft_kernel runner path tables \<longleftrightarrow>
     (\<forall>text s e s'. runner [path, ''--file'', ''-''] (Some text) s = (Inl e, s') \<longrightarrow> tables s' = tables s)
     \<and> (\<forall>text k s s'. runner [path, ''--file'', ''-''] (Some text) s = (Inr (), s') \<longrightarrow> batch_table text = Some k
          \<longrightarrow> k \<notin> tables s \<and> tables s' = insert k (tables s))
     \<and> (\<forall>text. keeps tables (runner [path, ''--check'', ''--file'', ''-''] (Some text)))
     \<and> (\<forall>family name s e s'. table_key (family, name) \<longrightarrow>
          runner [path, ''delete'', ''table'', family, name] None s = (Inl e, s') \<longrightarrow> tables s' = tables s)
     \<and> (\<forall>family name s s'. table_key (family, name) \<longrightarrow>
          runner [path, ''delete'', ''table'', family, name] None s = (Inr (), s')
          \<longrightarrow> tables s' = tables s - {(family, name)})"

lemma nft_kernelD:
  assumes "nft_kernel runner path tables"
  shows "runner [path, ''--file'', ''-''] (Some text) s = (Inl e, s') \<Longrightarrow> tables s' = tables s"
    "runner [path, ''--file'', ''-''] (Some text) s = (Inr (), s') \<Longrightarrow> batch_table text = Some k
       \<Longrightarrow> k \<notin> tables s \<and> tables s' = insert k (tables s)"
    "keeps tables (runner [path, ''--check'', ''--file'', ''-''] (Some text))"
    "table_key (family, name) \<Longrightarrow> runner [path, ''delete'', ''table'', family, name] None s = (Inl e, s')
       \<Longrightarrow> tables s' = tables s"
    "table_key (family, name) \<Longrightarrow> runner [path, ''delete'', ''table'', family, name] None s = (Inr (), s')
       \<Longrightarrow> tables s' = tables s - {(family, name)}"
proof -
  note k = assms [unfolded nft_kernel_def]
  show "runner [path, ''--file'', ''-''] (Some text) s = (Inl e, s') \<Longrightarrow> tables s' = tables s"
    using k [THEN conjunct1] by blast
  show "runner [path, ''--file'', ''-''] (Some text) s = (Inr (), s') \<Longrightarrow> batch_table text = Some k
      \<Longrightarrow> k \<notin> tables s \<and> tables s' = insert k (tables s)"
    using k [THEN conjunct2, THEN conjunct1] by blast
  show "keeps tables (runner [path, ''--check'', ''--file'', ''-''] (Some text))"
    using k [THEN conjunct2, THEN conjunct2, THEN conjunct1] by blast
  show "table_key (family, name) \<Longrightarrow> runner [path, ''delete'', ''table'', family, name] None s = (Inl e, s') \<Longrightarrow> tables s' = tables s"
    using k [THEN conjunct2, THEN conjunct2, THEN conjunct2, THEN conjunct1] by blast
  show "table_key (family, name) \<Longrightarrow> runner [path, ''delete'', ''table'', family, name] None s = (Inr (), s')
      \<Longrightarrow> tables s' = tables s - {(family, name)}"
    using k [THEN conjunct2, THEN conjunct2, THEN conjunct2, THEN conjunct2] by blast
qed

lemma NftDnatLease_close_init:
  "NftDnatLease_close runner (NftDnatLease_init name path backend family) s = (r, l, s') \<longleftrightarrow>
     runner [path, ''delete'', ''table'', family, name] None s = (r, s')
     \<and> l = (NftDnatLease_init name path backend family)\<lparr>nl_closed := True\<rparr>"
  by (auto simp: NftDnatLease_close_def NftDnatLease_init_def split: prod.splits)

text \<open>A name is taken from the configuration or generated, and validated, before anything else.\<close>

lemma validated_name_steps:
  assumes "keeps obs factory"
    "pbind (case n of None \<Rightarrow> factory | Some n \<Rightarrow> pret n) (\<lambda>n.
       pbind (plift (validate (PStr n))) f) s = (r, s')"
  shows "(\<exists>e. r = Inl e \<and> obs s' = obs s) \<or>
    (\<exists>n name s1. validate (PStr n) = Inr name \<and> obs s1 = obs s \<and> f name s1 = (r, s'))"
proof -
  let ?m = "case n of None \<Rightarrow> factory | Some n \<Rightarrow> pret n"
  have k: "keeps obs ?m" using assms(1) by (cases n) (simp_all add: keeps_pret)
  obtain r1 s1 where 1: "?m s = (r1, s1)" by (cases "?m s")
  note t = keepsD [OF k 1]
  show ?thesis
  proof (cases r1)
    case (Inl e)
    then show ?thesis using 1 t assms(2) by (auto simp: pbind_def)
  next
    case (Inr n')
    show ?thesis
    proof (cases "validate (PStr n')")
      case (Inl e)
      then show ?thesis using 1 t assms(2) \<open>r1 = Inr n'\<close> by (auto simp: pbind_def plift_def praise_def)
    next
      case (Inr name)
      then show ?thesis using 1 t assms(2) \<open>r1 = Inr n'\<close> by (auto simp: pbind_def plift_def)
    qed
  qed
qed

lemma nft_close_tables:
  assumes "nft_kernel runner path tables" "table_key (family, name)"
    "NftDnatLease_close runner (NftDnatLease_init name path backend family) s = (r, l, s')"
  shows "nl_closed l \<and> tables s' = (if r = Inr () then tables s - {(family, name)} else tables s)"
proof -
  have l: "nl_closed l" and d: "runner [path, ''delete'', ''table'', family, name] None s = (r, s')"
    using assms(3) unfolding NftDnatLease_close_init by simp_all
  from d l show ?thesis using nft_kernelD(4,5) [OF assms(1,2), of s] by (cases r) auto
qed

lemma install_nft_dnat_tables:
  assumes "nft_kernel runner path tables" "valid_dnat_config c" "plain_dnat_config c"
    "valid_owner ownership" "keeps tables factory"
    "install_nft_dnat c path runner factory (Some ownership) backend s = (r, s')"
  shows "(\<exists>e. r = Inl e \<and> tables s' = tables s) \<or>
    (\<exists>name. NFT_TABLE_NAME name \<and> r = Inr (NftDnatLease_init name path backend (table_family c))
       \<and> (table_family c, name) \<notin> tables s \<and> tables s' = insert (table_family c, name) (tables s))"
proof -
  define after where "after name = pthen
      (runner [path, ''--file'', ''-''] (Some (dnat_batch c name (Some ownership))))
      (pret (NftDnatLease_init name path backend (table_family c)))" for name
  have "(\<exists>e. r = Inl e \<and> s' = s) \<or>
      pbind (case dc_table_name c of None \<Rightarrow> factory | Some n \<Rightarrow> pret n) (\<lambda>n.
        pbind (plift (validate_nft_table_name (PStr n))) after) s = (r, s')"
    using assms(6) unfolding install_nft_dnat_def after_def
    by (cases "is_executable_name (PStr path)") (auto simp: praise_def)
  then consider "\<exists>e. r = Inl e \<and> tables s' = tables s"
    | (run) name s1 where "NFT_TABLE_NAME name" "tables s1 = tables s" "after name s1 = (r, s')"
    using validated_name_steps [OF assms(5), of "dc_table_name c" validate_nft_table_name after s r s']
    unfolding validate_nft_table_name_Inr by blast
  then show ?thesis
  proof cases
    case run
    let ?R = "runner [path, ''--file'', ''-''] (Some (dnat_batch c name (Some ownership)))"
    have b: "batch_table (dnat_batch c name (Some ownership)) = Some (table_family c, name)"
      using assms(4) by (intro batch_table_dnat_batch assms(2,3) run(1)) simp
    consider (fail) e where "r = Inl e" "?R s1 = (Inl e, s')"
      | (ok) "r = Inr (NftDnatLease_init name path backend (table_family c))" "?R s1 = (Inr (), s')"
      using run(3) unfolding after_def pret_def
      by (cases r) (auto simp: pthen_eq_Inr pthen_eq_Inl)
    then show ?thesis
    proof cases
      case fail
      then show ?thesis using nft_kernelD(1) [OF assms(1) fail(2)] run(2) by simp
    next
      case ok
      then show ?thesis using nft_kernelD(2) [OF assms(1) ok(2) b] run(1,2) by auto
    qed
  qed blast
qed

text \<open>
  C10: installing either fails and leaves every table of the host alone, or creates exactly the
  table of the returned lease, which did not exist before; closing that lease later removes
  exactly that table, or leaves every table alone where the deletion fails.
\<close>

theorem nft_install_close_exact:
  assumes "nft_kernel runner path tables" "valid_dnat_config c" "plain_dnat_config c"
    "valid_owner ownership" "keeps tables factory"
    "install_nft_dnat c path runner factory (Some ownership) backend s = (r, s')"
  shows "(\<exists>e. r = Inl e \<and> tables s' = tables s) \<or>
    (\<exists>l. r = Inr l \<and> (table_family c, nl_table_name l) \<notin> tables s
       \<and> tables s' = insert (table_family c, nl_table_name l) (tables s)
       \<and> (\<forall>s2 r2 l2 s3. NftDnatLease_close runner l s2 = (r2, l2, s3) \<longrightarrow>
            nl_closed l2
            \<and> tables s3 = (if r2 = Inr () then tables s2 - {(table_family c, nl_table_name l)}
                           else tables s2)))"
  using install_nft_dnat_tables [OF assms]
proof (elim disjE exE conjE)
  fix name assume a: "NFT_TABLE_NAME name" "r = Inr (NftDnatLease_init name path backend (table_family c))"
    "(table_family c, name) \<notin> tables s" "tables s' = insert (table_family c, name) (tables s)"
  have "nl_table_name (NftDnatLease_init name path backend (table_family c)) = name"
    by (simp add: NftDnatLease_init_def)
  with a nft_close_tables [OF assms(1) table_key_config [OF a(1)]] show ?thesis
    by (intro disjI2 exI [of _ "NftDnatLease_init name path backend (table_family c)"]) simp
qed blast

text \<open>A host whose state is its set of tables.\<close>

definition table_host :: "(string \<times> string) set nft_runner" where
  "table_host argv input s =
     (let failed = (Inl (CalledProcessError 1 None ''nft''), s)
      in case input of
           Some text \<Rightarrow>
             (if argv = [''nft'', ''--file'', ''-''] then
                (case batch_table text of
                   Some k \<Rightarrow> (if k \<in> s then failed else (Inr (), insert k s))
                 | None \<Rightarrow> failed)
              else (Inr (), s))
         | None \<Rightarrow>
             (if length argv = 5 \<and> (argv ! 3, argv ! 4) \<in> s then (Inr (), s - {(argv ! 3, argv ! 4)})
              else failed))"

lemma table_host_kernel: "nft_kernel table_host ''nft'' (\<lambda>s. s)"
  unfolding nft_kernel_def
  by (auto simp: table_host_def keeps_def Let_def split: option.splits if_splits)

theorem nft_install_close_exact_witness:
  "\<exists>l. install_nft_dnat sample_dnat ''nft'' table_host (pret ''tcpcc_0a'') (Some sample_owner) ''nft-exec''
         {(''ip6'', ''other'')} = (Inr l, {(''ip'', ''tcpcc_0a''), (''ip6'', ''other'')})"
proof -
  have v: "valid_dnat_config sample_dnat" "plain_dnat_config sample_dnat" "valid_owner sample_owner"
    using NftDnatConfig_init_valid [OF sample_dnat_init] NftOwnership_init_valid [OF sample_owner_init(1)]
      plain_dnat_config_init [OF sample_dnat_init sample_address sample_address] by simp_all
  have b: "batch_table (dnat_batch sample_dnat ''tcpcc_0a'' (Some sample_owner)) = Some (''ip'', ''tcpcc_0a'')"
    using batch_table_dnat_batch [OF v(1,2), of "''tcpcc_0a''" "Some sample_owner"] v(3) sample_family
      sample_owner_init(2) by (simp add: validate_nft_table_name_Inr)
  have n: "is_executable_name (PStr ''nft'')" by code_simp
  have d: "dc_table_name sample_dnat = None" by (simp add: sample_dnat_def)
  have e: "install_nft_dnat sample_dnat ''nft'' table_host (pret ''tcpcc_0a'') (Some sample_owner) ''nft-exec''
      {(''ip6'', ''other'')} = (Inr (NftDnatLease_init ''tcpcc_0a'' ''nft'' ''nft-exec'' ''ip''),
        {(''ip'', ''tcpcc_0a''), (''ip6'', ''other'')})"
    by (simp add: install_nft_dnat_def n d pbind_def
        plift_def pret_def pthen_def sample_owner_init(2) table_host_def b sample_family)
  from nft_install_close_exact [OF table_host_kernel v keeps_pret e] e show ?thesis by auto
qed

section \<open>The libnftables transport\<close>

text \<open>
  What the library promises about the contexts that are allocated: a new context is not one of
  them yet and is one afterwards, freeing returns and removes it, and no other function changes
  them.
\<close>

definition context_table :: "'s nft_library \<Rightarrow> ('s \<Rightarrow> int set) \<Rightarrow> bool" where
  "context_table lib contexts \<longleftrightarrow>
     (\<forall>s r s'. lib_ctx_new lib 0 s = (r, s') \<longrightarrow>
        (case r of
           Inr (Some c) \<Rightarrow> c \<notin> contexts s \<and> contexts s' = insert c (contexts s)
         | _ \<Rightarrow> contexts s' = contexts s))
     \<and> (\<forall>c s. \<exists>s'. lib_ctx_free lib c s = (Inr (), s') \<and> contexts s' = contexts s - {c})
     \<and> (\<forall>c. keeps contexts (lib_buffer_output lib c)) \<and> (\<forall>c. keeps contexts (lib_buffer_error lib c))
     \<and> (\<forall>c. keeps contexts (lib_get_output lib c)) \<and> (\<forall>c. keeps contexts (lib_get_error lib c))
     \<and> (\<forall>c b. keeps contexts (lib_set_dry_run lib c b)) \<and> (\<forall>c b. keeps contexts (lib_run_cmd lib c b))
     \<and> (\<forall>c b. keeps contexts (lib_set_json lib c b)) \<and> (\<forall>c. keeps contexts (lib_get_flags lib c))
     \<and> (\<forall>c f. keeps contexts (lib_set_flags lib c f))"

definition contexts_known :: "'s lib_transport \<Rightarrow> ('s \<Rightarrow> int set) \<Rightarrow> bool" where
  "contexts_known t contexts \<longleftrightarrow>
     (\<forall>n. keeps contexts (lt_finder t n)) \<and> (\<forall>p. keeps contexts (lt_loader t p))
     \<and> (\<forall>h. context_table (lt_library t h) contexts)"

lemma keeps_run_in_context:
  assumes "context_table lib contexts"
  shows "keeps contexts (run_in_context lib c command dry_run json_output)"
proof -
  have k: "\<And>c. keeps contexts (lib_buffer_output lib c)" "\<And>c. keeps contexts (lib_buffer_error lib c)"
    "\<And>c. keeps contexts (lib_get_output lib c)" "\<And>c. keeps contexts (lib_get_error lib c)"
    "\<And>c b. keeps contexts (lib_set_dry_run lib c b)" "\<And>c b. keeps contexts (lib_run_cmd lib c b)"
    "\<And>c b. keeps contexts (lib_set_json lib c b)" "\<And>c. keeps contexts (lib_get_flags lib c)"
    "\<And>c f. keeps contexts (lib_set_flags lib c f)"
    using assms unfolding context_table_def by (elim conjE, blast)+
  show ?thesis unfolding run_in_context_def by (intro keeps_intros k)
qed

lemma keeps_in_new_context:
  assumes "context_table lib contexts" "lib_ctx_new lib 0 s = (Inr (Some c), s1)"
    "pfinally (run_in_context lib c command dry_run json_output) (lib_ctx_free lib c) s1 = (r, s2)"
  shows "contexts s2 = contexts s"
proof -
  have new: "c \<notin> contexts s" "contexts s1 = insert c (contexts s)"
    using assms(1) [unfolded context_table_def, THEN conjunct1, rule_format, OF assms(2)] by simp_all
  obtain r3 s3 where run: "run_in_context lib c command dry_run json_output s1 = (r3, s3)" by fastforce
  obtain s4 where free: "lib_ctx_free lib c s3 = (Inr (), s4)" "contexts s4 = contexts s3 - {c}"
    using assms(1) [unfolded context_table_def, THEN conjunct2, THEN conjunct1] by blast
  have "s2 = s4" using assms(3) run free(1) by (simp add: pfinally_def)
  with keepsD [OF keeps_run_in_context [OF assms(1)] run] new free(2) show ?thesis by simp
qed

lemma keeps_lib_path:
  assumes "contexts_known t contexts"
  shows "keeps contexts (lib_path t)"
proof -
  have "keeps contexts (lt_finder t ''nftables'')" using assms unfolding contexts_known_def by blast
  then have "keeps contexts (case lt_library_path t of Some path \<Rightarrow> pret (Some path) | None \<Rightarrow> lt_finder t ''nftables'')"
    by (cases "lt_library_path t") (simp_all add: keeps_pret)
  then show ?thesis
    unfolding lib_path_def
  proof (rule keeps_pbind)
    fix found :: "string option"
    show "keeps contexts (case found of
          Some path \<Rightarrow>
            (if path = []
             then praise (OSError FileNotFoundError None
                    ''libnftables shared library was not found; install libnftables'')
             else pret path)
        | None \<Rightarrow> praise (OSError FileNotFoundError None
                    ''libnftables shared library was not found; install libnftables''))"
      by (cases found) (simp_all only: option.case keeps_praise keeps_if keeps_pret)
  qed
qed

lemma keeps_load_library:
  assumes "contexts_known t contexts"
  shows "keeps (contexts \<circ> fst) (load_library t)"
proof (rule keepsI)
  fix s r s' assume a: "load_library t s = (r, s')"
  have "keeps contexts (lt_loader t path)" for path using assms unfolding contexts_known_def by blast
  then have k: "keeps (contexts \<circ> fst) (on_fst (pbind (lib_path t) (lt_loader t)))"
    by (intro keeps_on_fst keeps_pbind keeps_lib_path [OF assms])
  have c: "keeps (contexts \<circ> fst) (pthen (plift (check_library (lt_library t h)))
      (\<lambda>s'. (Inr (lt_library t h), (fst s', Some h))))" for h
    by (intro keeps_pthen keeps_plift keepsI) auto
  show "(contexts \<circ> fst) s' = (contexts \<circ> fst) s"
  proof (cases "snd s")
    case None
    with a have "pbind (on_fst (pbind (lib_path t) (lt_loader t))) (\<lambda>handle.
        pthen (plift (check_library (lt_library t handle)))
          (\<lambda>s'. (Inr (lt_library t handle), (fst s', Some handle)))) s = (r, s')"
      by (simp only: load_library_def option.case)
    with keeps_pbind [OF k c] show ?thesis by (rule keepsD)
  next
    case (Some h)
    with a show ?thesis by (simp add: load_library_def)
  qed
qed

lemma load_library_known:
  assumes "contexts_known t contexts" "load_library t s = (Inr lib, s')"
  shows "context_table lib contexts"
proof -
  have "\<exists>h. lib = lt_library t h"
    using assms(2) unfolding load_library_def by (cases "snd s") (auto simp: pbind_cases)
  with assms(1) show ?thesis unfolding contexts_known_def by blast
qed

lemma keeps_with_context:
  assumes "context_table lib contexts" "\<And>x. keeps (contexts \<circ> fst) (f x)"
  shows "keeps (contexts \<circ> fst) (pbind (on_fst (lib_ctx_new lib 0)) (\<lambda>context.
     case context of
       None \<Rightarrow> praise e
     | Some c \<Rightarrow>
         pbind (on_fst (pfinally (run_in_context lib c command dry_run json_output) (lib_ctx_free lib c))) f))"
    (is "keeps _ (pbind _ ?k)")
proof (rule keepsI)
  fix s r s' assume a: "pbind (on_fst (lib_ctx_new lib 0)) ?k s = (r, s')"
  obtain r1 w1 where 1: "lib_ctx_new lib 0 (fst s) = (r1, w1)" by (cases "lib_ctx_new lib 0 (fst s)")
  note new = assms(1) [unfolded context_table_def, THEN conjunct1, rule_format, OF 1]
  have 2: "on_fst (lib_ctx_new lib 0) s = (r1, (w1, snd s))" by (simp add: on_fst_def 1)
  consider (raised) e' where "r1 = Inl e'" | (null) "r1 = Inr None" | (new) c where "r1 = Inr (Some c)"
    by (cases r1; metis not_None_eq)
  then show "(contexts \<circ> fst) s' = (contexts \<circ> fst) s"
  proof cases
    case raised
    then have "s' = (w1, snd s)" using a 2 by (simp add: pbind_def)
    with new raised show ?thesis by simp
  next
    case null
    then have "s' = (w1, snd s)" using a 2 by (simp add: pbind_def praise_def)
    with new null show ?thesis by simp
  next
    case (new c)
    let ?body = "pfinally (run_in_context lib c command dry_run json_output) (lib_ctx_free lib c)"
    obtain r2 w2 where 3: "?body w1 = (r2, w2)" by (cases "?body w1")
    have k: "contexts w2 = contexts (fst s)"
      using keeps_in_new_context [OF assms(1) 1 [unfolded new] 3] .
    have 4: "on_fst ?body (w1, snd s) = (r2, (w2, snd s))" by (simp add: on_fst_def 3)
    have 5: "pbind (on_fst ?body) f (w1, snd s) = (r, s')" using a 2 new by (simp add: pbind_def)
    show ?thesis
    proof (cases r2)
      case (Inl e')
      with 4 5 have "s' = (w2, snd s)" by (simp add: pbind_def)
      with k show ?thesis by simp
    next
      case (Inr x)
      with 4 5 have "f x (w2, snd s) = (r, s')" by (simp add: pbind_def)
      with keepsD [OF assms(2) this] k show ?thesis by simp
    qed
  qed
qed

text \<open>
  C16: every call of the libnftables transport frees the context it allocated, whether the
  library rejects the command, a buffer cannot be set up or a call raises; no context is left
  behind on any path.
\<close>

theorem lib_contexts_freed:
  assumes "contexts_known t contexts"
  shows "keeps (contexts \<circ> fst) (invoke t command operation dry_run json_output)"
  unfolding invoke_def
  by (intro keeps_if keeps_praise keeps_pbind_result [OF keeps_load_library [OF assms]] keeps_with_context
      load_library_known [OF assms])
    (auto intro: keeps_intros split: prod.split)

text \<open>A library that keeps its live contexts as its state and rejects every command.\<close>

definition context_library :: "int list nft_library" where
  "context_library =
     \<lparr>lib_has = (\<lambda>_. True),
      lib_ctx_new = (\<lambda>_ s. (Inr (Some (foldr max s 0 + 1)), (foldr max s 0 + 1) # s)),
      lib_ctx_free = (\<lambda>c s. (Inr (), filter (\<lambda>x. x \<noteq> c) s)),
      lib_buffer_output = (\<lambda>_. pret 0), lib_buffer_error = (\<lambda>_. pret 0),
      lib_get_output = (\<lambda>_. pret None), lib_get_error = (\<lambda>_. pret None),
      lib_set_dry_run = (\<lambda>_ _. pret ()), lib_run_cmd = (\<lambda>_ _. pret 1),
      lib_set_json = (\<lambda>_ _. pret ()), lib_get_flags = (\<lambda>_. pret 0), lib_set_flags = (\<lambda>_ _. pret ()),
      lib_decode = (\<lambda>_. [])\<rparr>"

definition context_transport :: "int list lib_transport" where
  "context_transport =
     \<lparr>lt_library_path = Some ''libnftables.so.1'', lt_finder = (\<lambda>_. pret None), lt_loader = (\<lambda>_. pret 0),
      lt_library = (\<lambda>_. context_library)\<rparr>"

lemma foldr_max_fresh: "foldr max s (0 :: int) + 1 \<notin> set s"
proof -
  have "x \<le> foldr max s 0" if "x \<in> set s" for x using that by (induction s) auto
  then show ?thesis by fastforce
qed

lemma context_transport_known: "contexts_known context_transport set"
  using foldr_max_fresh
  by (auto simp: contexts_known_def context_table_def context_transport_def context_library_def
      intro: keeps_pret)

theorem lib_contexts_freed_witness:
  "invoke context_transport ''list ruleset'' ''list-ruleset'' False True ([], None) =
     (Inl (LibNftablesError ''list-ruleset'' 1 []), ([], Some 0))
   \<and> set (fst (snd (invoke context_transport ''list ruleset'' ''list-ruleset'' False True ([], None)))) = {}"
proof -
  have e: "invoke context_transport ''list ruleset'' ''list-ruleset'' False True ([], None) =
      (Inl (LibNftablesError ''list-ruleset'' 1 []), ([], Some 0))"
    by (simp add: invoke_def load_library_def lib_path_def context_transport_def context_library_def
        on_fst_def pbind_def pthen_def plift_def check_library_def pret_def praise_def pfinally_def
        run_in_context_def decode_buffer_def)
  with keepsD [OF lib_contexts_freed [OF context_transport_known] e] show ?thesis by simp
qed

lemma lib_run_apply:
  "lib_run t [''libnftables'', ''--file'', ''-''] (Some text) =
     pthen (invoke t text ''apply'' False False) (pret ())"
  "lib_run t [''libnftables'', ''--check'', ''--file'', ''-''] (Some text) =
     pthen (invoke t text ''dry-run'' True False) (pret ())"
  by (simp_all add: lib_run_def)

lemma lib_run_delete:
  assumes "family \<in> set [''ip'', ''ip6'']" "NFT_TABLE_NAME name"
  shows "lib_run t [''libnftables'', ''delete'', ''table'', family, name] None =
     pthen (invoke t (''delete table '' @ family @ '' '' @ name @ NEWLINE) ''delete'' False False) (pret ())"
proof -
  have "validate_nft_table_name (PStr name) = Inr name"
    using assms(2) by (simp add: validate_nft_table_name_Inr)
  then show ?thesis using assms(1) by (auto simp: lib_run_def plift_def)
qed

lemma lib_read_list:
  "family \<in> set [''ip'', ''ip6''] \<Longrightarrow>
     lib_read t [''libnftables'', ''--json'', ''list'', ''ruleset'', family] =
       invoke t (''list ruleset '' @ family @ NEWLINE) ''list-ruleset'' False True"
  by (auto simp: lib_read_def)

text \<open>
  C17: on the libnftables transport the backend never issues an invocation that the transport
  refuses.  Checking, installing, deleting and listing hand the library exactly the text that the
  command line transport gives to \<^verbatim>\<open>nft\<close> or the command its arguments spell, the check
  as a dry run.
\<close>

theorem lib_backend_commands:
  assumes "nb_transport b = lib_as_transport t" "nb_table_family b = table_family c"
  shows "nft_check_compatibility env b c =
           pbind (env_ownership env ''tcpcc-probe'') (\<lambda>ownership.
           pbind (env_table_name env) (\<lambda>n.
           pbind (plift (validate_nft_table_name (PStr n))) (\<lambda>name.
             phandle (pthen (invoke t (dnat_batch c name (Some ownership)) ''dry-run'' True False) (pret ()))
               (\<lambda>e. case e of CalledProcessError code err msg \<Rightarrow> praise (NftCompatibilityError e)
                    | _ \<Rightarrow> praise e))))
    \<and> nft_install env b c ownership =
           pbind (case dc_table_name c of None \<Rightarrow> env_table_name env | Some n \<Rightarrow> pret n) (\<lambda>n.
           pbind (plift (validate_nft_table_name (PStr n))) (\<lambda>name.
           pthen (pthen (invoke t (dnat_batch c name (Some ownership)) ''apply'' False False) (pret ()))
             (pret (NftDnatLease_init name ''libnftables'' ''nft-lib'' (table_family c)))))
    \<and> (\<forall>name s. NFT_TABLE_NAME name \<longrightarrow>
           NftDnatLease_close (lib_run t) (NftDnatLease_init name ''libnftables'' ''nft-lib'' (table_family c)) s =
             (case pthen (invoke t (''delete table '' @ table_family c @ '' '' @ name @ NEWLINE)
                            ''delete'' False False) (pret ()) s of
                (r, s') \<Rightarrow> (r, (NftDnatLease_init name ''libnftables'' ''nft-lib'' (table_family c))
                                 \<lparr>nl_closed := True\<rparr>, s')))
    \<and> nft_inspect_ownership env b =
           inspect_nft_ownership (table_family c) ''libnftables''
             (\<lambda>argv. if argv = [''libnftables'', ''--json'', ''list'', ''ruleset'', table_family c]
                then invoke t (''list ruleset '' @ table_family c @ NEWLINE) ''list-ruleset'' False True
                else praise (RuntimeError ''not issued'')) ''/proc'' (he_reader env)"
proof -
  have x: "is_executable_name (PStr ''libnftables'')" by code_simp
  have f: "table_family c \<in> set [''ip'', ''ip6'']" using table_family_cases by auto
  have check: "nft_check_compatibility env b c =
           pbind (env_ownership env ''tcpcc-probe'') (\<lambda>ownership.
           pbind (env_table_name env) (\<lambda>n.
           pbind (plift (validate_nft_table_name (PStr n))) (\<lambda>name.
             phandle (pthen (invoke t (dnat_batch c name (Some ownership)) ''dry-run'' True False) (pret ()))
               (\<lambda>e. case e of CalledProcessError code err msg \<Rightarrow> praise (NftCompatibilityError e)
                    | _ \<Rightarrow> praise e))))"
    by (simp add: nft_check_compatibility_def assms check_nft_dnat_compatibility_def x lib_run_apply
        lib_as_transport_def)
  have install: "nft_install env b c ownership =
           pbind (case dc_table_name c of None \<Rightarrow> env_table_name env | Some n \<Rightarrow> pret n) (\<lambda>n.
           pbind (plift (validate_nft_table_name (PStr n))) (\<lambda>name.
           pthen (pthen (invoke t (dnat_batch c name (Some ownership)) ''apply'' False False) (pret ()))
             (pret (NftDnatLease_init name ''libnftables'' ''nft-lib'' (table_family c)))))"
    by (simp add: nft_install_def assms install_nft_dnat_def x lib_run_apply lib_as_transport_def)
  have inspect: "nft_inspect_ownership env b =
           inspect_nft_ownership (table_family c) ''libnftables''
             (\<lambda>argv. if argv = [''libnftables'', ''--json'', ''list'', ''ruleset'', table_family c]
                then invoke t (''list ruleset '' @ table_family c @ NEWLINE) ''list-ruleset'' False True
                else praise (RuntimeError ''not issued'')) ''/proc'' (he_reader env)"
    using f by (simp add: nft_inspect_ownership_def inspect_nft_ownership_def assms lib_as_transport_def
        lib_read_list)
  have close: "NftDnatLease_close (lib_run t) (NftDnatLease_init name ''libnftables'' ''nft-lib'' (table_family c)) s =
             (case pthen (invoke t (''delete table '' @ table_family c @ '' '' @ name @ NEWLINE)
                            ''delete'' False False) (pret ()) s of
                (r, s') \<Rightarrow> (r, (NftDnatLease_init name ''libnftables'' ''nft-lib'' (table_family c))
                                 \<lparr>nl_closed := True\<rparr>, s'))" if "NFT_TABLE_NAME name" for name s
    by (simp add: NftDnatLease_close_def NftDnatLease_init_def lib_run_delete [OF f that])
  show ?thesis using check install inspect close by blast
qed

definition sample_env :: "int list lib_state host_env" where
  "sample_env = \<lparr>he_reader = (\<lambda>_. praise (OSError FileNotFoundError (Some 2) [])), he_getpid = pret 7,
     he_random = (\<lambda>n. pret (replicate n 0))\<rparr>"

theorem lib_backend_commands_witness:
  "\<exists>b. NftFirewallBackend (lib_as_transport context_transport) ''ip'' = Inr b
     \<and> nft_inspect_ownership sample_env b ([], None) = (Inl (LibNftablesError ''list-ruleset'' 1 []), ([], Some 0))
     \<and> fst (NftDnatLease_close (lib_run context_transport)
              (NftDnatLease_init ''tcpcc_0a'' ''libnftables'' ''nft-lib'' ''ip'') ([], None)) =
         Inl (LibNftablesError ''delete'' 1 [])"
proof -
  let ?b = "\<lparr>nb_transport = lib_as_transport context_transport, nb_table_family = ''ip''\<rparr>"
  have b: "NftFirewallBackend (lib_as_transport context_transport) ''ip'' = Inr ?b"
    by (simp add: NftFirewallBackend_def lib_as_transport_def)
  have n: "NFT_TABLE_NAME ''tcpcc_0a''" by code_simp
  have x: "is_executable_name (PStr ''libnftables'')" by code_simp
  have e: "invoke context_transport command op False j ([], None) =
      (Inl (LibNftablesError op 1 []), ([], Some 0))" if "command \<noteq> []" "CHR 0x00 \<notin> set command"
    for command op j
    using that
    by (simp add: invoke_def load_library_def lib_path_def context_transport_def context_library_def
        on_fst_def pbind_def pthen_def plift_def check_library_def pret_def praise_def pfinally_def
        run_in_context_def decode_buffer_def)
  note c = lib_backend_commands [of ?b context_transport sample_dnat sample_env, simplified sample_family]
  have 1: "nft_inspect_ownership sample_env ?b ([], None) =
      (Inl (LibNftablesError ''list-ruleset'' 1 []), ([], Some 0))"
    using c by (simp add: inspect_nft_ownership_def x pbind_def e NEWLINE_def)
  have 2: "fst (NftDnatLease_close (lib_run context_transport)
      (NftDnatLease_init ''tcpcc_0a'' ''libnftables'' ''nft-lib'' ''ip'') ([], None)) =
        Inl (LibNftablesError ''delete'' 1 [])"
    using c n by (simp add: pthen_def pbind_def e NEWLINE_def)
  from b 1 2 show ?thesis by blast
qed

end
