(* ===== verification/Iptables.thy ===== *)
theory Iptables
  imports Nft
begin

text \<open>
  The iptables side of \<^verbatim>\<open>tools/tcpcc_host.py\<close>: the rules and the restore batch of one
  private chain, \<^verbatim>\<open>IptablesDnatLease\<close>, \<^verbatim>\<open>IptablesFirewallBackend\<close> with its inspection of
  an \<^verbatim>\<open>iptables-save\<close> listing, and \<^verbatim>\<open>create_firewall_backend\<close>.

  Running a firewall command is an argument on an arbitrary state.  \<^verbatim>\<open>shlex.split\<close> is modelled as
  the state machine of its implementation.
\<close>

section \<open>Chain names\<close>

definition new_iptables_chain_name :: "bytes \<Rightarrow> string" where
  "new_iptables_chain_name random = IPTABLES_CHAIN_PREFIX @ token_hex random"

definition validate_iptables_chain_name :: "pyval \<Rightarrow> exn + string" where
  "validate_iptables_chain_name v =
     (let bad = Inl (ValueError (''iptables chain name must contain 1-28 ASCII letters, digits, ''
                                 @ ''underscores, or hyphens and start with a letter''))
      in case v of PStr name \<Rightarrow> (if IPTABLES_CHAIN_NAME name then Inr name else bad) | _ \<Rightarrow> bad)"

section \<open>Rules\<close>

definition exact_match :: "NftDnatConfig \<Rightarrow> string list" where
  "exact_match config =
     [''-d'', dc_listen_address config @ ''/'' @ str_int (destination_prefix config),
      ''-p'', ''tcp'', ''-m'', ''tcp'', ''--dport'', str_int (dc_listen_port config)]"

definition jump_rule :: "NftDnatConfig \<Rightarrow> string \<Rightarrow> string list" where
  "jump_rule config chain_name =
     exact_match config
     @ [''-m'', ''comment'', ''--comment'', ''tcpcc.jump.v1 chain='' @ chain_name, ''-j'', chain_name]"

definition dnat_rule :: "NftDnatConfig \<Rightarrow> NftOwnership \<Rightarrow> string list" where
  "dnat_rule config ownership =
     exact_match config
     @ [''-m'', ''comment'', ''--comment'', marker ownership, ''-j'', ''DNAT'', ''--to-destination'',
        dnat_destination config]"

definition iptables_rules :: "NftDnatConfig \<Rightarrow> string \<Rightarrow> NftOwnership \<Rightarrow> string list \<times> string list" where
  "iptables_rules config chain_name ownership = (jump_rule config chain_name, dnat_rule config ownership)"

text \<open>The loop body of \<open>_iptables_restore_line\<close> on one argument.\<close>

definition restore_argument :: "string \<Rightarrow> exn + string" where
  "restore_argument argument =
     (if list_ex is_space argument then
        (if list_ex (\<lambda>c. c \<in> set argument) [CHR 0x22, CHR 0x0D, CHR 0x0A]
         then Inl (ValueError ''iptables argument cannot be quoted safely'')
         else Inr ([CHR 0x22] @ argument @ [CHR 0x22]))
      else Inr argument)"

fun restore_arguments :: "string list \<Rightarrow> exn + string list" where
  "restore_arguments [] = Inr []"
| "restore_arguments (argument # arguments) =
     rbind (restore_argument argument) (\<lambda>r. rbind (restore_arguments arguments) (\<lambda>rs. Inr (r # rs)))"

definition iptables_restore_line :: "string \<Rightarrow> string list \<Rightarrow> exn + string" where
  "iptables_restore_line chain arguments =
     rbind (restore_arguments arguments) (\<lambda>rendered. Inr (join '' '' ([''-A'', chain] @ rendered)))"

definition iptables_restore_batch ::
  "NftDnatConfig \<Rightarrow> string \<Rightarrow> NftOwnership \<Rightarrow> bool \<Rightarrow> exn + string" where
  "iptables_restore_batch config chain_name ownership declare_chain =
     (case iptables_rules config chain_name ownership of
        (jump, dnat) \<Rightarrow>
          rbind (iptables_restore_line chain_name dnat) (\<lambda>l1.
          rbind (iptables_restore_line ''PREROUTING'' jump) (\<lambda>l2.
            Inr (join NEWLINE
                   ([''*nat''] @ (if declare_chain then ['':'' @ chain_name @ '' - [0:0]''] else [])
                    @ [l1, l2, ''COMMIT'']) @ NEWLINE))))"

section \<open>The lease\<close>

record IptablesDnatLease =
  il_chain_name :: string
  il_jump_arguments :: "string list"
  il_iptables_path :: string
  il_closed :: bool

definition IptablesDnatLease_init :: "string \<Rightarrow> string list \<Rightarrow> string \<Rightarrow> exn + IptablesDnatLease" where
  "IptablesDnatLease_init chain_name jump_arguments iptables_path =
     rbind (validate_iptables_chain_name (PStr chain_name)) (\<lambda>name.
       Inr \<lparr>il_chain_name = name, il_jump_arguments = jump_arguments, il_iptables_path = iptables_path,
            il_closed = False\<rparr>)"

definition close_commands :: "IptablesDnatLease \<Rightarrow> (string \<times> string list) list" where
  "close_commands l =
     [(''jump'', [il_iptables_path l, ''--wait'', ''-t'', ''nat'', ''-D'', ''PREROUTING''] @ il_jump_arguments l),
      (''flush'', [il_iptables_path l, ''--wait'', ''-t'', ''nat'', ''-F'', il_chain_name l]),
      (''delete-chain'', [il_iptables_path l, ''--wait'', ''-t'', ''nat'', ''-X'', il_chain_name l])]"

text \<open>The loop is the one of the journal: every command is attempted and the failures are kept.\<close>

definition IptablesDnatLease_close ::
  "'s firewall_runner \<Rightarrow> IptablesDnatLease \<Rightarrow> 's \<Rightarrow> (exn + unit) \<times> IptablesDnatLease \<times> 's" where
  "IptablesDnatLease_close runner l s =
     (if il_closed l then (Inr (), l, s)
      else
        (case run_callbacks
                (map (\<lambda>(label, command). (''iptables:'' @ il_chain_name l @ '':'' @ label,
                                          pthen (runner command None) (pret ()))) (close_commands l)) s of
           (failures, s') \<Rightarrow>
             (if failures = [] then Inr () else Inl (CleanupError failures), l\<lparr>il_closed := True\<rparr>, s')))"

interpretation iptables_lease: lease "IptablesDnatLease_close runner" il_closed
  for runner :: "'s firewall_runner"
  by standard (auto simp: IptablesDnatLease_close_def split: if_splits prod.splits)

section \<open>Splitting a shell line\<close>

text \<open>
  The states of \<open>shlex\<close> in POSIX mode with \<open>whitespace_split\<close> and without comments: between
  tokens, in a word, inside a quotation, and after a backslash (the argument is the state to
  return to).  \<open>None\<close> stands for the \<open>ValueError\<close> on a missing closing quotation or escaped
  character.
\<close>

datatype sh_state = Between | InWord | Quoted char | Escaped "char option"

definition sh_space :: "char \<Rightarrow> bool" where
  "sh_space c \<longleftrightarrow> c \<in> set [CHR '' '', CHR 0x09, CHR 0x0D, CHR 0x0A]"

definition sh_quote :: "char \<Rightarrow> bool" where
  "sh_quote c \<longleftrightarrow> c = CHR 0x27 \<or> c = CHR 0x22"

fun sh_tokens :: "sh_state \<Rightarrow> bool \<Rightarrow> string \<Rightarrow> string \<Rightarrow> string list option" where
  "sh_tokens Between quoted token [] = Some []"
| "sh_tokens Between quoted token (c # s) =
     (if sh_space c then sh_tokens Between False [] s
      else if c = CHR 0x5C then sh_tokens (Escaped None) False [] s
      else if sh_quote c then sh_tokens (Quoted c) False [] s
      else sh_tokens InWord False [c] s)"
| "sh_tokens InWord quoted token [] = Some (if token \<noteq> [] \<or> quoted then [token] else [])"
| "sh_tokens InWord quoted token (c # s) =
     (if sh_space c then
        (if token \<noteq> [] \<or> quoted then map_option ((#) token) (sh_tokens Between False [] s)
         else sh_tokens Between False [] s)
      else if sh_quote c then sh_tokens (Quoted c) quoted token s
      else if c = CHR 0x5C then sh_tokens (Escaped None) quoted token s
      else sh_tokens InWord quoted (token @ [c]) s)"
| "sh_tokens (Quoted q) quoted token [] = None"
| "sh_tokens (Quoted q) quoted token (c # s) =
     (if c = q then sh_tokens InWord True token s
      else if c = CHR 0x5C \<and> q = CHR 0x22 then sh_tokens (Escaped (Some q)) True token s
      else sh_tokens (Quoted q) True (token @ [c]) s)"
| "sh_tokens (Escaped e) quoted token [] = None"
| "sh_tokens (Escaped e) quoted token (c # s) =
     (case e of
        None \<Rightarrow> sh_tokens InWord quoted (token @ [c]) s
      | Some q \<Rightarrow>
          sh_tokens (Quoted q) quoted
            (token @ (if c \<noteq> CHR 0x5C \<and> c \<noteq> q then [CHR 0x5C] else []) @ [c]) s)"

definition shlex_split :: "string \<Rightarrow> string list option" where
  "shlex_split s = sh_tokens Between False [] s"

section \<open>The backend\<close>

record 's iptables_backend =
  ib_iptables_path :: string
  ib_restore_path :: string
  ib_save_path :: string
  ib_runner :: "'s firewall_runner"
  ib_chain_name_factory :: "('s, string) py"
  ib_proc_root :: string
  ib_reader :: "string \<Rightarrow> ('s, string) py"

definition executable_field :: "pyval \<Rightarrow> string \<Rightarrow> exn + string" where
  "executable_field v field =
     (let bad = Inl (ValueError (field @ '' must name one executable''))
      in case v of PStr path \<Rightarrow> (if path = [] \<or> CHR 0x00 \<in> set path then bad else Inr path) | _ \<Rightarrow> bad)"

definition IptablesFirewallBackend ::
  "pyval \<Rightarrow> pyval \<Rightarrow> pyval \<Rightarrow> 's firewall_runner \<Rightarrow> ('s, string) py \<Rightarrow> string
   \<Rightarrow> (string \<Rightarrow> ('s, string) py) \<Rightarrow> exn + 's iptables_backend" where
  "IptablesFirewallBackend iptables_path restore_path save_path runner chain_name_factory proc_root reader =
     rbind (executable_field iptables_path ''iptables_path'') (\<lambda>ip.
     rbind (executable_field restore_path ''restore_path'') (\<lambda>rp.
     rbind (executable_field save_path ''save_path'') (\<lambda>sp.
       Inr \<lparr>ib_iptables_path = ip, ib_restore_path = rp, ib_save_path = sp, ib_runner = runner,
            ib_chain_name_factory = chain_name_factory, ib_proc_root = proc_root, ib_reader = reader\<rparr>)))"

definition remediation :: "'s iptables_backend \<Rightarrow> string \<Rightarrow> string" where
  "remediation b chain_name =
     ''inspect with: '' @ ib_iptables_path b @ '' -t nat -S PREROUTING and ''
     @ ib_iptables_path b @ '' -t nat -S '' @ chain_name @ ''; after verifying ''
     @ ''ownership, delete the exact tcpcc.jump.v1 rule shown after ''
     @ ''-A PREROUTING with: '' @ ib_iptables_path b @ '' -t nat -D PREROUTING ''
     @ ''<rule arguments>; then run: '' @ ib_iptables_path b @ '' -t nat -F ''
     @ chain_name @ ''; then run: '' @ ib_iptables_path b @ '' -t nat -X ''
     @ chain_name"

definition classify :: "'s iptables_backend \<Rightarrow> string \<Rightarrow> string \<Rightarrow> ('s, OwnershipObservation) py" where
  "classify b chain_name comment =
     (let bad =
        (let safe_chain = (if IPTABLES_CHAIN_NAME chain_name then chain_name else ''malformed'')
         in pret (malformed_marker safe_chain
              (if safe_chain \<noteq> ''malformed'' then remediation b safe_chain
               else ''inspect the complete iptables nat table manually'')))
      in case NFT_OWNER_MARKER comment of
           None \<Rightarrow> bad
         | Some (pid, start, tun_name) \<Rightarrow>
             (if \<not> IPTABLES_CHAIN_NAME chain_name then bad
              else
                pbind (owner_status (ib_proc_root b) (ib_reader b) (int (dec_val pid)) (int (dec_val start)))
                  (\<lambda>(status, detail).
                    pret \<lparr>ob_name = chain_name, ob_status = status, ob_owner_pid = Some (int (dec_val pid)),
                          ob_owner_start_time = Some (int (dec_val start)), ob_tun_name = Some tun_name,
                          ob_detail = detail,
                          ob_remediation = (if status = ''active'' then [] else remediation b chain_name)\<rparr>)))"

text \<open>The two collections of the scan: the reserved chains, and the markers of each chain.\<close>

type_synonym scan = "string list \<times> (string \<times> string list) list"

fun add_marker :: "string \<Rightarrow> string \<Rightarrow> (string \<times> string list) list \<Rightarrow> (string \<times> string list) list" where
  "add_marker chain comment [] = [(chain, [comment])]"
| "add_marker chain comment ((c, ms) # rest) =
     (if c = chain then (c, ms @ [comment]) # rest else (c, ms) # add_marker chain comment rest)"

definition comment_of :: "string list \<Rightarrow> string option" where
  "comment_of tokens =
     (case dropWhile (\<lambda>t. t \<noteq> ''--comment'') tokens of
        _ # comment # _ \<Rightarrow> Some comment
      | _ \<Rightarrow> None)"

definition rule_marker :: "string \<Rightarrow> (string \<times> string) option" where
  "rule_marker line =
     (if \<not> startswith line ''-A '' then None
      else case shlex_split line of
             None \<Rightarrow> None
           | Some tokens \<Rightarrow>
               (if length tokens < 2 \<or> tokens ! 0 \<noteq> ''-A'' then None
                else case comment_of tokens of
                       None \<Rightarrow> None
                     | Some comment \<Rightarrow>
                         (if startswith comment NFT_OWNER_PREFIX then Some (tokens ! 1, comment) else None)))"

text \<open>\<open>line[1:].split(None, 1)[0]\<close> raises where nothing follows the colon.\<close>

definition scan_line :: "string \<Rightarrow> scan \<Rightarrow> exn + scan" where
  "scan_line line sc =
     (if startswith line '':'' then
        (case py_split (drop 1 line) of
           [] \<Rightarrow> Inl (IndexError ''list index out of range'')
         | chain_name # _ \<Rightarrow>
             Inr (if IPTABLES_OWNED_CHAIN chain_name \<and> chain_name \<notin> set (fst sc)
                  then (fst sc @ [chain_name], snd sc) else sc))
      else case rule_marker line of
             None \<Rightarrow> Inr sc
           | Some (chain_name, comment) \<Rightarrow> Inr (fst sc, add_marker chain_name comment (snd sc)))"

fun scan_lines :: "string list \<Rightarrow> scan \<Rightarrow> exn + scan" where
  "scan_lines [] sc = Inr sc"
| "scan_lines (line # lines) sc = rbind (scan_line line sc) (scan_lines lines)"

definition observe_chain :: "'s iptables_backend \<Rightarrow> string \<Rightarrow> string list \<Rightarrow> ('s, OwnershipObservation) py" where
  "observe_chain b chain_name owned_markers =
     (case owned_markers of
        [comment] \<Rightarrow> classify b chain_name comment
      | _ \<Rightarrow>
          pret \<lparr>ob_name = chain_name, ob_status = ''malformed'', ob_owner_pid = None,
                ob_owner_start_time = None, ob_tun_name = None,
                ob_detail = (if owned_markers = [] then ''reserved tcpcc chain has no ownership marker''
                             else ''tcpcc chain has multiple ownership markers''),
                ob_remediation = remediation b chain_name\<rparr>)"

fun observe_chains ::
  "'s iptables_backend \<Rightarrow> (string \<times> string list) list \<Rightarrow> string list \<Rightarrow> ('s, OwnershipObservation list) py" where
  "observe_chains b markers [] = pret []"
| "observe_chains b markers (chain_name # names) =
     pbind (observe_chain b chain_name (case map_of markers chain_name of Some ms \<Rightarrow> ms | None \<Rightarrow> [])) (\<lambda>ob.
     pbind (observe_chains b markers names) (\<lambda>obs. pret (ob # obs)))"

definition iptables_inspect_ownership :: "'s iptables_backend \<Rightarrow> ('s, OwnershipReport) py" where
  "iptables_inspect_ownership b =
     pbind (ib_runner b [ib_save_path b, ''-t'', ''nat''] None) (\<lambda>raw.
     pbind (plift (scan_lines (py_splitlines raw) ([], []))) (\<lambda>(reserved, markers).
     pbind (observe_chains b markers (sort (remdups (reserved @ map fst markers)))) (\<lambda>observations.
       pret (IptablesOwnershipReport observations))))"

definition iptables_check_compatibility ::
  "'s host_env \<Rightarrow> 's iptables_backend \<Rightarrow> NftDnatConfig \<Rightarrow> ('s, unit) py" where
  "iptables_check_compatibility env b config =
     pbind (ib_chain_name_factory b) (\<lambda>n.
     pbind (plift (validate_iptables_chain_name (PStr n))) (\<lambda>chain_name.
     pbind (env_ownership env ''tcpcc-probe'') (\<lambda>ownership.
     pbind (plift (iptables_restore_batch config chain_name ownership True)) (\<lambda>batch.
     pthen (ib_runner b [ib_restore_path b, ''--wait'', ''--test'', ''--noflush''] (Some batch)) (pret ())))))"

text \<open>The loop over \<open>("-F", "-X")\<close>: every command is attempted, the errors are kept.\<close>

fun attempt_all :: "('s, 'a) py list \<Rightarrow> 's \<Rightarrow> exn list \<times> 's" where
  "attempt_all [] s = ([], s)"
| "attempt_all (m # ms) s =
     (case m s of
        (r, s') \<Rightarrow>
          (case attempt_all ms s' of
             (errors, s'') \<Rightarrow> (case r of Inl e \<Rightarrow> (e # errors, s'') | Inr _ \<Rightarrow> (errors, s''))))"

definition rollback_chain :: "'s iptables_backend \<Rightarrow> string \<Rightarrow> exn \<Rightarrow> ('s, 'a) py" where
  "rollback_chain b chain_name install_error s =
     (case attempt_all
             (map (\<lambda>action. ib_runner b [ib_iptables_path b, ''--wait'', ''-t'', ''nat'', action, chain_name] None)
                [''-F'', ''-X'']) s of
        (cleanup_errors, s') \<Rightarrow>
          (if cleanup_errors \<noteq> []
           then (Inl (IptablesInstallRollbackError install_error cleanup_errors), s')
           else (Inl install_error, s')))"

text \<open>The \<open>try\<close> statement of \<open>install\<close>.\<close>

definition fill_chain :: "'s iptables_backend \<Rightarrow> NftDnatConfig \<Rightarrow> NftOwnership \<Rightarrow> string \<Rightarrow> ('s, string) py" where
  "fill_chain b config ownership chain_name =
     phandle
       (pbind (plift (iptables_restore_batch config chain_name ownership False)) (\<lambda>batch.
          ib_runner b [ib_restore_path b, ''--wait'', ''--noflush''] (Some batch)))
       (rollback_chain b chain_name)"

definition iptables_install ::
  "'s iptables_backend \<Rightarrow> NftDnatConfig \<Rightarrow> NftOwnership \<Rightarrow> ('s, IptablesDnatLease) py" where
  "iptables_install b config ownership =
     pbind (case dc_table_name config of None \<Rightarrow> ib_chain_name_factory b | Some n \<Rightarrow> pret n) (\<lambda>n.
     pbind (plift (validate_iptables_chain_name (PStr n))) (\<lambda>chain_name.
     pthen (ib_runner b [ib_iptables_path b, ''--wait'', ''-t'', ''nat'', ''-N'', chain_name] None)
     (pthen (fill_chain b config ownership chain_name)
        (plift (IptablesDnatLease_init chain_name (fst (iptables_rules config chain_name ownership))
                  (ib_iptables_path b))))))"

section \<open>Choosing a backend\<close>

datatype 's firewall_backend = NftBackend "'s nft_backend" | IptablesBackend "'s iptables_backend"

text \<open>A lease of either kind, with the runner it was made with.\<close>

datatype 's dnat_lease =
    NftLease "'s nft_runner" NftDnatLease
  | IptablesLease "'s firewall_runner" IptablesDnatLease

text \<open>
  What the default arguments of the constructors stand for: the runner of firewall commands,
  \<open>ctypes\<close> and the host.
\<close>

record 's firewall_host =
  fh_runner :: "'s lib_state firewall_runner"
  fh_finder :: "string \<Rightarrow> ('s, string option) py"
  fh_loader :: "string \<Rightarrow> ('s, int) py"
  fh_library :: "int \<Rightarrow> 's nft_library"
  fh_env :: "'s lib_state host_env"

definition create_firewall_backend ::
  "'s firewall_host \<Rightarrow> string \<Rightarrow> string \<Rightarrow> pyval \<Rightarrow> pyval \<Rightarrow> pyval \<Rightarrow> pyval
   \<Rightarrow> exn + 's lib_state firewall_backend" where
  "create_firewall_backend host backend_id family nft_path iptables_path restore_path save_path =
     (if backend_id = ''nft-lib'' then
        rbind (LibNftablesTransport PNone (fh_finder host) (fh_loader host) (fh_library host)) (\<lambda>t.
        rbind (NftFirewallBackend (lib_as_transport t) family) (\<lambda>b. Inr (NftBackend b)))
      else if backend_id = ''nft-exec'' then
        rbind (NftExecTransport nft_path (fh_runner host)) (\<lambda>t.
        rbind (NftFirewallBackend t family) (\<lambda>b. Inr (NftBackend b)))
      else if backend_id = ''iptables'' then
        rbind (IptablesFirewallBackend iptables_path restore_path save_path (fh_runner host)
                 (pbind (he_random (fh_env host) 6) (\<lambda>r. pret (new_iptables_chain_name r)))
                 ''/proc'' (he_reader (fh_env host))) (\<lambda>b. Inr (IptablesBackend b))
      else Inl (ValueError (''firewall backend must be one of: '' @ join '', '' (sort FIREWALL_BACKENDS))))"

definition backend_id :: "'s firewall_backend \<Rightarrow> string" where
  "backend_id b =
     (case b of NftBackend nb \<Rightarrow> tr_backend_id (nb_transport nb) | IptablesBackend ib \<Rightarrow> ''iptables'')"

definition backend_inspect :: "'s host_env \<Rightarrow> 's firewall_backend \<Rightarrow> ('s, OwnershipReport) py" where
  "backend_inspect env b =
     (case b of NftBackend nb \<Rightarrow> nft_inspect_ownership env nb
      | IptablesBackend ib \<Rightarrow> iptables_inspect_ownership ib)"

definition backend_check :: "'s host_env \<Rightarrow> 's firewall_backend \<Rightarrow> NftDnatConfig \<Rightarrow> ('s, unit) py" where
  "backend_check env b config =
     (case b of NftBackend nb \<Rightarrow> nft_check_compatibility env nb config
      | IptablesBackend ib \<Rightarrow> iptables_check_compatibility env ib config)"

definition backend_install ::
  "'s host_env \<Rightarrow> 's firewall_backend \<Rightarrow> NftDnatConfig \<Rightarrow> NftOwnership \<Rightarrow> ('s, 's dnat_lease) py" where
  "backend_install env b config ownership =
     (case b of
        NftBackend nb \<Rightarrow>
          pbind (nft_install env nb config ownership) (\<lambda>l. pret (NftLease (tr_run (nb_transport nb)) l))
      | IptablesBackend ib \<Rightarrow>
          pbind (iptables_install ib config ownership) (\<lambda>l. pret (IptablesLease (ib_runner ib) l)))"

fun dnat_closed :: "'s dnat_lease \<Rightarrow> bool" where
  "dnat_closed (NftLease runner l) = nl_closed l"
| "dnat_closed (IptablesLease runner l) = il_closed l"

fun dnat_resource_name :: "'s dnat_lease \<Rightarrow> string" where
  "dnat_resource_name (NftLease runner l) = nl_table_name l"
| "dnat_resource_name (IptablesLease runner l) = il_chain_name l"

fun dnat_backend_id :: "'s dnat_lease \<Rightarrow> string" where
  "dnat_backend_id (NftLease runner l) = nl_backend_id l"
| "dnat_backend_id (IptablesLease runner l) = ''iptables''"

fun dnat_close :: "'s dnat_lease \<Rightarrow> 's \<Rightarrow> (exn + unit) \<times> 's dnat_lease \<times> 's" where
  "dnat_close (NftLease runner l) s =
     (case NftDnatLease_close runner l s of (r, l', s') \<Rightarrow> (r, NftLease runner l', s'))"
| "dnat_close (IptablesLease runner l) s =
     (case IptablesDnatLease_close runner l s of (r, l', s') \<Rightarrow> (r, IptablesLease runner l', s'))"

interpretation dnat_lease: lease dnat_close dnat_closed
proof
  fix h h' :: "'a dnat_lease" and s s' :: 'a and r
  show "dnat_close h s = (r, h', s') \<Longrightarrow> dnat_closed h'"
    by (cases h) (auto split: prod.splits dest: nft_lease.close_closes iptables_lease.close_closes)
  show "dnat_closed h \<Longrightarrow> dnat_close h s = (Inr (), h, s)"
    by (cases h) (simp_all add: nft_lease.close_again iptables_lease.close_again)
qed

section \<open>A restore line splits into its arguments\<close>

definition sh_plain :: "char \<Rightarrow> bool" where
  "sh_plain c \<longleftrightarrow> c \<notin> set [CHR 0x22, CHR 0x27, CHR 0x5C] \<and> \<not> is_line_break c"

text \<open>An argument that survives: not empty, no quotation mark, backslash or line break.\<close>

definition sh_argument :: "string \<Rightarrow> bool" where
  "sh_argument a \<longleftrightarrow> a \<noteq> [] \<and> list_all sh_plain a"

lemma sh_space_is_space: "sh_space c \<Longrightarrow> is_space c"
  by (auto simp: sh_space_def is_space_def)

lemma sh_plain_quote: "sh_plain c \<Longrightarrow> \<not> sh_quote c \<and> c \<noteq> CHR 0x5C"
  by (auto simp: sh_plain_def sh_quote_def)

lemma sh_word:
  assumes "list_all (\<lambda>c. sh_plain c \<and> \<not> is_space c) w"
  shows "sh_tokens InWord q token (w @ s) = sh_tokens InWord q (token @ w) s"
  using assms
proof (induction w arbitrary: token)
  case (Cons c w)
  then have "\<not> sh_space c" "\<not> sh_quote c" "c \<noteq> CHR 0x5C"
    using sh_space_is_space sh_plain_quote by auto
  with Cons show ?case by simp
qed simp

lemma sh_quoted:
  assumes "list_all sh_plain w"
  shows "sh_tokens (Quoted (CHR 0x22)) True token (w @ s) = sh_tokens (Quoted (CHR 0x22)) True (token @ w) s"
  using assms
proof (induction w arbitrary: token)
  case (Cons c w)
  then have "c \<noteq> CHR 0x22" "c \<noteq> CHR 0x5C" by (simp_all add: sh_plain_def)
  with Cons show ?case by simp
qed simp

text \<open>The state after one rendered argument: inside a word that holds the argument.\<close>

lemma sh_rendered:
  assumes "restore_argument a = Inr r" "sh_argument a"
  shows "\<exists>q. \<forall>s. sh_tokens Between False [] (r @ s) = sh_tokens InWord q a s"
proof (cases "list_ex is_space a")
  case True
  then have r: "r = CHR 0x22 # a @ [CHR 0x22]"
    using assms(1) by (auto simp: restore_argument_def split: if_splits)
  obtain c w where a: "a = c # w" using assms(2) by (cases a) (simp_all add: sh_argument_def)
  have "sh_tokens Between False [] (r @ s) = sh_tokens InWord True a s" for s
  proof -
    have p: "sh_plain c" "list_all sh_plain w" using assms(2) a by (simp_all add: sh_argument_def)
    have "sh_tokens Between False [] (r @ s) = sh_tokens (Quoted (CHR 0x22)) False [] (a @ CHR 0x22 # s)"
      by (simp add: r sh_space_def sh_quote_def)
    also have "\<dots> = sh_tokens (Quoted (CHR 0x22)) True [c] (w @ CHR 0x22 # s)"
      using p(1) by (simp add: a sh_plain_def)
    also have "\<dots> = sh_tokens InWord True a s" by (simp add: sh_quoted [OF p(2)] a)
    finally show ?thesis .
  qed
  then show ?thesis by blast
next
  case False
  then have r: "r = a" using assms(1) by (simp add: restore_argument_def)
  obtain c w where a: "a = c # w" using assms(2) by (cases a) (simp_all add: sh_argument_def)
  have w: "list_all (\<lambda>c. sh_plain c \<and> \<not> is_space c) w" "sh_plain c" "\<not> is_space c"
    using assms(2) False a by (auto simp: sh_argument_def list_all_iff list_ex_iff)
  then have "sh_tokens Between False [] (r @ s) = sh_tokens InWord False a s" for s
    using sh_word [OF w(1), of False "[c]" s] sh_space_is_space sh_plain_quote by (auto simp: r a)
  then show ?thesis by blast
qed

lemma restore_arguments_Inr:
  "restore_arguments as = Inr rs \<longleftrightarrow> list_all2 (\<lambda>a r. restore_argument a = Inr r) as rs"
  by (induction as arbitrary: rs) (auto simp: rbind_eq_Inr list_all2_Cons1)

lemma sh_joined:
  assumes "list_all2 (\<lambda>a r. restore_argument a = Inr r) as rs" "list_all sh_argument as"
  shows "sh_tokens Between False [] (join '' '' rs) = Some as"
  using assms
proof (induction as arbitrary: rs)
  case Nil
  then show ?case by simp
next
  case (Cons a as)
  then obtain r rs' where rs: "rs = r # rs'" "restore_argument a = Inr r"
    "list_all2 (\<lambda>a r. restore_argument a = Inr r) as rs'" by (auto simp: list_all2_Cons1)
  have a: "a \<noteq> []" "sh_argument a" using Cons.prems(2) by (simp_all add: sh_argument_def)
  obtain q where q: "\<And>s. sh_tokens Between False [] (r @ s) = sh_tokens InWord q a s"
    using sh_rendered [OF rs(2) a(2)] by blast
  show ?case
  proof (cases rs')
    case Nil
    then have "as = []" using rs(3) by simp
    with q [of "[]"] Nil a(1) rs(1) show ?thesis by simp
  next
    case (Cons r' rs'')
    then have "join '' '' rs = r @ CHR '' '' # join '' '' rs'" using rs(1) by simp
    with q a(1) show ?thesis
      using Cons.IH [OF rs(3)] \<open>list_all sh_argument (a # as)\<close> by (simp add: sh_space_def)
  qed
qed

lemma restore_line_split:
  assumes "iptables_restore_line chain arguments = Inr line"
    "sh_argument chain" "\<not> list_ex is_space chain" "list_all sh_argument arguments"
  shows "shlex_split line = Some (''-A'' # chain # arguments)"
proof -
  obtain rs where rs: "list_all2 (\<lambda>a r. restore_argument a = Inr r) arguments rs"
      "line = join '' '' ([''-A'', chain] @ rs)"
    using assms(1) by (auto simp: iptables_restore_line_def rbind_eq_Inr restore_arguments_Inr)
  have "restore_argument ''-A'' = Inr ''-A''" "sh_argument ''-A''" by code_simp+
  moreover have "restore_argument chain = Inr chain" using assms(3) by (simp add: restore_argument_def)
  ultimately show ?thesis
    using sh_joined [of "''-A'' # chain # arguments" "''-A'' # chain # rs"] assms(2,4) rs
    by (simp add: shlex_split_def)
qed

section \<open>The lines of a restore batch\<close>

definition break_free :: "string \<Rightarrow> bool" where
  "break_free t \<longleftrightarrow> list_all (\<lambda>c. \<not> is_line_break c) t"

lemma break_free_append [simp]: "break_free (a @ b) \<longleftrightarrow> break_free a \<and> break_free b"
  by (simp add: break_free_def)

lemma line_break_is_space: "is_line_break c \<Longrightarrow> is_space c"
  by (auto simp: is_line_break_def is_space_def)

lemma break_free_word: "list_all is_word_char t \<Longrightarrow> break_free t"
  using word_char_facts(2) line_break_is_space unfolding break_free_def list_all_iff by blast

lemma lines_from_line:
  assumes "break_free l"
  shows "lines_from acc (l @ CHR 0x0A # t) = (rev acc @ l) # lines_from [] t"
  using assms
proof (induction l arbitrary: acc)
  case Nil
  then show ?case by (simp add: is_line_break_def)
next
  case (Cons c l)
  then have "c \<noteq> CHR 0x0D" "\<not> is_line_break c" by (auto simp: break_free_def is_line_break_def)
  with Cons show ?case by (simp add: break_free_def)
qed

lemma splitlines_joined:
  assumes "list_all break_free ls" "ls \<noteq> []"
  shows "py_splitlines (join NEWLINE ls @ NEWLINE) = ls"
  using assms unfolding py_splitlines_def
proof (induction NEWLINE ls rule: join.induct)
  case (2 x)
  then show ?case using lines_from_line [of x "[]" "[]"] by (simp add: NEWLINE_def)
next
  case (3 x y ys)
  then show ?case using lines_from_line [of x "[]" "join NEWLINE (y # ys) @ NEWLINE"]
    by (simp add: NEWLINE_def)
qed simp

section \<open>Arguments of the rules\<close>

lemma word_plain: "list_all is_word_char t \<Longrightarrow> list_all sh_plain t"
  using word_char_facts(2,3) line_break_is_space by (auto simp: sh_plain_def list_all_iff)

lemma word_argument: "list_all is_word_char t \<Longrightarrow> t \<noteq> [] \<Longrightarrow> sh_argument t"
  using word_plain by (simp add: sh_argument_def)

lemma sh_plain_append: "list_all sh_plain (a @ b) \<longleftrightarrow> list_all sh_plain a \<and> list_all sh_plain b"
  by simp

lemma plain_marker: "valid_owner o' \<Longrightarrow> list_all sh_plain (marker o')"
  using valid_owner_words [THEN word_plain]
  by (simp only: marker_def sh_plain_append) (simp add: sh_plain_def is_line_break_def)

lemma plain_destination:
  assumes "valid_dnat_config c" "plain_dnat_config c"
  shows "list_all sh_plain (dnat_destination c)"
  using assms word_plain dnat_words(2) [OF assms(1), THEN word_plain]
  by (simp add: dnat_destination_def plain_dnat_config_def) (simp add: sh_plain_def is_line_break_def)

lemma prefix_word: "list_all is_word_char (str_int (destination_prefix c))"
  by (simp add: destination_prefix_def str_int_word)

lemma exact_match_arguments:
  assumes "valid_dnat_config c" "plain_dnat_config c"
  shows "list_all sh_argument (exact_match c)"
proof -
  have a: "list_all sh_plain (dc_listen_address c @ ''/'' @ str_int (destination_prefix c))"
    using assms(2) word_plain prefix_word by (simp add: plain_dnat_config_def) (simp add: sh_plain_def is_line_break_def)
  have p: "sh_argument (str_int (dc_listen_port c))"
    using dnat_words(1) [OF assms(1)] assms(1)
    by (intro word_argument) (auto simp: valid_dnat_config_def str_int_def)
  have l: "list_all sh_argument [''-d'', ''-p'', ''tcp'', ''-m'', ''tcp'', ''--dport'']" by code_simp
  from a p l show ?thesis by (simp add: exact_match_def) (simp add: sh_argument_def)
qed

lemma dnat_rule_arguments:
  assumes "valid_dnat_config c" "plain_dnat_config c" "valid_owner o'"
  shows "list_all sh_argument (dnat_rule c o')"
proof -
  have m: "sh_argument (marker o')"
    using plain_marker [OF assms(3)] by (simp add: sh_argument_def) (simp add: marker_def)
  have d: "sh_argument (dnat_destination c)"
    using plain_destination [OF assms(1,2)] by (simp add: sh_argument_def dnat_destination_def)
  have l: "list_all sh_argument [''-m'', ''comment'', ''--comment'', ''-j'', ''DNAT'', ''--to-destination'']"
    by code_simp
  from m d l exact_match_arguments [OF assms(1,2)] show ?thesis by (simp add: dnat_rule_def)
qed

lemma jump_rule_arguments:
  assumes "valid_dnat_config c" "plain_dnat_config c" "IPTABLES_CHAIN_NAME n"
  shows "list_all sh_argument (jump_rule c n)"
proof -
  have n: "sh_argument n"
    using chain_name_word [OF assms(3)] assms(3) by (intro word_argument) auto
  then have m: "sh_argument (''tcpcc.jump.v1 chain='' @ n)" by (simp add: sh_argument_def) (simp add: sh_plain_def is_line_break_def)
  have l: "list_all sh_argument [''-m'', ''comment'', ''--comment'', ''-j'']" by code_simp
  from m n l exact_match_arguments [OF assms(1,2)] show ?thesis by (simp add: jump_rule_def)
qed

lemma argument_break_free: "sh_argument a \<Longrightarrow> break_free a"
  by (auto simp: sh_argument_def sh_plain_def break_free_def list_all_iff)

lemma restore_argument_succeeds:
  assumes "sh_argument a"
  shows "\<exists>r. restore_argument a = Inr r \<and> break_free r"
proof -
  have "\<not> sh_plain (CHR 0x22)" "\<not> sh_plain (CHR 0x0D)" "\<not> sh_plain (CHR 0x0A)" by code_simp+
  then have "CHR 0x22 \<notin> set a" "CHR 0x0D \<notin> set a" "CHR 0x0A \<notin> set a"
    using assms unfolding sh_argument_def list_all_iff by blast+
  then have "restore_argument a =
      Inr (if list_ex is_space a then [CHR 0x22] @ a @ [CHR 0x22] else a)"
    by (simp add: restore_argument_def)
  moreover have "break_free [CHR 0x22]" by code_simp
  ultimately show ?thesis using argument_break_free [OF assms] by (simp del: append_Cons append_Nil)
qed

lemma restore_arguments_succeed:
  assumes "list_all sh_argument as"
  shows "\<exists>rs. restore_arguments as = Inr rs \<and> list_all break_free rs"
  using assms
proof (induction as)
  case (Cons a as)
  then obtain r rs where "restore_argument a = Inr r" "break_free r" "restore_arguments as = Inr rs"
    "list_all break_free rs" using restore_argument_succeeds [of a] by auto
  then show ?case by simp
qed simp

lemma break_free_join: "break_free sep \<Longrightarrow> list_all break_free ls \<Longrightarrow> break_free (join sep ls)"
  unfolding break_free_def by (rule join_map_digits) (auto simp: list_all_iff break_free_def)

lemma restore_line_succeeds:
  assumes "sh_argument chain" "\<not> list_ex is_space chain" "list_all sh_argument as"
  shows "\<exists>line rest. iptables_restore_line chain as = Inr line \<and> break_free line \<and> line = ''-A '' @ rest
     \<and> shlex_split line = Some (''-A'' # chain # as)"
proof -
  obtain rs where rs: "restore_arguments as = Inr rs" "list_all break_free rs"
    using restore_arguments_succeed [OF assms(3)] by blast
  let ?line = "join '' '' ([''-A'', chain] @ rs)"
  have l: "iptables_restore_line chain as = Inr ?line" by (simp add: iptables_restore_line_def rs(1))
  have "break_free ''-A''" "break_free '' ''" by code_simp+
  then have "break_free ?line"
    using rs(2) argument_break_free [OF assms(1)] by (intro break_free_join) simp_all
  moreover have "?line = ''-A '' @ join '' '' (chain # rs)" by simp
  ultimately show ?thesis using l restore_line_split [OF l assms] by blast
qed

lemma chain_argument:
  assumes "IPTABLES_CHAIN_NAME n"
  shows "sh_argument n" "\<not> list_ex is_space n"
proof -
  have "list_all is_word_char n" "n \<noteq> []" using chain_name_word [OF assms] assms by auto
  then show "sh_argument n" "\<not> list_ex is_space n"
    using word_argument word_char_facts(2) by (auto simp: list_all_iff list_ex_iff)
qed

lemma prerouting_argument: "sh_argument ''PREROUTING''" "\<not> list_ex is_space ''PREROUTING''"
  by code_simp+

lemma restore_batch_lines:
  assumes "valid_dnat_config c" "plain_dnat_config c" "valid_owner o'" "IPTABLES_CHAIN_NAME n"
  shows "\<exists>text l1 l2 t1 t2. iptables_restore_batch c n o' declare_chain = Inr text
     \<and> py_splitlines text =
         [''*nat''] @ (if declare_chain then ['':'' @ n @ '' - [0:0]''] else []) @ [l1, l2, ''COMMIT'']
     \<and> l1 = ''-A '' @ t1 \<and> l2 = ''-A '' @ t2
     \<and> shlex_split l1 = Some (''-A'' # n # dnat_rule c o')
     \<and> shlex_split l2 = Some (''-A'' # ''PREROUTING'' # jump_rule c n)"
proof -
  obtain l1 t1 where 1: "iptables_restore_line n (dnat_rule c o') = Inr l1" "break_free l1" "l1 = ''-A '' @ t1"
      "shlex_split l1 = Some (''-A'' # n # dnat_rule c o')"
    using restore_line_succeeds [OF chain_argument [OF assms(4)] dnat_rule_arguments [OF assms(1-3)]] by blast
  obtain l2 t2 where 2: "iptables_restore_line ''PREROUTING'' (jump_rule c n) = Inr l2" "break_free l2"
      "l2 = ''-A '' @ t2" "shlex_split l2 = Some (''-A'' # ''PREROUTING'' # jump_rule c n)"
    using restore_line_succeeds [OF prerouting_argument jump_rule_arguments [OF assms(1,2,4)]] by blast
  let ?ls = "[''*nat''] @ (if declare_chain then ['':'' @ n @ '' - [0:0]''] else []) @ [l1, l2, ''COMMIT'']"
  have b: "iptables_restore_batch c n o' declare_chain = Inr (join NEWLINE ?ls @ NEWLINE)"
    by (simp only: iptables_restore_batch_def iptables_rules_def prod.case 1(1) 2(1) rbind.simps)
  have "break_free ''*nat''" "break_free ''COMMIT''" "break_free '':''" "break_free '' - [0:0]''" by code_simp+
  moreover have "break_free n" using chain_argument(1) [OF assms(4)] by (rule argument_break_free)
  ultimately have "list_all break_free ?ls"
    using 1(2) 2(2) by (simp only: list_all_append list.pred_inject break_free_append if_True if_False split: if_split) simp
  from splitlines_joined [OF this] b 1 2 show ?thesis by blast
qed

section \<open>What was installed is recognised\<close>
















lemma sample_valid:
  "valid_dnat_config sample_dnat" "plain_dnat_config sample_dnat" "valid_owner sample_owner"
  using NftDnatConfig_init_valid [OF sample_dnat_init] NftOwnership_init_valid [OF sample_owner_init(1)]
    plain_dnat_config_init [OF sample_dnat_init sample_address sample_address] by simp_all





section \<open>Installing and removing a chain\<close>

text \<open>The nat table as the rules of each chain, in order.\<close>

type_synonym nat_table = "string \<rightharpoonup> string list list"

text \<open>The rules that a restore batch without declarations appends, by chain.\<close>

definition rule_of :: "string \<Rightarrow> (string \<times> string list) option" where
  "rule_of line =
     (case shlex_split line of
        Some (a # chain # args) \<Rightarrow> (if a = ''-A'' then Some (chain, args) else None)
      | _ \<Rightarrow> None)"

definition batch_rules :: "string \<Rightarrow> (string \<times> string list) list option" where
  "batch_rules text =
     (case py_splitlines text of
        first # rest \<Rightarrow>
          (if first = ''*nat'' \<and> rest \<noteq> [] \<and> last rest = ''COMMIT'' then those (map rule_of (butlast rest))
           else None)
      | [] \<Rightarrow> None)"

definition append_rule :: "string \<times> string list \<Rightarrow> nat_table \<Rightarrow> nat_table" where
  "append_rule r table = table(fst r \<mapsto> (case table (fst r) of Some rules \<Rightarrow> rules | None \<Rightarrow> []) @ [snd r])"

text \<open>
  What the iptables commands promise about the nat table: a command that fails leaves it alone;
  on a chain name, \<^verbatim>\<open>-N\<close> creates a new empty chain, \<^verbatim>\<open>-F\<close> empties one, \<^verbatim>\<open>-X\<close> deletes an empty one;
  \<^verbatim>\<open>-D\<close> with a rule, which is more than the one argument of a rule number, removes the first match, and a restore appends the rules of its batch as a
  whole.
\<close>

definition iptables_kernel :: "'s firewall_runner \<Rightarrow> string \<Rightarrow> string \<Rightarrow> ('s \<Rightarrow> nat_table) \<Rightarrow> bool" where
  "iptables_kernel runner path restore table \<longleftrightarrow>
     (\<forall>argv input s e s'. runner argv input s = (Inl e, s') \<longrightarrow> table s' = table s)
     \<and> (\<forall>n s t s'. IPTABLES_CHAIN_NAME n \<longrightarrow>
          runner [path, ''--wait'', ''-t'', ''nat'', ''-N'', n] None s = (Inr t, s') \<longrightarrow>
          table s n = None \<and> table s' = (table s)(n \<mapsto> []))
     \<and> (\<forall>n s t s'. IPTABLES_CHAIN_NAME n \<longrightarrow>
          runner [path, ''--wait'', ''-t'', ''nat'', ''-F'', n] None s = (Inr t, s') \<longrightarrow>
          table s n \<noteq> None \<and> table s' = (table s)(n \<mapsto> []))
     \<and> (\<forall>n s t s'. IPTABLES_CHAIN_NAME n \<longrightarrow>
          runner [path, ''--wait'', ''-t'', ''nat'', ''-X'', n] None s = (Inr t, s') \<longrightarrow>
          table s n = Some [] \<and> table s' = (table s)(n := None))
     \<and> (\<forall>args s t s'. 1 < length args \<longrightarrow>
          runner ([path, ''--wait'', ''-t'', ''nat'', ''-D'', ''PREROUTING''] @ args) None s = (Inr t, s') \<longrightarrow>
          (\<exists>rules. table s ''PREROUTING'' = Some rules \<and> args \<in> set rules
             \<and> table s' = (table s)(''PREROUTING'' \<mapsto> remove1 args rules)))
     \<and> (\<forall>text rules s t s'. runner [restore, ''--wait'', ''--noflush''] (Some text) s = (Inr t, s') \<longrightarrow>
          batch_rules text = Some rules \<longrightarrow> table s' = fold append_rule rules (table s))"

lemma iptables_kernelD:
  assumes "iptables_kernel runner path restore table"
  shows "runner argv input s = (Inl e, s') \<Longrightarrow> table s' = table s"
    "IPTABLES_CHAIN_NAME n \<Longrightarrow> runner [path, ''--wait'', ''-t'', ''nat'', ''-N'', n] None s = (Inr t, s')
       \<Longrightarrow> table s n = None \<and> table s' = (table s)(n \<mapsto> [])"
    "IPTABLES_CHAIN_NAME n \<Longrightarrow> runner [path, ''--wait'', ''-t'', ''nat'', ''-F'', n] None s = (Inr t, s')
       \<Longrightarrow> table s n \<noteq> None \<and> table s' = (table s)(n \<mapsto> [])"
    "IPTABLES_CHAIN_NAME n \<Longrightarrow> runner [path, ''--wait'', ''-t'', ''nat'', ''-X'', n] None s = (Inr t, s')
       \<Longrightarrow> table s n = Some [] \<and> table s' = (table s)(n := None)"
    "1 < length args \<Longrightarrow> runner ([path, ''--wait'', ''-t'', ''nat'', ''-D'', ''PREROUTING''] @ args) None s = (Inr t, s')
       \<Longrightarrow> \<exists>rules. table s ''PREROUTING'' = Some rules \<and> args \<in> set rules
             \<and> table s' = (table s)(''PREROUTING'' \<mapsto> remove1 args rules)"
    "runner [restore, ''--wait'', ''--noflush''] (Some text) s = (Inr t, s') \<Longrightarrow> batch_rules text = Some rules
       \<Longrightarrow> table s' = fold append_rule rules (table s)"
proof -
  note k = assms [unfolded iptables_kernel_def]
  note k2 = k [THEN conjunct2] note k3 = k2 [THEN conjunct2] note k4 = k3 [THEN conjunct2]
  note k5 = k4 [THEN conjunct2] note k6 = k5 [THEN conjunct2]
  show "runner argv input s = (Inl e, s') \<Longrightarrow> table s' = table s" using k [THEN conjunct1] by blast
  show "IPTABLES_CHAIN_NAME n \<Longrightarrow> runner [path, ''--wait'', ''-t'', ''nat'', ''-N'', n] None s = (Inr t, s')
      \<Longrightarrow> table s n = None \<and> table s' = (table s)(n \<mapsto> [])" using k2 [THEN conjunct1] by blast
  show "IPTABLES_CHAIN_NAME n \<Longrightarrow> runner [path, ''--wait'', ''-t'', ''nat'', ''-F'', n] None s = (Inr t, s')
      \<Longrightarrow> table s n \<noteq> None \<and> table s' = (table s)(n \<mapsto> [])" using k3 [THEN conjunct1] by blast
  show "IPTABLES_CHAIN_NAME n \<Longrightarrow> runner [path, ''--wait'', ''-t'', ''nat'', ''-X'', n] None s = (Inr t, s')
      \<Longrightarrow> table s n = Some [] \<and> table s' = (table s)(n := None)" using k4 [THEN conjunct1] by blast
  show "1 < length args \<Longrightarrow> runner ([path, ''--wait'', ''-t'', ''nat'', ''-D'', ''PREROUTING''] @ args) None s = (Inr t, s')
      \<Longrightarrow> \<exists>rules. table s ''PREROUTING'' = Some rules \<and> args \<in> set rules
            \<and> table s' = (table s)(''PREROUTING'' \<mapsto> remove1 args rules)" using k5 [THEN conjunct1] by blast
  show "runner [restore, ''--wait'', ''--noflush''] (Some text) s = (Inr t, s') \<Longrightarrow> batch_rules text = Some rules
      \<Longrightarrow> table s' = fold append_rule rules (table s)" using k6 by blast
qed

lemma batch_rules_restore_batch:
  assumes "valid_dnat_config c" "plain_dnat_config c" "valid_owner o'" "IPTABLES_CHAIN_NAME n"
  shows "\<exists>text. iptables_restore_batch c n o' False = Inr text
     \<and> batch_rules text = Some [(n, dnat_rule c o'), (''PREROUTING'', jump_rule c n)]"
proof -
  obtain batch l1 l2 where "iptables_restore_batch c n o' False = Inr batch"
      "py_splitlines batch = [''*nat'', l1, l2, ''COMMIT'']"
      "shlex_split l1 = Some (''-A'' # n # dnat_rule c o')"
      "shlex_split l2 = Some (''-A'' # ''PREROUTING'' # jump_rule c n)"
    using restore_batch_lines [OF assms, of False] by auto
  then show ?thesis by (simp add: batch_rules_def rule_of_def)
qed

lemma validate_iptables_chain_name_Inr:
  "validate_iptables_chain_name v = Inr n \<longleftrightarrow> v = PStr n \<and> IPTABLES_CHAIN_NAME n"
  by (cases v) (auto simp: validate_iptables_chain_name_def)

text \<open>Rolling back: the chain is gone, or it is left empty and the error says so.\<close>

lemma rollback_chain_table:
  assumes "iptables_kernel (ib_runner b) (ib_iptables_path b) restore table"
    "table s = t(n \<mapsto> [])" "t n = None" "rollback_chain b n e s = (r, s')" "IPTABLES_CHAIN_NAME n"
  shows "(r = Inl e \<and> table s' = t) \<or>
    (\<exists>es. r = Inl (IptablesInstallRollbackError e es) \<and> (table s' = t \<or> table s' = t(n \<mapsto> [])))"
proof -
  let ?F = "ib_runner b [ib_iptables_path b, ''--wait'', ''-t'', ''nat'', ''-F'', n] None"
  let ?X = "ib_runner b [ib_iptables_path b, ''--wait'', ''-t'', ''nat'', ''-X'', n] None"
  obtain r1 s1 where 1: "?F s = (r1, s1)" by (cases "?F s")
  obtain r2 s2 where 2: "?X s1 = (r2, s2)" by (cases "?X s1")
  have t1: "table s1 = t(n \<mapsto> [])"
    using iptables_kernelD(1) [OF assms(1)] iptables_kernelD(3) [OF assms(1,5)] 1 assms(2) by (cases r1) fastforce+
  have t2: "table s2 = (case r2 of Inl _ \<Rightarrow> t(n \<mapsto> []) | Inr _ \<Rightarrow> t)"
  proof (cases r2)
    case (Inl e)
    then show ?thesis using iptables_kernelD(1) [OF assms(1)] 2 t1 by fastforce
  next
    case (Inr x)
    then have "table s2 = (table s1)(n := None)" using iptables_kernelD(4) [OF assms(1,5)] 2 by blast
    with Inr t1 assms(3) show ?thesis by (simp add: fun_upd_idem)
  qed
  have "rollback_chain b n e s =
      (case (case r1 of Inl e1 \<Rightarrow> [e1] | Inr _ \<Rightarrow> []) @ (case r2 of Inl e2 \<Rightarrow> [e2] | Inr _ \<Rightarrow> []) of
         [] \<Rightarrow> (Inl e, s2) | es \<Rightarrow> (Inl (IptablesInstallRollbackError e es), s2))"
    by (simp add: rollback_chain_def 1 2 split: sum.split)
  from assms(4) [unfolded this] t2 show ?thesis by (cases r1; cases r2) auto
qed

lemma chain_installed_table:
  assumes "iptables_kernel runner path restore table" "table s = t(n \<mapsto> [])" "t n = None"
    "t ''PREROUTING'' = Some pre" "batch_rules batch = Some [(n, dnat), (''PREROUTING'', jump)]"
    "runner [restore, ''--wait'', ''--noflush''] (Some batch) s = (Inr x, s')"
  shows "table s' = t(n \<mapsto> [dnat], ''PREROUTING'' \<mapsto> pre @ [jump])"
proof -
  have "n \<noteq> ''PREROUTING''" using assms(3,4) by auto
  then show ?thesis
    using iptables_kernelD(6) [OF assms(1,6,5)] assms(2,4) by (simp add: append_rule_def)
qed

text \<open>Closing without an error has run all three commands, in order.\<close>

lemma iptables_close_table:
  assumes "iptables_kernel runner (il_iptables_path l) restore table" "\<not> il_closed l"
    "IptablesDnatLease_close runner l s = (Inr (), l', s')" "il_chain_name l \<noteq> ''PREROUTING''"
    "IPTABLES_CHAIN_NAME (il_chain_name l)" "1 < length (il_jump_arguments l)"
  shows "\<exists>rules. table s ''PREROUTING'' = Some rules \<and> il_jump_arguments l \<in> set rules
     \<and> table s' = (table s)(''PREROUTING'' \<mapsto> remove1 (il_jump_arguments l) rules, il_chain_name l := None)"
proof -
  let ?n = "il_chain_name l"
  let ?D = "runner ([il_iptables_path l, ''--wait'', ''-t'', ''nat'', ''-D'', ''PREROUTING''] @ il_jump_arguments l) None"
  let ?F = "runner [il_iptables_path l, ''--wait'', ''-t'', ''nat'', ''-F'', ?n] None"
  let ?X = "runner [il_iptables_path l, ''--wait'', ''-t'', ''nat'', ''-X'', ?n] None"
  obtain r1 s1 where 1: "?D s = (r1, s1)" by (cases "?D s")
  obtain r2 s2 where 2: "?F s1 = (r2, s2)" by (cases "?F s1")
  obtain r3 s3 where 3: "?X s2 = (r3, s3)" by (cases "?X s2")
  obtain x1 x2 x3 where "r1 = Inr x1" "r2 = Inr x2" "r3 = Inr x3" "s3 = s'"
    using assms(2,3) 1 2 3
    by (auto simp: IptablesDnatLease_close_def close_commands_def pthen_def pbind_def pret_def
        split: sum.splits prod.splits if_splits)
  with 1 2 3 have ok: "?D s = (Inr x1, s1)" "?F s1 = (Inr x2, s2)" "?X s2 = (Inr x3, s')" by simp_all
  obtain rules where d: "table s ''PREROUTING'' = Some rules" "il_jump_arguments l \<in> set rules"
      "table s1 = (table s)(''PREROUTING'' \<mapsto> remove1 (il_jump_arguments l) rules)"
    using iptables_kernelD(5) [OF assms(1,6) ok(1)] by blast
  have f: "table s2 = (table s1)(?n \<mapsto> [])" using iptables_kernelD(3) [OF assms(1,5) ok(2)] by blast
  have x: "table s' = (table s2)(?n := None)" using iptables_kernelD(4) [OF assms(1,5) ok(3)] by blast
  from d f x show ?thesis by simp
qed

lemma fill_chain_table:
  assumes "iptables_kernel (ib_runner b) (ib_iptables_path b) (ib_restore_path b) table"
    "valid_dnat_config c" "plain_dnat_config c" "valid_owner o'" "IPTABLES_CHAIN_NAME n"
    "t ''PREROUTING'' = Some pre" "t n = None" "table s = t(n \<mapsto> [])" "fill_chain b c o' n s = (r, s')"
  shows "(\<exists>e. r = Inl e \<and> table s' = t) \<or>
    (\<exists>e es. r = Inl (IptablesInstallRollbackError e es) \<and> table s' = t(n \<mapsto> [])) \<or>
    (\<exists>x. r = Inr x \<and> table s' = t(n \<mapsto> [dnat_rule c o'], ''PREROUTING'' \<mapsto> pre @ [jump_rule c n]))"
proof -
  obtain batch where batch: "iptables_restore_batch c n o' False = Inr batch"
      "batch_rules batch = Some [(n, dnat_rule c o'), (''PREROUTING'', jump_rule c n)]"
    using batch_rules_restore_batch [OF assms(2-5)] by blast
  let ?R = "ib_runner b [ib_restore_path b, ''--wait'', ''--noflush''] (Some batch)"
  obtain r1 s1 where 1: "?R s = (r1, s1)" by (cases "?R s")
  have f: "(case r1 of Inl e \<Rightarrow> rollback_chain b n e s1 | Inr x \<Rightarrow> (Inr x, s1)) = (r, s')"
    using assms(9) 1 batch(1) by (simp add: fill_chain_def phandle_def plift_def split: sum.splits)
  show ?thesis
  proof (cases r1)
    case (Inl e)
    have t: "table s1 = t(n \<mapsto> [])" using iptables_kernelD(1) [OF assms(1)] 1 Inl assms(8) by metis
    have r: "rollback_chain b n e s1 = (r, s')" using f Inl by simp
    show ?thesis using rollback_chain_table [OF assms(1) t assms(7) r assms(5)] by blast
  next
    case (Inr x)
    have "table s1 = t(n \<mapsto> [dnat_rule c o'], ''PREROUTING'' \<mapsto> pre @ [jump_rule c n])"
      using chain_installed_table [OF assms(1,8,7,6) batch(2)] 1 Inr by blast
    moreover have "r = Inr x" "s' = s1" using f Inr by simp_all
    ultimately show ?thesis by blast
  qed
qed

definition new_lease :: "'s iptables_backend \<Rightarrow> NftDnatConfig \<Rightarrow> string \<Rightarrow> IptablesDnatLease" where
  "new_lease b c n =
     \<lparr>il_chain_name = n, il_jump_arguments = jump_rule c n, il_iptables_path = ib_iptables_path b,
      il_closed = False\<rparr>"

lemma iptables_install_table:
  assumes "iptables_kernel (ib_runner b) (ib_iptables_path b) (ib_restore_path b) table"
    "valid_dnat_config c" "plain_dnat_config c" "valid_owner o'"
    "keeps table (ib_chain_name_factory b)" "table s ''PREROUTING'' = Some pre"
    "iptables_install b c o' s = (r, s')"
  shows "(\<exists>e. r = Inl e \<and> table s' = table s) \<or>
    (\<exists>n e es. r = Inl (IptablesInstallRollbackError e es) \<and> table s n = None \<and> table s' = (table s)(n \<mapsto> [])) \<or>
    (\<exists>n. r = Inr (new_lease b c n) \<and> IPTABLES_CHAIN_NAME n \<and> table s n = None
       \<and> table s' = (table s)(n \<mapsto> [dnat_rule c o'], ''PREROUTING'' \<mapsto> pre @ [jump_rule c n]))"
proof -
  let ?N = "\<lambda>n. ib_runner b [ib_iptables_path b, ''--wait'', ''-t'', ''nat'', ''-N'', n] None"
  define after where "after n = pthen (?N n) (pthen (fill_chain b c o' n)
      (plift (IptablesDnatLease_init n (jump_rule c n) (ib_iptables_path b))))" for n
  have "pbind (case dc_table_name c of None \<Rightarrow> ib_chain_name_factory b | Some n \<Rightarrow> pret n) (\<lambda>n.
      pbind (plift (validate_iptables_chain_name (PStr n))) after) s = (r, s')"
    using assms(7) by (simp add: iptables_install_def after_def [abs_def] iptables_rules_def)
  from validated_name_steps [OF assms(5) this] consider "\<exists>e. r = Inl e \<and> table s' = table s"
    | (run) n s1 where "IPTABLES_CHAIN_NAME n" "table s1 = table s" "after n s1 = (r, s')"
    unfolding validate_iptables_chain_name_Inr by blast
  then show ?thesis
  proof cases
    case run
    obtain r2 s2 where 2: "?N n s1 = (r2, s2)" by (cases "?N n s1")
    show ?thesis
    proof (cases r2)
      case (Inl e)
      have "table s2 = table s1" using iptables_kernelD(1) [OF assms(1)] 2 Inl by blast
      moreover have "r = Inl e \<and> s' = s2" using run(3) 2 Inl by (simp add: after_def pthen_def pbind_def)
      ultimately show ?thesis using run(2) by simp
    next
      case (Inr x)
      have fresh: "table s n = None" "table s2 = (table s)(n \<mapsto> [])"
        using iptables_kernelD(2) [OF assms(1) run(1)] 2 Inr run(2) by metis+
      obtain r3 s3 where 3: "fill_chain b c o' n s2 = (r3, s3)" by (cases "fill_chain b c o' n s2")
      have "(case r3 of Inl e \<Rightarrow> (Inl e, s3) | Inr _ \<Rightarrow> (Inr (new_lease b c n), s3)) = (r, s')"
        using run(1,3) 2 Inr 3
        by (simp add: after_def pthen_def pbind_def plift_def IptablesDnatLease_init_def new_lease_def
            validate_iptables_chain_name_Inr [THEN iffD2] pret_def split: sum.splits)
      with fill_chain_table [OF assms(1-4) run(1) assms(6) fresh 3] fresh(1) run(1) show ?thesis by auto
    qed
  qed blast
qed

lemma new_lease_close_table:
  assumes "iptables_kernel (ib_runner b) (ib_iptables_path b) restore table" "n \<noteq> ''PREROUTING''" "IPTABLES_CHAIN_NAME n"
    "IptablesDnatLease_close (ib_runner b) (new_lease b c n) s = (Inr (), l', s')"
  shows "\<exists>rules. table s ''PREROUTING'' = Some rules
     \<and> table s' = (table s)(''PREROUTING'' \<mapsto> remove1 (jump_rule c n) rules, n := None)"
proof -
  have "1 < length (il_jump_arguments (new_lease b c n))" by (simp add: new_lease_def jump_rule_def)
  with iptables_close_table [OF _ _ assms(4), of restore table] assms(1-3) show ?thesis by (auto simp: new_lease_def)
qed

text \<open>
  C11: installing the private chain is all or nothing.  It fails and leaves the nat table as it
  was; or it fails with a rollback error, and at most the new chain is left, empty; or it returns
  a lease, and the table has exactly the new chain with the one DNAT rule and one jump more.
  Closing that lease without an error removes the jump and the chain; with no other jump like it
  and no change in between, the table is the one before the installation.
\<close>

theorem iptables_install_exact:
  assumes "iptables_kernel (ib_runner b) (ib_iptables_path b) (ib_restore_path b) table"
    "valid_dnat_config c" "plain_dnat_config c" "valid_owner o'"
    "keeps table (ib_chain_name_factory b)" "table s ''PREROUTING'' = Some pre"
    "iptables_install b c o' s = (r, s')"
  shows "(\<exists>e. r = Inl e \<and> (table s' = table s \<or>
       (\<exists>n e' es. e = IptablesInstallRollbackError e' es \<and> table s n = None \<and> table s' = (table s)(n \<mapsto> []))))
    \<or> (\<exists>l n jump. r = Inr l \<and> n = il_chain_name l \<and> jump = jump_rule c n \<and> table s n = None
        \<and> table s' = (table s)(n \<mapsto> [dnat_rule c o'], ''PREROUTING'' \<mapsto> pre @ [jump])
        \<and> (\<forall>s2 l2 s3. IptablesDnatLease_close (ib_runner b) l s2 = (Inr (), l2, s3) \<longrightarrow>
             (\<exists>rules. table s2 ''PREROUTING'' = Some rules
                \<and> table s3 = (table s2)(''PREROUTING'' \<mapsto> remove1 jump rules, n := None))
             \<and> (table s2 = table s' \<and> jump \<notin> set pre \<longrightarrow> table s3 = table s)))"
  using iptables_install_table [OF assms]
proof (elim disjE exE conjE)
  fix n assume name: "IPTABLES_CHAIN_NAME n" and a: "r = Inr (new_lease b c n)" "table s n = None"
    "table s' = (table s)(n \<mapsto> [dnat_rule c o'], ''PREROUTING'' \<mapsto> pre @ [jump_rule c n])"
  have np: "n \<noteq> ''PREROUTING''" using a(2) assms(6) by auto
  have close: "(\<exists>rules. table s2 ''PREROUTING'' = Some rules
        \<and> table s3 = (table s2)(''PREROUTING'' \<mapsto> remove1 (jump_rule c n) rules, n := None))
      \<and> (table s2 = table s' \<and> jump_rule c n \<notin> set pre \<longrightarrow> table s3 = table s)"
    if c: "IptablesDnatLease_close (ib_runner b) (new_lease b c n) s2 = (Inr (), l2, s3)" for s2 l2 s3
  proof -
    obtain rules where ru: "table s2 ''PREROUTING'' = Some rules"
        "table s3 = (table s2)(''PREROUTING'' \<mapsto> remove1 (jump_rule c n) rules, n := None)"
      using new_lease_close_table [OF assms(1) np name c] by blast
    have "table s3 = table s" if "table s2 = table s'" "jump_rule c n \<notin> set pre"
      using ru that a(2,3) assms(6) np by (auto simp: fun_eq_iff remove1_append)
    with ru show ?thesis by blast
  qed
  have "il_chain_name (new_lease b c n) = n" by (simp add: new_lease_def)
  with a close show ?thesis by (intro disjI2 exI [of _ "new_lease b c n"]) simp
qed blast+

text \<open>A host whose state is its nat table.\<close>

definition nat_host :: "nat_table firewall_runner" where
  "nat_host argv input t =
     (let failed = (Inl (CalledProcessError 1 None ''iptables''), t)
      in case input of
           Some batch \<Rightarrow>
             (case batch_rules batch of
                Some rules \<Rightarrow> (Inr [], fold append_rule rules t)
              | None \<Rightarrow> failed)
         | None \<Rightarrow>
             (if length argv = 6 then
                (let n = argv ! 5
                 in if argv ! 4 = ''-N'' \<and> t n = None then (Inr [], t(n \<mapsto> []))
                    else if argv ! 4 = ''-F'' \<and> t n \<noteq> None then (Inr [], t(n \<mapsto> []))
                    else if argv ! 4 = ''-X'' \<and> t n = Some [] then (Inr [], t(n := None))
                    else failed)
              else
                (case t ''PREROUTING'' of
                   Some rules \<Rightarrow>
                     (if drop 6 argv \<in> set rules
                      then (Inr [], t(''PREROUTING'' \<mapsto> remove1 (drop 6 argv) rules)) else failed)
                 | None \<Rightarrow> failed)))"

definition nat_backend :: "nat_table iptables_backend" where
  "nat_backend =
     \<lparr>ib_iptables_path = ''iptables'', ib_restore_path = ''iptables-restore'', ib_save_path = ''iptables-save'',
      ib_runner = nat_host, ib_chain_name_factory = pret ''TCPCC_0123456789ab'',
      ib_proc_root = ''/proc'', ib_reader = (\<lambda>_. praise (OSError FileNotFoundError (Some 2) []))\<rparr>"

lemma nat_host_fails: "nat_host argv input t = (Inl e, t') \<Longrightarrow> t' = t"
  by (auto simp: nat_host_def Let_def split: option.splits if_splits)

lemma nat_host_commands:
  "nat_host [path, ''--wait'', ''-t'', ''nat'', ''-N'', n] None t = (Inr x, t') \<Longrightarrow> t n = None \<and> t' = t(n \<mapsto> [])"
  "nat_host [path, ''--wait'', ''-t'', ''nat'', ''-F'', n] None t = (Inr x, t') \<Longrightarrow> t n \<noteq> None \<and> t' = t(n \<mapsto> [])"
  "nat_host [path, ''--wait'', ''-t'', ''nat'', ''-X'', n] None t = (Inr x, t') \<Longrightarrow> t n = Some [] \<and> t' = t(n := None)"
  "args \<noteq> [] \<Longrightarrow> nat_host ([path, ''--wait'', ''-t'', ''nat'', ''-D'', ''PREROUTING''] @ args) None t = (Inr x, t')
     \<Longrightarrow> \<exists>rules. t ''PREROUTING'' = Some rules \<and> args \<in> set rules
           \<and> t' = t(''PREROUTING'' \<mapsto> remove1 args rules)"
  "nat_host [restore, ''--wait'', ''--noflush''] (Some batch) t = (Inr x, t') \<Longrightarrow> batch_rules batch = Some rules
     \<Longrightarrow> t' = fold append_rule rules t"
  by (auto simp: nat_host_def Let_def split: option.splits if_splits)

lemma nat_host_kernel: "iptables_kernel nat_host path restore (\<lambda>t. t)"
  unfolding iptables_kernel_def
proof (intro conjI allI impI)
  fix args t x t'
  assume "1 < length args" and a: "nat_host ([path, ''--wait'', ''-t'', ''nat'', ''-D'', ''PREROUTING''] @ args) None t = (Inr x, t')"
  then have "args \<noteq> []" by auto
  with nat_host_commands(4) a show "\<exists>rules. t ''PREROUTING'' = Some rules \<and> args \<in> set rules
      \<and> t' = t(''PREROUTING'' \<mapsto> remove1 args rules)" by blast
qed (drule nat_host_fails nat_host_commands(1-3), simp | drule (1) nat_host_commands(5), simp)+

theorem iptables_install_exact_witness:
  "\<exists>l. iptables_install nat_backend sample_dnat sample_owner [''PREROUTING'' \<mapsto> []] =
       (Inr l, [''TCPCC_0123456789ab'' \<mapsto> [dnat_rule sample_dnat sample_owner],
                ''PREROUTING'' \<mapsto> [jump_rule sample_dnat ''TCPCC_0123456789ab'']])"
proof -
  have n: "IPTABLES_CHAIN_NAME ''TCPCC_0123456789ab''" by code_simp
  obtain batch where b: "iptables_restore_batch sample_dnat ''TCPCC_0123456789ab'' sample_owner False = Inr batch"
      "batch_rules batch = Some [(''TCPCC_0123456789ab'', dnat_rule sample_dnat sample_owner),
         (''PREROUTING'', jump_rule sample_dnat ''TCPCC_0123456789ab'')]"
    using batch_rules_restore_batch [OF sample_valid n] by blast
  have d: "dc_table_name sample_dnat = None" by (simp add: sample_dnat_def)
  have k: "iptables_kernel (ib_runner nat_backend) (ib_iptables_path nat_backend) (ib_restore_path nat_backend) (\<lambda>t. t)"
    by (simp add: nat_backend_def nat_host_kernel)
  have f: "keeps (\<lambda>t. t) (ib_chain_name_factory nat_backend)" by (simp add: nat_backend_def keeps_pret)
  obtain l t where i: "iptables_install nat_backend sample_dnat sample_owner [''PREROUTING'' \<mapsto> []] = (Inr l, t)"
    "il_chain_name l = ''TCPCC_0123456789ab''"
    using n by (simp add: iptables_install_def d nat_backend_def pbind_def pthen_def pret_def plift_def
        validate_iptables_chain_name_Inr [THEN iffD2] fill_chain_def phandle_def b nat_host_def
        IptablesDnatLease_init_def)
  from iptables_install_exact [OF k sample_valid f _ i(1)] i show ?thesis by auto
qed

end
