(* ===== verification/Host_Network.thy ===== *)
theory Host_Network
  imports Iptables
begin

text \<open>
  The host-network transaction of \<^verbatim>\<open>tools/tcpcc_host.py\<close>: \<^verbatim>\<open>HostNetworkConfig\<close>,
  \<^verbatim>\<open>acquire_host_network\<close>, which takes the TUN queue and the DNAT lease under one
  journal, and \<^verbatim>\<open>HostNetworkLease\<close>.

  The callables that \<^verbatim>\<open>acquire_host_network\<close> takes are arguments on an arbitrary state.  What
  they return, the queue and the lease, are handles whose \<^verbatim>\<open>close\<close> acts on that state.  The
  journal of a running transaction is the second component of the state.

  The locale \<open>host_resources\<close> is the contract between the transaction and what it acquires; it
  is interpreted on the queue and the nftables lease of the other theories, kept as objects in a
  store.
\<close>

section \<open>Configuration\<close>

record HostNetworkConfig =
  hc_requested_cc :: string
  hc_tun :: TunConfig
  hc_dnat :: NftDnatConfig
  hc_firewall_backend :: string

text \<open>\<open>__post_init__\<close>; that \<open>tun\<close> and \<open>dnat\<close> are configurations is their type here.\<close>

definition backend_argument :: "pyval \<Rightarrow> exn + string" where
  "backend_argument v =
     (let bad = Inl (ValueError (''firewall_backend must be one of: '' @ join '', '' (sort FIREWALL_BACKENDS)))
      in case v of PStr b \<Rightarrow> (if b \<in> set FIREWALL_BACKENDS then Inr b else bad) | _ \<Rightarrow> bad)"

definition cc_argument :: "pyval \<Rightarrow> exn + string" where
  "cc_argument v =
     (let bad = Inl (ValueError ''requested_cc is not a supported algorithm name'')
      in case v of PStr cc \<Rightarrow> (if CC_NAME cc then Inr cc else bad) | _ \<Rightarrow> bad)"

definition HostNetworkConfig_init ::
  "pyval \<Rightarrow> TunConfig \<Rightarrow> NftDnatConfig \<Rightarrow> pyval \<Rightarrow> exn + HostNetworkConfig" where
  "HostNetworkConfig_init requested_cc tun dnat firewall_backend =
     rbind (cc_argument requested_cc) (\<lambda>cc.
     rbind (backend_argument firewall_backend) (\<lambda>backend.
     rbind (rguard (dc_target_address dnat = tc_guest_address tun)
              (ValueError ''DNAT target address must equal the TUN guest address'')) (\<lambda>_.
       Inr \<lparr>hc_requested_cc = cc, hc_tun = tun, hc_dnat = dnat, hc_firewall_backend = backend\<rparr>)))"

section \<open>Handles\<close>

record 's tun_handle =
  th_name :: string
  th_fd :: "('s, int) py"
  th_close :: "'s callback"

record 's dnat_handle =
  dh_backend_id :: string
  dh_resource_name :: string
  dh_close :: "'s callback"

record 's host_lease =
  hl_preflight :: PreflightReport
  hl_ownership :: OwnershipReport
  hl_tun :: "'s tun_handle"
  hl_dnat :: "'s dnat_handle"
  hl_journal :: "'s journal"

definition HostNetworkLease_tun_name :: "'s host_lease \<Rightarrow> string" where
  "HostNetworkLease_tun_name l = th_name (hl_tun l)"

definition HostNetworkLease_tun_fd :: "'s host_lease \<Rightarrow> ('s, int) py" where
  "HostNetworkLease_tun_fd l = th_fd (hl_tun l)"

definition HostNetworkLease_table_name :: "'s host_lease \<Rightarrow> string" where
  "HostNetworkLease_table_name l = dh_resource_name (hl_dnat l)"

definition HostNetworkLease_firewall_backend :: "'s host_lease \<Rightarrow> string" where
  "HostNetworkLease_firewall_backend l = dh_backend_id (hl_dnat l)"

definition HostNetworkLease_firewall_resource :: "'s host_lease \<Rightarrow> string" where
  "HostNetworkLease_firewall_resource l = dh_resource_name (hl_dnat l)"

definition HostNetworkLease_closed :: "'s host_lease \<Rightarrow> bool" where
  "HostNetworkLease_closed l \<longleftrightarrow> j_closed (hl_journal l)"

definition HostNetworkLease_close :: "'s host_lease \<Rightarrow> 's \<Rightarrow> (exn + unit) \<times> 's host_lease \<times> 's" where
  "HostNetworkLease_close l s =
     (case close_journal (hl_journal l) s of (r, j, s') \<Rightarrow> (r, l\<lparr>hl_journal := j\<rparr>, s'))"

interpretation host_lease: lease HostNetworkLease_close HostNetworkLease_closed
proof
  fix h h' :: "'a host_lease" and s s' :: 'a and r
  show "HostNetworkLease_close h s = (r, h', s') \<Longrightarrow> HostNetworkLease_closed h'"
    using journal.close_closes [of "hl_journal h" s]
    by (auto simp: HostNetworkLease_close_def HostNetworkLease_closed_def split: prod.splits)
  show "HostNetworkLease_closed h \<Longrightarrow> HostNetworkLease_close h s = (Inr (), h, s)"
    by (simp add: HostNetworkLease_close_def HostNetworkLease_closed_def journal.close_again)
qed

section \<open>The transaction\<close>

type_synonym 's txn = "'s \<times> 's journal"

definition txn_defer :: "string \<Rightarrow> 's callback \<Rightarrow> ('s txn, unit) py" where
  "txn_defer label callback t =
     (case defer_callback label callback (snd t) of
        Inl e \<Rightarrow> (Inl e, t) | Inr j \<Rightarrow> (Inr (), (fst t, j)))"

definition txn_close :: "('s txn, unit) py" where
  "txn_close t = (case close_journal (snd t) (fst t) of (r, j, s) \<Rightarrow> (r, (s, j)))"

definition rollback_unregistered_resource :: "string \<Rightarrow> 's callback \<Rightarrow> exn \<Rightarrow> ('s txn, unit) py" where
  "rollback_unregistered_resource label callback startup_error =
     pbind (pattempt (on_fst callback)) (\<lambda>r.
     pbind (phandle (pthen txn_close (pret []))
              (\<lambda>e. case e of CleanupError failures \<Rightarrow> pret failures | _ \<Rightarrow> praise e)) (\<lambda>more.
       let failures = (case r of Inl e \<Rightarrow> [(label, e)] | Inr _ \<Rightarrow> []) @ more
       in if failures \<noteq> [] then praise (StartupRollbackError startup_error failures)
          else praise startup_error))"

definition register_resource :: "string \<Rightarrow> 's callback \<Rightarrow> ('s txn, unit) py" where
  "register_resource label callback =
     phandle (txn_defer label callback) (rollback_unregistered_resource label callback)"

text \<open>The \<open>try\<close> statement: its body, and its handlers.\<close>

definition acquire_body ::
  "HostNetworkConfig \<Rightarrow> (TunConfig \<Rightarrow> ('s, 's tun_handle) py) \<Rightarrow> (string \<Rightarrow> ('s, NftOwnership) py)
   \<Rightarrow> (NftDnatConfig \<Rightarrow> NftOwnership \<Rightarrow> ('s, 's dnat_handle) py)
   \<Rightarrow> ('s txn, 's tun_handle \<times> 's dnat_handle) py" where
  "acquire_body config tun_acquirer identity_factory dnat_acquirer =
     pbind (on_fst (tun_acquirer (hc_tun config))) (\<lambda>tun.
     pthen (register_resource (''tun:'' @ th_name tun) (th_close tun))
     (pbind (on_fst (identity_factory (th_name tun))) (\<lambda>owner.
      pbind (on_fst (dnat_acquirer (hc_dnat config) owner)) (\<lambda>dnat.
        if dh_resource_name dnat = []
        then praise (TypeError ''dnat_acquirer returned an invalid firewall lease'')
        else
          pthen (register_resource (dh_backend_id dnat @ '':'' @ dh_resource_name dnat) (dh_close dnat))
            (pret (tun, dnat))))))"

definition acquire_failed :: "exn \<Rightarrow> ('s txn, 'a) py" where
  "acquire_failed startup_error =
     (case startup_error of
        StartupRollbackError _ _ \<Rightarrow> praise startup_error
      | _ \<Rightarrow>
          pthen
            (phandle txn_close
               (\<lambda>e. case e of CleanupError failures \<Rightarrow> praise (StartupRollbackError startup_error failures)
                    | _ \<Rightarrow> praise e))
            (praise startup_error))"

text \<open>The transaction once its callables are chosen; the journal becomes part of the lease.\<close>

definition acquire_resources ::
  "HostNetworkConfig \<Rightarrow> (TunConfig \<Rightarrow> ('s, 's tun_handle) py) \<Rightarrow> (string \<Rightarrow> ('s, NftOwnership) py)
   \<Rightarrow> (NftDnatConfig \<Rightarrow> NftOwnership \<Rightarrow> ('s, 's dnat_handle) py) \<Rightarrow> PreflightReport \<Rightarrow> OwnershipReport
   \<Rightarrow> 's journal \<Rightarrow> ('s, 's host_lease) py" where
  "acquire_resources config tun_acquirer identity_factory dnat_acquirer preflight ownership journal s =
     (case phandle (acquire_body config tun_acquirer identity_factory dnat_acquirer) acquire_failed (s, journal) of
        (Inl e, (s', j)) \<Rightarrow> (Inl e, s')
      | (Inr (tun, dnat), (s', j)) \<Rightarrow>
          (Inr \<lparr>hl_preflight = preflight, hl_ownership = ownership, hl_tun = tun, hl_dnat = dnat,
                hl_journal = j\<rparr>, s'))"

definition acquire_with ::
  "HostNetworkConfig \<Rightarrow> (string \<Rightarrow> ('s, PreflightReport) py) \<Rightarrow> ('s, OwnershipReport) py
   \<Rightarrow> (NftDnatConfig \<Rightarrow> ('s, unit) py) \<Rightarrow> (TunConfig \<Rightarrow> ('s, 's tun_handle) py)
   \<Rightarrow> (string \<Rightarrow> ('s, NftOwnership) py) \<Rightarrow> (NftDnatConfig \<Rightarrow> NftOwnership \<Rightarrow> ('s, 's dnat_handle) py)
   \<Rightarrow> ('s, 's journal) py \<Rightarrow> ('s, 's host_lease) py" where
  "acquire_with config preflight_collector ownership_collector compatibility_checker tun_acquirer
       identity_factory dnat_acquirer journal_factory =
     pbind (preflight_collector (hc_requested_cc config)) (\<lambda>preflight.
     if \<not> preflight_ok preflight then praise (HostPreflightError preflight) else
     pbind ownership_collector (\<lambda>ownership.
     if blocking ownership then praise (StaleOwnershipError ownership) else
     pthen (compatibility_checker (hc_dnat config))
     (pbind journal_factory
        (acquire_resources config tun_acquirer identity_factory dnat_acquirer preflight ownership))))"

text \<open>The methods of a \<open>FirewallBackend\<close> that the transaction uses.\<close>

record 's firewall_object =
  fo_backend_id :: string
  fo_inspect :: "('s, OwnershipReport) py"
  fo_check :: "NftDnatConfig \<Rightarrow> ('s, unit) py"
  fo_install :: "NftDnatConfig \<Rightarrow> NftOwnership \<Rightarrow> ('s, 's dnat_handle) py"

definition choose_firewall ::
  "HostNetworkConfig \<Rightarrow> (exn + 's firewall_object) \<Rightarrow> 's firewall_object option \<Rightarrow> exn + 's firewall_object" where
  "choose_firewall config create_backend firewall =
     rbind (case firewall of Some f \<Rightarrow> Inr f | None \<Rightarrow> create_backend) (\<lambda>f.
     rbind (rguard (fo_backend_id f = hc_firewall_backend config)
              (ValueError ''configured firewall backend does not match injected backend'')) (\<lambda>_. Inr f))"

text \<open>
  \<open>acquire_host_network\<close> with its optional arguments; \<open>default_preflight\<close> and \<open>create_backend\<close> are
  what the source builds where they are missing.
\<close>

definition acquire_host_network ::
  "HostNetworkConfig \<Rightarrow> (string \<Rightarrow> ('s, PreflightReport) py) \<Rightarrow> (exn + 's firewall_object)
   \<Rightarrow> 's firewall_object option \<Rightarrow> (string \<Rightarrow> ('s, PreflightReport) py) option
   \<Rightarrow> ('s, OwnershipReport) py option \<Rightarrow> (NftDnatConfig \<Rightarrow> ('s, unit) py) option
   \<Rightarrow> (TunConfig \<Rightarrow> ('s, 's tun_handle) py)
   \<Rightarrow> (NftDnatConfig \<Rightarrow> NftOwnership \<Rightarrow> ('s, 's dnat_handle) py) option
   \<Rightarrow> (string \<Rightarrow> ('s, NftOwnership) py) \<Rightarrow> ('s, 's journal) py \<Rightarrow> ('s, 's host_lease) py" where
  "acquire_host_network config default_preflight create_backend firewall preflight_collector
       ownership_collector compatibility_checker tun_acquirer dnat_acquirer identity_factory journal_factory =
     (let collect = (case preflight_collector of Some c \<Rightarrow> c | None \<Rightarrow> default_preflight)
      in case (ownership_collector, compatibility_checker, dnat_acquirer) of
           (Some own, Some dry, Some inst) \<Rightarrow>
             acquire_with config collect own dry tun_acquirer identity_factory inst journal_factory
         | _ \<Rightarrow>
             pbind (plift (choose_firewall config create_backend firewall)) (\<lambda>f.
               acquire_with config collect
                 (case ownership_collector of Some m \<Rightarrow> m | None \<Rightarrow> fo_inspect f)
                 (case compatibility_checker of Some m \<Rightarrow> m | None \<Rightarrow> fo_check f)
                 tun_acquirer identity_factory
                 (case dnat_acquirer of Some m \<Rightarrow> m | None \<Rightarrow> fo_install f)
                 journal_factory))"

section \<open>The default wiring\<close>

text \<open>
  A queue and a lease are mutable objects: the store keeps them by index, and a handle's \<open>close\<close>
  closes the object at its index.
\<close>

record 's host_store =
  hs_world :: 's
  hs_tuns :: "tun_queue list"
  hs_leases :: "'s dnat_lease list"

definition on_world :: "('s, 'a) py \<Rightarrow> ('s host_store, 'a) py" where
  "on_world m st = (case m (hs_world st) of (r, w) \<Rightarrow> (r, st\<lparr>hs_world := w\<rparr>))"

definition tun_object :: "(int \<Rightarrow> ('s, unit) py) \<Rightarrow> nat \<Rightarrow> string \<Rightarrow> 's host_store tun_handle" where
  "tun_object closer i name =
     \<lparr>th_name = name,
      th_fd = (\<lambda>st. (TunQueue_fd (hs_tuns st ! i), st)),
      th_close = (\<lambda>st. case TunQueue_close closer (hs_tuns st ! i) (hs_world st) of
                         (r, q, w) \<Rightarrow> (r, st\<lparr>hs_world := w, hs_tuns := (hs_tuns st)[i := q]\<rparr>))\<rparr>"

definition dnat_object :: "nat \<Rightarrow> string \<Rightarrow> string \<Rightarrow> 's host_store dnat_handle" where
  "dnat_object i kind resource_name =
     \<lparr>dh_backend_id = kind, dh_resource_name = resource_name,
      dh_close = (\<lambda>st. case dnat_close (hs_leases st ! i) (hs_world st) of
                         (r, l, w) \<Rightarrow> (r, st\<lparr>hs_world := w, hs_leases := (hs_leases st)[i := l]\<rparr>))\<rparr>"

definition new_tun :: "(int \<Rightarrow> ('s, unit) py) \<Rightarrow> tun_queue \<Rightarrow> ('s host_store, 's host_store tun_handle) py" where
  "new_tun closer q st =
     (Inr (tun_object closer (length (hs_tuns st)) (tq_name q)), st\<lparr>hs_tuns := hs_tuns st @ [q]\<rparr>)"

definition new_dnat :: "'s dnat_lease \<Rightarrow> ('s host_store, 's host_store dnat_handle) py" where
  "new_dnat l st =
     (Inr (dnat_object (length (hs_leases st)) (dnat_backend_id l) (dnat_resource_name l)),
      st\<lparr>hs_leases := hs_leases st @ [l]\<rparr>)"

definition default_tun_acquirer ::
  "'s tun_os \<Rightarrow> TunConfig \<Rightarrow> ('s host_store, 's host_store tun_handle) py" where
  "default_tun_acquirer os config =
     pbind (on_world (create_tun_queue os ''/dev/net/tun'' (PStr ''ip'') (PInt DEFAULT_NAME_ATTEMPTS) config))
       (new_tun (os_close os))"

definition backend_object :: "'s host_env \<Rightarrow> 's firewall_backend \<Rightarrow> 's host_store firewall_object" where
  "backend_object env b =
     \<lparr>fo_backend_id = backend_id b, fo_inspect = on_world (backend_inspect env b),
      fo_check = (\<lambda>config. on_world (backend_check env b config)),
      fo_install = (\<lambda>config ownership. pbind (on_world (backend_install env b config ownership)) new_dnat)\<rparr>"

definition default_preflight ::
  "'s HostInspector \<Rightarrow> HostNetworkConfig \<Rightarrow> string \<Rightarrow> string \<Rightarrow> string \<Rightarrow> string \<Rightarrow> string
   \<Rightarrow> ('s host_store, PreflightReport) py" where
  "default_preflight inspector config nft_path iptables_path restore_path save_path cc =
     on_world (collect_preflight cc inspector (dnat_ip_version (hc_dnat config)) (hc_firewall_backend config)
       nft_path iptables_path restore_path save_path)"

section \<open>The contract of the resources\<close>

fun is_StartupRollbackError :: "exn \<Rightarrow> bool" where
  "is_StartupRollbackError (StartupRollbackError e fs) = True"
| "is_StartupRollbackError _ = False"

text \<open>
  What the transaction relies on.  \<open>tuns\<close> and \<open>rules\<close> observe the resources that exist;
  \<open>tun_held\<close> and \<open>dnat_held\<close> say that closing the handle gives a resource back.  The laws hold
  where the environment keeps its promises and the DNAT configuration is usable.
\<close>

locale host_resources =
  fixes promised :: bool
    and tuns :: "'s \<Rightarrow> 'x set"
    and rules :: "'s \<Rightarrow> 'y set"
    and tun_acquirer :: "TunConfig \<Rightarrow> ('s, 's tun_handle) py"
    and identity_factory :: "string \<Rightarrow> ('s, NftOwnership) py"
    and dnat_acquirer :: "NftDnatConfig \<Rightarrow> NftOwnership \<Rightarrow> ('s, 's dnat_handle) py"
    and tun_held :: "'s tun_handle \<Rightarrow> 'x \<Rightarrow> 's \<Rightarrow> bool"
    and dnat_held :: "'s dnat_handle \<Rightarrow> 'y \<Rightarrow> 's \<Rightarrow> bool"
    and usable :: "NftDnatConfig \<Rightarrow> bool"
  assumes tun_fails:
      "promised \<Longrightarrow> tun_acquirer c s = (Inl e, s') \<Longrightarrow> tuns s' = tuns s \<and> rules s' = rules s"
    and tun_new: "promised \<Longrightarrow> tun_acquirer c s = (Inr h, s') \<Longrightarrow>
      rules s' = rules s \<and> (\<exists>x. x \<notin> tuns s \<and> tuns s' = insert x (tuns s) \<and> tun_held h x s')"
    and tun_close: "promised \<Longrightarrow> tun_held h x s \<Longrightarrow> th_close h s = (u, s') \<Longrightarrow>
      tuns s' = tuns s - {x} \<and> rules s' = rules s"
    and identity_frame: "promised \<Longrightarrow> identity_factory n s = (o', s') \<Longrightarrow>
      tuns s' = tuns s \<and> rules s' = rules s \<and> (tun_held h x s \<longrightarrow> tun_held h x s')"
    and identity_fails: "promised \<Longrightarrow> identity_factory n s = (Inl e, s') \<Longrightarrow> \<not> is_StartupRollbackError e"
    and identity_valid: "promised \<Longrightarrow> identity_factory n s = (Inr owner, s') \<Longrightarrow> valid_owner owner"
    and dnat_frame: "promised \<Longrightarrow> usable d \<Longrightarrow> valid_owner owner \<Longrightarrow> dnat_acquirer d owner s = (r, s') \<Longrightarrow>
      tuns s' = tuns s \<and> (tun_held h x s \<longrightarrow> tun_held h x s')"
    and dnat_fails: "promised \<Longrightarrow> usable d \<Longrightarrow> valid_owner owner \<Longrightarrow> dnat_acquirer d owner s = (Inl e, s') \<Longrightarrow>
      rules s' = rules s \<and> \<not> is_StartupRollbackError e"
    and dnat_new: "promised \<Longrightarrow> usable d \<Longrightarrow> valid_owner owner \<Longrightarrow> dnat_acquirer d owner s = (Inr l, s') \<Longrightarrow>
      dh_resource_name l \<noteq> [] \<and> (\<exists>y. y \<notin> rules s \<and> rules s' = insert y (rules s) \<and> dnat_held l y s')"
    and dnat_close: "promised \<Longrightarrow> dnat_held l y s \<Longrightarrow> dh_close l s = (u, s') \<Longrightarrow>
      tuns s' = tuns s \<and> (tun_held h x s \<longrightarrow> tun_held h x s')
      \<and> rules s' = (if u = Inr () then rules s - {y} else rules s)"
begin

text \<open>Closing a journal that holds the queue alone.\<close>

lemma close_tun_only:
  assumes "promised" "tun_held h x s" "tuns s = insert x t" "x \<notin> t"
    "acquire_failed e (s, \<lparr>j_entries = [(label, th_close h)], j_closed = False\<rparr>) = (r, s', j)"
    "\<not> is_StartupRollbackError e"
  shows "\<exists>e'. r = Inl e' \<and> tuns s' = t \<and> rules s' = rules s"
proof -
  obtain u s1 where c: "th_close h s = (u, s1)" by (cases "th_close h s")
  have t: "tuns s1 = t" "rules s1 = rules s" using tun_close [OF assms(1,2) c] assms(3,4) by auto
  have "txn_close (s, \<lparr>j_entries = [(label, th_close h)], j_closed = False\<rparr>) =
      (case u of Inl e1 \<Rightarrow> Inl (CleanupError [(label, e1)]) | Inr _ \<Rightarrow> Inr (), s1, \<lparr>j_entries = [], j_closed = True\<rparr>)"
    by (simp add: txn_close_def close_journal_def c split: sum.split)
  then have "\<exists>e'. r = Inl e' \<and> s' = s1"
    using assms(5,6)
    by (cases u; cases e) (auto simp: acquire_failed_def pthen_def pbind_def phandle_def praise_def)
  with t show ?thesis by blast
qed

lemma register_open:
  "label \<noteq> [] \<Longrightarrow> register_resource label cb (s, \<lparr>j_entries = es, j_closed = False\<rparr>) =
     (Inr (), s, \<lparr>j_entries = es @ [(label, cb)], j_closed = False\<rparr>)"
  by (simp add: register_resource_def txn_defer_def defer_callback_def phandle_def)

lemma acquire_after_tun:
  fixes label :: string and tun :: "'s tun_handle"
  defines "j \<equiv> \<lparr>j_entries = [(label, th_close tun)], j_closed = False\<rparr>"
  assumes "promised" "usable d" "tun_held tun x s" "tuns s = insert x t" "x \<notin> t"
    "phandle
       (pbind (on_fst (identity_factory n)) (\<lambda>owner.
        pbind (on_fst (dnat_acquirer d owner)) (\<lambda>dnat.
          if dh_resource_name dnat = [] then praise e0
          else pthen (register_resource (dh_backend_id dnat @ '':'' @ dh_resource_name dnat) (dh_close dnat))
                 (pret (tun, dnat))))) acquire_failed (s, j) = (r, s', j')"
  shows "(\<exists>e. r = Inl e \<and> tuns s' = t \<and> rules s' = rules s) \<or>
    (\<exists>dnat y dlabel. r = Inr (tun, dnat) \<and> tuns s' = insert x t \<and> tun_held tun x s'
       \<and> y \<notin> rules s \<and> rules s' = insert y (rules s) \<and> dnat_held dnat y s'
       \<and> j' = \<lparr>j_entries = [(label, th_close tun), (dlabel, dh_close dnat)], j_closed = False\<rparr>)"
proof -
  obtain r1 s1 where 1: "identity_factory n s = (r1, s1)" by (cases "identity_factory n s")
  have f1: "tuns s1 = insert x t" "rules s1 = rules s" "tun_held tun x s1"
    using identity_frame [OF assms(2) 1] assms(4,5) by blast+
  show ?thesis
  proof (cases r1)
    case (Inl e)
    have "acquire_failed e (s1, j) = (r, s', j')" using assms(7) 1 Inl by (simp add: phandle_def pbind_def on_fst_def)
    from close_tun_only [OF assms(2) f1(3,1) assms(6) this [unfolded j_def]] identity_fails [OF assms(2) 1 [unfolded Inl]]
    show ?thesis using f1(2) by auto
  next
    case (Inr owner)
    have v: "valid_owner owner" using identity_valid [OF assms(2) 1 [unfolded Inr]] .
    obtain r2 s2 where 2: "dnat_acquirer d owner s1 = (r2, s2)" by (cases "dnat_acquirer d owner s1")
    have f2: "tuns s2 = insert x t" "tun_held tun x s2" using dnat_frame [OF assms(2,3) v 2] f1 by blast+
    show ?thesis
    proof (cases r2)
      case (Inl e)
      have "acquire_failed e (s2, j) = (r, s', j')"
        using assms(7) 1 2 Inl Inr by (simp add: phandle_def pbind_def on_fst_def)
      from close_tun_only [OF assms(2) f2(2,1) assms(6) this [unfolded j_def]]
      show ?thesis using dnat_fails [OF assms(2,3) v 2 [unfolded Inl]] f1(2) by auto
    next
      case (Inr dnat)
      obtain y where y: "dh_resource_name dnat \<noteq> []" "y \<notin> rules s1" "rules s2 = insert y (rules s1)" "dnat_held dnat y s2"
        using dnat_new [OF assms(2,3) v 2 [unfolded Inr]] by blast
      have "r = Inr (tun, dnat) \<and> s' = s2 \<and> j' = \<lparr>j_entries = [(label, th_close tun),
          (dh_backend_id dnat @ '':'' @ dh_resource_name dnat, dh_close dnat)], j_closed = False\<rparr>"
        using assms(7) 1 2 Inr \<open>r1 = Inr owner\<close> y(1)
        by (simp add: phandle_def pbind_def pthen_def on_fst_def j_def register_open pret_def)
      with y f2 f1(2) show ?thesis by auto
    qed
  qed
qed

text \<open>All or nothing: on any error both resources are as before, otherwise the lease holds one of each.\<close>

lemma acquire_all_or_nothing:
  assumes "promised" "usable (hc_dnat config)"
    "acquire_resources config tun_acquirer identity_factory dnat_acquirer preflight ownership OwnershipJournal s = (r, s')"
  shows "(\<exists>e. r = Inl e \<and> tuns s' = tuns s \<and> rules s' = rules s) \<or>
    (\<exists>l x y tlabel dlabel. r = Inr l \<and> x \<notin> tuns s \<and> tuns s' = insert x (tuns s) \<and> tun_held (hl_tun l) x s'
       \<and> y \<notin> rules s \<and> rules s' = insert y (rules s) \<and> dnat_held (hl_dnat l) y s'
       \<and> hl_journal l = \<lparr>j_entries = [(tlabel, th_close (hl_tun l)), (dlabel, dh_close (hl_dnat l))], j_closed = False\<rparr>)"
proof -
  let ?body = "acquire_body config tun_acquirer identity_factory dnat_acquirer"
  obtain r1 s1 where 1: "tun_acquirer (hc_tun config) s = (r1, s1)" by (cases "tun_acquirer (hc_tun config) s")
  obtain r2 s2 j2 where 2: "phandle ?body acquire_failed (s, OwnershipJournal) = (r2, s2, j2)"
    by (cases "phandle ?body acquire_failed (s, OwnershipJournal)") auto
  have r: "(case r2 of Inl e \<Rightarrow> (Inl e, s2) | Inr (tun, dnat) \<Rightarrow>
      (Inr \<lparr>hl_preflight = preflight, hl_ownership = ownership, hl_tun = tun, hl_dnat = dnat, hl_journal = j2\<rparr>, s2)) = (r, s')"
    using assms(3) 2 by (auto simp: acquire_resources_def split: sum.splits)
  show ?thesis
  proof (cases r1)
    case (Inl e)
    have "acquire_failed e (s1, OwnershipJournal) = (r2, s2, j2)"
      using 1 2 Inl by (simp add: acquire_body_def phandle_def pbind_def on_fst_def)
    then have "\<exists>e'. r2 = Inl e' \<and> s2 = s1"
      by (cases e) (auto simp: acquire_failed_def txn_close_def close_journal_def OwnershipJournal_def
          pthen_def pbind_def phandle_def praise_def)
    with r tun_fails [OF assms(1) 1 [unfolded Inl]] show ?thesis by auto
  next
    case (Inr tun)
    obtain x where x: "rules s1 = rules s" "x \<notin> tuns s" "tuns s1 = insert x (tuns s)" "tun_held tun x s1"
      using tun_new [OF assms(1) 1 [unfolded Inr]] by blast
    let ?l = "''tun:'' @ th_name tun"
    have "phandle
       (pbind (on_fst (identity_factory (th_name tun))) (\<lambda>owner.
        pbind (on_fst (dnat_acquirer (hc_dnat config) owner)) (\<lambda>dnat.
          if dh_resource_name dnat = [] then praise (TypeError ''dnat_acquirer returned an invalid firewall lease'')
          else pthen (register_resource (dh_backend_id dnat @ '':'' @ dh_resource_name dnat) (dh_close dnat))
                 (pret (tun, dnat))))) acquire_failed
       (s1, \<lparr>j_entries = [(?l, th_close tun)], j_closed = False\<rparr>) = (r2, s2, j2)"
      using 1 2 Inr
      by (simp add: acquire_body_def phandle_def pbind_def [of "on_fst (tun_acquirer _)"] on_fst_def [of "tun_acquirer _"]
          pthen_def [of "register_resource _ _"] pbind_def [of "register_resource _ _"]
          register_open OwnershipJournal_def)
    from acquire_after_tun [OF assms(1,2) x(4,3,2) this] r x(1,2) show ?thesis by fastforce
  qed
qed

text \<open>The checks that come first change neither; an error there leaves both as before.\<close>

lemma acquire_with_all_or_nothing:
  assumes "promised" "usable (hc_dnat config)" "\<And>cc. keeps (\<lambda>s. (tuns s, rules s)) (collect cc)"
    "keeps (\<lambda>s. (tuns s, rules s)) own" "\<And>d. keeps (\<lambda>s. (tuns s, rules s)) (dry d)"
    "acquire_with config collect own dry tun_acquirer identity_factory dnat_acquirer (pret OwnershipJournal) s = (r, s')"
  shows "(\<exists>e. r = Inl e \<and> tuns s' = tuns s \<and> rules s' = rules s) \<or>
    (\<exists>l x y tlabel dlabel. r = Inr l \<and> x \<notin> tuns s \<and> tuns s' = insert x (tuns s) \<and> tun_held (hl_tun l) x s'
       \<and> y \<notin> rules s \<and> rules s' = insert y (rules s) \<and> dnat_held (hl_dnat l) y s'
       \<and> hl_journal l = \<lparr>j_entries = [(tlabel, th_close (hl_tun l)), (dlabel, dh_close (hl_dnat l))], j_closed = False\<rparr>)"
proof -
  let ?obs = "\<lambda>s. (tuns s, rules s)"
  obtain r1 s1 where 1: "collect (hc_requested_cc config) s = (r1, s1)" by (cases "collect (hc_requested_cc config) s")
  note k1 = keepsD [OF assms(3) 1]
  show ?thesis
  proof (cases "\<exists>p. r1 = Inr p \<and> preflight_ok p")
    case False
    then have "\<exists>e. r = Inl e \<and> s' = s1"
      using assms(6) 1 by (cases r1) (auto simp: acquire_with_def pbind_def praise_def)
    with k1 show ?thesis by auto
  next
    case True
    then obtain p where p: "r1 = Inr p" "preflight_ok p" by blast
    obtain r2 s2 where 2: "own s1 = (r2, s2)" by (cases "own s1")
    note k2 = keepsD [OF assms(4) 2]
    show ?thesis
    proof (cases "\<exists>o'. r2 = Inr o' \<and> \<not> blocking o'")
      case False
      then have "\<exists>e. r = Inl e \<and> s' = s2"
        using assms(6) 1 2 p by (cases r2) (auto simp: acquire_with_def pbind_def praise_def)
      with k1 k2 show ?thesis by auto
    next
      case True
      then obtain o' where o: "r2 = Inr o'" "\<not> blocking o'" by blast
      obtain r3 s3 where 3: "dry (hc_dnat config) s2 = (r3, s3)" by (cases "dry (hc_dnat config) s2")
      note k3 = keepsD [OF assms(5) 3]
      show ?thesis
      proof (cases r3)
        case (Inl e)
        then have "r = Inl e \<and> s' = s3"
          using assms(6) 1 2 3 p o by (simp add: acquire_with_def pbind_def pthen_def)
        with k1 k2 k3 show ?thesis by auto
      next
        case (Inr x)
        then have "acquire_resources config tun_acquirer identity_factory dnat_acquirer p o' OwnershipJournal s3 = (r, s')"
          using assms(6) 1 2 3 p o by (simp add: acquire_with_def pbind_def pthen_def pret_def)
        from acquire_all_or_nothing [OF assms(1,2) this] k1 k2 k3 show ?thesis by simp
      qed
    qed
  qed
qed

text \<open>Closing the lease gives both resources back, the rule first.\<close>

lemma close_gives_back:
  assumes "promised" "tun_held (hl_tun l) x s" "dnat_held (hl_dnat l) y s"
    "hl_journal l = \<lparr>j_entries = [(tlabel, th_close (hl_tun l)), (dlabel, dh_close (hl_dnat l))], j_closed = False\<rparr>"
    "HostNetworkLease_close l s = (r, l', s')"
  shows "tuns s' = tuns s - {x} \<and> (r = Inr () \<longrightarrow> rules s' = rules s - {y})"
proof -
  obtain r1 s1 where 1: "dh_close (hl_dnat l) s = (r1, s1)" by (cases "dh_close (hl_dnat l) s")
  obtain r2 s2 where 2: "th_close (hl_tun l) s1 = (r2, s2)" by (cases "th_close (hl_tun l) s1")
  have c: "s' = s2 \<and> (r = Inr () \<longrightarrow> r1 = Inr ())"
    using assms(5) 1 2
    by (auto simp: HostNetworkLease_close_def assms(4) close_journal_def split: sum.splits if_splits)
  have d: "tuns s1 = tuns s" "tun_held (hl_tun l) x s1" "rules s1 = (if r1 = Inr () then rules s - {y} else rules s)"
    using dnat_close [OF assms(1,3) 1] assms(2) by blast+
  have t: "tuns s2 = tuns s1 - {x}" "rules s2 = rules s1" using tun_close [OF assms(1) d(2) 2] by blast+
  from c d t show ?thesis by simp
qed

end

section \<open>The queue and the nftables lease keep the contract\<close>

definition no_rollback :: "('s, 'a) py \<Rightarrow> bool" where
  "no_rollback m \<longleftrightarrow> (\<forall>s e s'. m s = (Inl e, s') \<longrightarrow> \<not> is_StartupRollbackError e)"

named_theorems no_rollback_intros

lemma no_rollback_pret [no_rollback_intros]: "no_rollback (pret x)"
  by (simp add: no_rollback_def pret_def)

lemma no_rollback_praise: "\<not> is_StartupRollbackError e \<Longrightarrow> no_rollback (praise e)"
  by (simp add: no_rollback_def praise_def)

lemma no_rollback_pbind [no_rollback_intros]:
  "no_rollback m \<Longrightarrow> (\<And>x. no_rollback (f x)) \<Longrightarrow> no_rollback (pbind m f)"
  by (fastforce simp: no_rollback_def pbind_eq_Inl)

lemma no_rollback_pthen [no_rollback_intros]: "no_rollback m \<Longrightarrow> no_rollback k \<Longrightarrow> no_rollback (pthen m k)"
  unfolding pthen_def by (rule no_rollback_pbind)

lemma no_rollback_if [no_rollback_intros]:
  "no_rollback m \<Longrightarrow> no_rollback n \<Longrightarrow> no_rollback (if c then m else n)"
  by simp

lemma no_rollback_plift: "(\<And>e. r = Inl e \<Longrightarrow> \<not> is_StartupRollbackError e) \<Longrightarrow> no_rollback (plift r)"
  by (simp add: no_rollback_def plift_def)

definition tun_keeps :: "'s tun_os \<Rightarrow> ('s \<Rightarrow> 'v) \<Rightarrow> bool" where
  "tun_keeps os obs \<longleftrightarrow>
     (\<forall>p f. keeps obs (os_open os p f)) \<and> (\<forall>fd req b. keeps obs (os_ioctl os fd req b))
     \<and> (\<forall>fd. keeps obs (os_close os fd)) \<and> (\<forall>argv. keeps obs (os_run os argv)) \<and> keeps obs (os_new_name os)"

text \<open>What the operating system, \<open>nft\<close> and procfs promise to the two observations.\<close>

definition host_promises ::
  "'s tun_os \<Rightarrow> 's host_env \<Rightarrow> 's nft_transport \<Rightarrow> ('s \<Rightarrow> int set) \<Rightarrow> ('s \<Rightarrow> (string \<times> string) set) \<Rightarrow> bool" where
  "host_promises os env t fds tables \<longleftrightarrow>
     fd_table os fds \<and> tun_keeps os tables \<and> nft_kernel (tr_run t) (tr_command_name t) tables
     \<and> (\<forall>argv input. keeps fds (tr_run t argv input) \<and> no_rollback (tr_run t argv input))
     \<and> (\<forall>argv. keeps (\<lambda>w. (fds w, tables w)) (tr_read t argv))
     \<and> (\<forall>p. keeps (\<lambda>w. (fds w, tables w)) (he_reader env p) \<and> no_rollback (he_reader env p))
     \<and> keeps (\<lambda>w. (fds w, tables w)) (he_getpid env) \<and> no_rollback (he_getpid env)
     \<and> (\<forall>n. keeps (\<lambda>w. (fds w, tables w)) (he_random env n) \<and> no_rollback (he_random env n))"

lemma keeps_pair: "keeps (\<lambda>w. (f w, g w)) m \<longleftrightarrow> keeps f m \<and> keeps g m"
  by (auto simp: keeps_def)

lemma keeps_tun_attempts:
  assumes "tun_keeps os obs"
  shows "keeps obs (tun_attempts k attempts os tun_path ip_path config)"
proof (induction k)
  case (Suc k)
  have os: "\<And>p f. keeps obs (os_open os p f)" "\<And>fd req b. keeps obs (os_ioctl os fd req b)"
    "\<And>fd. keeps obs (os_close os fd)" "\<And>argv. keeps obs (os_run os argv)" "keeps obs (os_new_name os)"
    using assms unfolding tun_keeps_def by blast+
  have set_up: "keeps obs (setup_tun os ip_path config h g b name fd)" for h g b name fd
    unfolding setup_tun_def configure_interface_def by (intro keeps_intros os)
  have close: "keeps obs (pthen (close_after_setup_error (os_close os) fd e)
      (if c then tun_attempts k attempts os tun_path ip_path config else praise e))" for fd e c
    unfolding close_after_setup_error_def by (intro keeps_intros os Suc)
  have attempt: "keeps obs (\<lambda>s. case setup_tun os ip_path config h g b name fd s of
      (Inr actual_name, s') \<Rightarrow> (Inr \<lparr>tq_name = actual_name, tq_fd = Some fd\<rparr>, s')
    | (Inl (setup_error, name_collision), s') \<Rightarrow>
        pthen (close_after_setup_error (os_close os) fd setup_error)
          (if name_collision then tun_attempts k attempts os tun_path ip_path config
           else praise setup_error) s')" for h g b name fd
    using set_up [of h g b name fd] close [of fd]
    by (auto simp: keeps_def split: prod.splits sum.splits)
  have name: "keeps obs (case tc_name config of None \<Rightarrow> pbind (os_new_name os) (\<lambda>n. plift (validate_tun_name (PStr n)))
      | Some n \<Rightarrow> plift (validate_tun_name (PStr n)))"
    by (cases "tc_name config") (auto intro!: keeps_intros os)
  show ?case unfolding tun_attempts.simps by (intro keeps_pbind name keeps_plift os attempt)
qed (simp add: keeps_praise)

lemma create_tun_queue_steps:
  assumes "create_tun_queue os tun_path ip_path attempts config s = (r, s')"
  shows "(\<exists>e. r = Inl e \<and> s' = s) \<or> (\<exists>k n path. tun_attempts k n os tun_path path config s = (r, s'))"
  using assms
  by (auto simp: create_tun_queue_def praise_def Let_def simp del: tun_attempts.simps split: pyval.splits if_splits)

lemma create_tun_queue_world:
  assumes "fd_table os fds" "tun_keeps os tables" "create_tun_queue os tun_path ip_path attempts config w = (r, w')"
  shows "tables w' = tables w" "case r of Inl e \<Rightarrow> fds w' = fds w
    | Inr q \<Rightarrow> (\<exists>fd. tq_fd q = Some fd \<and> fd \<notin> fds w \<and> fds w' = insert fd (fds w))"
proof -
  consider (early) e where "r = Inl e" "w' = w" | (run) k n path where "tun_attempts k n os tun_path path config w = (r, w')"
    using create_tun_queue_steps [OF assms(3)] by blast
  then show "tables w' = tables w" "case r of Inl e \<Rightarrow> fds w' = fds w
      | Inr q \<Rightarrow> (\<exists>fd. tq_fd q = Some fd \<and> fd \<notin> fds w \<and> fds w' = insert fd (fds w))"
    using keepsD [OF keeps_tun_attempts [OF assms(2)]] tun_attempts_fds [OF assms(1)]
    by (cases; simp)+
qed

lemma on_world_Inl: "on_world m st = (Inl e, st') \<longleftrightarrow> (\<exists>w. m (hs_world st) = (Inl e, w) \<and> st' = st\<lparr>hs_world := w\<rparr>)"
  by (auto simp: on_world_def split: prod.splits)

lemma on_world_Inr: "on_world m st = (Inr x, st') \<longleftrightarrow> (\<exists>w. m (hs_world st) = (Inr x, w) \<and> st' = st\<lparr>hs_world := w\<rparr>)"
  by (auto simp: on_world_def split: prod.splits)

lemma on_world_frame: "on_world m st = (r, st') \<Longrightarrow> hs_tuns st' = hs_tuns st \<and> hs_leases st' = hs_leases st"
  by (auto simp: on_world_def split: prod.splits)

lemma no_rollback_env_ownership:
  assumes "\<And>p. no_rollback (he_reader env p)" "no_rollback (he_getpid env)"
  shows "no_rollback (env_ownership env name)"
proof -
  have p: "no_rollback (process_start_time root (he_reader env) pid)" for root pid
    unfolding process_start_time_def Let_def
    by (intro no_rollback_pbind assms) (auto split: option.split intro!: no_rollback_praise no_rollback_pret)
  have i: "no_rollback (plift (NftOwnership_init a b c))" for a b c
    by (rule no_rollback_plift)
      (auto simp: NftOwnership_init_def rbind_eq_Inl positive_field_def validate_tun_name_def Let_def
        split: pyval.splits if_splits)
  show ?thesis
    unfolding env_ownership_def current_nft_ownership_def by (intro no_rollback_pbind assms p i)
qed

lemma keeps_env_ownership:
  assumes "\<And>p. keeps obs (he_reader env p)" "keeps obs (he_getpid env)"
  shows "keeps obs (env_ownership env name)"
proof -
  have p: "keeps obs (process_start_time root (he_reader env) pid)" for root pid
    unfolding process_start_time_def Let_def
    by (intro keeps_pbind assms) (auto split: option.split intro!: keeps_intros)
  show ?thesis
    unfolding env_ownership_def current_nft_ownership_def by (intro keeps_pbind assms p keeps_plift)
qed

lemma env_ownership_valid: "env_ownership env name s = (Inr owner, s') \<Longrightarrow> valid_owner owner"
  by (auto simp: env_ownership_def current_nft_ownership_def pbind_eq_Inr plift_def dest: NftOwnership_init_valid)

lemma nft_install_world:
  assumes "host_promises os env (nb_transport nb) fds tables" "valid_dnat_config c" "plain_dnat_config c"
    "valid_owner owner" "nft_install env nb c owner w = (r, w')"
  shows "fds w' = fds w" "\<And>e. r = Inl e \<Longrightarrow> tables w' = tables w \<and> \<not> is_StartupRollbackError e"
    "\<And>l. r = Inr l \<Longrightarrow> \<exists>name. NFT_TABLE_NAME name
       \<and> l = NftDnatLease_init name (tr_command_name (nb_transport nb)) (tr_backend_id (nb_transport nb)) (table_family c)
       \<and> (table_family c, name) \<notin> tables w \<and> tables w' = insert (table_family c, name) (tables w)"
proof -
  let ?t = "nb_transport nb"
  have p: "nft_kernel (tr_run ?t) (tr_command_name ?t) tables"
    "\<And>argv i. keeps fds (tr_run ?t argv i)" "\<And>argv i. no_rollback (tr_run ?t argv i)"
    "\<And>n. keeps fds (he_random env n)" "\<And>n. keeps tables (he_random env n)" "\<And>n. no_rollback (he_random env n)"
    using assms(1) unfolding host_promises_def keeps_pair by blast+
  have kf: "keeps fds (env_table_name env)" and kt: "keeps tables (env_table_name env)"
    and nr: "no_rollback (env_table_name env)"
    unfolding env_table_name_def by (intro keeps_pbind keeps_pret no_rollback_pbind no_rollback_pret p)+
  let ?install = "install_nft_dnat c (tr_command_name ?t) (tr_run ?t) (env_table_name env) (Some owner) (tr_backend_id ?t)"
  have kn: "keeps fds (case dc_table_name c of None \<Rightarrow> env_table_name env | Some n \<Rightarrow> pret n)"
    "no_rollback (case dc_table_name c of None \<Rightarrow> env_table_name env | Some n \<Rightarrow> pret n)"
    using kf nr by (cases "dc_table_name c"; simp add: keeps_pret no_rollback_pret)+
  have v: "no_rollback (plift (validate_nft_table_name (PStr n)))" for n
    by (rule no_rollback_plift) (auto simp: validate_nft_table_name_def split: if_splits)
  have kf': "keeps fds ?install"
    unfolding install_nft_dnat_def by (intro keeps_if keeps_praise keeps_pbind kn keeps_plift keeps_pthen p keeps_pret)
  have nr': "no_rollback ?install"
    unfolding install_nft_dnat_def
    by (rule no_rollback_if, rule no_rollback_praise, simp)
      (intro no_rollback_pbind kn v no_rollback_pthen p no_rollback_pret)
  consider (family) m where "r = Inl (ValueError m)" "w' = w" | (run) "?install w = (r, w')"
    using assms(5) unfolding nft_install_def praise_def by (cases "table_family c = nb_table_family nb") auto
  note steps = this
  note tables = install_nft_dnat_tables [OF p(1) assms(2-4) kt, of _ w r w']
  show "fds w' = fds w" using keepsD [OF kf'] by (cases rule: steps) simp_all
  show "tables w' = tables w \<and> \<not> is_StartupRollbackError e" if "r = Inl e" for e
  proof (cases rule: steps)
    case run
    then have "\<not> is_StartupRollbackError e" using nr' that unfolding no_rollback_def by blast
    with tables [OF run] that show ?thesis by simp
  qed (use that in simp)
  show "\<exists>name. NFT_TABLE_NAME name
       \<and> l = NftDnatLease_init name (tr_command_name ?t) (tr_backend_id ?t) (table_family c)
       \<and> (table_family c, name) \<notin> tables w \<and> tables w' = insert (table_family c, name) (tables w)"
    if "r = Inr l" for l
  proof (cases rule: steps)
    case run
    from tables [OF run] that obtain name where "NFT_TABLE_NAME name"
        "l = NftDnatLease_init name (tr_command_name ?t) (tr_backend_id ?t) (table_family c)"
        "(table_family c, name) \<notin> tables w" "tables w' = insert (table_family c, name) (tables w)" by auto
    then show ?thesis by blast
  qed (use that in simp)
qed

definition tun_store_held :: "'s tun_os \<Rightarrow> 's host_store tun_handle \<Rightarrow> int \<Rightarrow> 's host_store \<Rightarrow> bool" where
  "tun_store_held os h fd st \<longleftrightarrow>
     (\<exists>i name. h = tun_object (os_close os) i name \<and> i < length (hs_tuns st) \<and> tq_fd (hs_tuns st ! i) = Some fd)"

definition dnat_store_held ::
  "'s nft_transport \<Rightarrow> 's host_store dnat_handle \<Rightarrow> string \<times> string \<Rightarrow> 's host_store \<Rightarrow> bool" where
  "dnat_store_held t h k st \<longleftrightarrow>
     table_key k
     \<and> (\<exists>i kind. h = dnat_object i kind (snd k) \<and> i < length (hs_leases st)
        \<and> hs_leases st ! i = NftLease (tr_run t) (NftDnatLease_init (snd k) (tr_command_name t) kind (fst k)))"

lemma tun_store_held_frame: "hs_tuns st' = hs_tuns st \<Longrightarrow> tun_store_held os h x st \<Longrightarrow> tun_store_held os h x st'"
  by (simp add: tun_store_held_def)

lemma tun_object_close:
  assumes "fd_table os fds" "tun_keeps os tables" "tun_store_held os h x st" "th_close h st = (u, st')"
  shows "fds (hs_world st') = fds (hs_world st) - {x} \<and> tables (hs_world st') = tables (hs_world st)"
proof -
  obtain i name where h: "h = tun_object (os_close os) i name" "tq_fd (hs_tuns st ! i) = Some x"
    using assms(3) unfolding tun_store_held_def by blast
  obtain r w where c: "os_close os x (hs_world st) = (r, w)" by (cases "os_close os x (hs_world st)")
  have "hs_world st' = w" using assms(4) by (auto simp: h tun_object_def TunQueue_close_def c)
  moreover have k: "keeps tables (os_close os x)" using assms(2) unfolding tun_keeps_def by blast
  ultimately show ?thesis using fd_tableD(6) [OF assms(1) c] keepsD [OF k c] by simp
qed

lemma dnat_object_close:
  assumes "nft_kernel (tr_run t) (tr_command_name t) tables" "\<And>argv i. keeps fds (tr_run t argv i)"
    "dnat_store_held t h k st" "dh_close h st = (u, st')"
  shows "hs_tuns st' = hs_tuns st \<and> fds (hs_world st') = fds (hs_world st)
     \<and> tables (hs_world st') = (if u = Inr () then tables (hs_world st) - {k} else tables (hs_world st))"
proof -
  have key: "table_key (fst k, snd k)" using assms(3) unfolding dnat_store_held_def by simp
  obtain i kind where h: "h = dnat_object i kind (snd k)"
      "hs_leases st ! i = NftLease (tr_run t) (NftDnatLease_init (snd k) (tr_command_name t) kind (fst k))"
    using assms(3) unfolding dnat_store_held_def by blast
  let ?l = "NftDnatLease_init (snd k) (tr_command_name t) kind (fst k)"
  obtain r l w where c: "NftDnatLease_close (tr_run t) ?l (hs_world st) = (r, l, w)"
    by (cases "NftDnatLease_close (tr_run t) ?l (hs_world st)") auto
  have s: "hs_world st' = w" "u = r" "hs_tuns st' = hs_tuns st"
    using assms(4) by (auto simp: h dnat_object_def c)
  have "fds w = fds (hs_world st)" using c keepsD [OF assms(2)] unfolding NftDnatLease_close_init by blast
  with nft_close_tables [OF assms(1) key c] s show ?thesis by simp
qed

lemma default_tun_acquirer_Inl:
  "default_tun_acquirer os c st = (Inl e, st') \<longleftrightarrow>
     (\<exists>w. create_tun_queue os ''/dev/net/tun'' (PStr ''ip'') (PInt DEFAULT_NAME_ATTEMPTS) c (hs_world st) = (Inl e, w)
        \<and> st' = st\<lparr>hs_world := w\<rparr>)"
  by (auto simp: default_tun_acquirer_def pbind_eq_Inl on_world_Inl new_tun_def)

lemma default_tun_acquirer_Inr:
  "default_tun_acquirer os c st = (Inr h, st') \<longleftrightarrow>
     (\<exists>w q. create_tun_queue os ''/dev/net/tun'' (PStr ''ip'') (PInt DEFAULT_NAME_ATTEMPTS) c (hs_world st) = (Inr q, w)
        \<and> h = tun_object (os_close os) (length (hs_tuns st)) (tq_name q)
        \<and> st' = st\<lparr>hs_world := w, hs_tuns := hs_tuns st @ [q]\<rparr>)"
  by (auto simp: default_tun_acquirer_def pbind_eq_Inr on_world_Inr new_tun_def)

lemma nft_object_install_Inl:
  "fo_install (backend_object env (NftBackend nb)) c owner st = (Inl e, st') \<longleftrightarrow>
     (\<exists>w. nft_install env nb c owner (hs_world st) = (Inl e, w) \<and> st' = st\<lparr>hs_world := w\<rparr>)"
  by (auto simp: backend_object_def backend_install_def pbind_eq_Inl pbind_eq_Inr on_world_Inl on_world_Inr new_dnat_def pret_def)

lemma nft_object_install_Inr:
  "fo_install (backend_object env (NftBackend nb)) c owner st = (Inr h, st') \<longleftrightarrow>
     (\<exists>w l. nft_install env nb c owner (hs_world st) = (Inr l, w)
        \<and> h = dnat_object (length (hs_leases st)) (nl_backend_id l) (nl_table_name l)
        \<and> st' = st\<lparr>hs_world := w, hs_leases := hs_leases st @ [NftLease (tr_run (nb_transport nb)) l]\<rparr>)"
  by (auto simp: backend_object_def backend_install_def pbind_eq_Inr on_world_Inr new_dnat_def pret_def)

lemma host_promisesD:
  assumes "host_promises os env t fds tables"
  shows "fd_table os fds" "tun_keeps os tables" "nft_kernel (tr_run t) (tr_command_name t) tables"
    "\<And>argv i. keeps fds (tr_run t argv i)" "\<And>argv. keeps (\<lambda>w. (fds w, tables w)) (tr_read t argv)"
    "\<And>p. keeps (\<lambda>w. (fds w, tables w)) (he_reader env p)" "\<And>p. no_rollback (he_reader env p)"
    "keeps (\<lambda>w. (fds w, tables w)) (he_getpid env)" "no_rollback (he_getpid env)"
    "\<And>n. keeps (\<lambda>w. (fds w, tables w)) (he_random env n)"
  using assms unfolding host_promises_def by blast+

interpretation nft_resources: host_resources
  "host_promises os env (nb_transport nb) fds tables"
  "\<lambda>st. fds (hs_world st)" "\<lambda>st. tables (hs_world st)"
  "default_tun_acquirer os" "\<lambda>name. on_world (env_ownership env name)"
  "fo_install (backend_object env (NftBackend nb))"
  "tun_store_held os" "dnat_store_held (nb_transport nb)"
  "\<lambda>d. valid_dnat_config d \<and> plain_dnat_config d"
  for os :: "'s tun_os" and env nb fds tables
proof (unfold_locales, goal_cases)
  case (1 c st e st')
  then show ?case
    using create_tun_queue_world [OF host_promisesD(1,2) [OF 1(1)]] by (fastforce simp: default_tun_acquirer_Inl)
next
  case (2 c st h st')
  then obtain w q where q:
      "create_tun_queue os ''/dev/net/tun'' (PStr ''ip'') (PInt DEFAULT_NAME_ATTEMPTS) c (hs_world st) = (Inr q, w)"
      "h = tun_object (os_close os) (length (hs_tuns st)) (tq_name q)"
      "st' = st\<lparr>hs_world := w, hs_tuns := hs_tuns st @ [q]\<rparr>"
    unfolding default_tun_acquirer_Inr by blast
  obtain fd where fd: "tables w = tables (hs_world st)" "tq_fd q = Some fd" "fd \<notin> fds (hs_world st)"
      "fds w = insert fd (fds (hs_world st))"
    using create_tun_queue_world [OF host_promisesD(1,2) [OF 2(1)] q(1)] by auto
  have "tun_store_held os h fd st'"
    unfolding tun_store_held_def
    by (rule exI [of _ "length (hs_tuns st)"], rule exI [of _ "tq_name q"]) (simp add: q(2,3) fd(2))
  with fd q(3) show ?case by auto
next
  case (3 h x st u st')
  then show ?case using tun_object_close [OF host_promisesD(1,2) [OF 3(1)] 3(2,3)] by blast
next
  case (4 name st r st' h x)
  have k: "keeps (\<lambda>w. (fds w, tables w)) (env_ownership env name)"
    by (intro keeps_env_ownership host_promisesD [OF 4(1)])
  have "fds (hs_world st') = fds (hs_world st) \<and> tables (hs_world st') = tables (hs_world st)"
    using 4(2) keepsD [OF k] by (auto simp: on_world_def split: prod.splits)
  with on_world_frame [OF 4(2)] tun_store_held_frame show ?case by blast
next
  case (5 name st e st')
  then show ?case
    using no_rollback_env_ownership [OF host_promisesD(7,9) [OF 5(1)]] unfolding on_world_Inl no_rollback_def by blast
next
  case (6 name st owner st')
  then show ?case by (auto simp: on_world_Inr dest: env_ownership_valid)
next
  case (7 d owner st r st' h x)
  have "fds (hs_world st') = fds (hs_world st) \<and> hs_tuns st' = hs_tuns st"
  proof (cases r)
    case (Inl e)
    then obtain w where i: "nft_install env nb d owner (hs_world st) = (Inl e, w)" "st' = st\<lparr>hs_world := w\<rparr>"
      using 7(4) unfolding Inl nft_object_install_Inl by blast
    then show ?thesis using nft_install_world(1) [OF 7(1) 7(2) [THEN conjunct1] 7(2) [THEN conjunct2] 7(3) i(1)] i(2) by simp
  next
    case (Inr l)
    then obtain w l' where i: "nft_install env nb d owner (hs_world st) = (Inr l', w)"
        "st' = st\<lparr>hs_world := w, hs_leases := hs_leases st @ [NftLease (tr_run (nb_transport nb)) l']\<rparr>"
      using 7(4) unfolding Inr nft_object_install_Inr by blast
    then show ?thesis using nft_install_world(1) [OF 7(1) 7(2) [THEN conjunct1] 7(2) [THEN conjunct2] 7(3) i(1)] i(2) by simp
  qed
  with tun_store_held_frame show ?case by blast
next
  case (8 d owner st e st')
  then obtain w where i: "nft_install env nb d owner (hs_world st) = (Inl e, w)" "st' = st\<lparr>hs_world := w\<rparr>"
    unfolding nft_object_install_Inl by blast
  then show ?case using nft_install_world(2) [OF 8(1) 8(2) [THEN conjunct1] 8(2) [THEN conjunct2] 8(3) i(1)] i(2) by simp
next
  case (9 d owner st h st')
  then obtain w l where l: "nft_install env nb d owner (hs_world st) = (Inr l, w)"
      "h = dnat_object (length (hs_leases st)) (nl_backend_id l) (nl_table_name l)"
      "st' = st\<lparr>hs_world := w, hs_leases := hs_leases st @ [NftLease (tr_run (nb_transport nb)) l]\<rparr>"
    unfolding nft_object_install_Inr by blast
  obtain name where n: "NFT_TABLE_NAME name"
      "l = NftDnatLease_init name (tr_command_name (nb_transport nb)) (tr_backend_id (nb_transport nb)) (table_family d)"
      "(table_family d, name) \<notin> tables (hs_world st)" "tables w = insert (table_family d, name) (tables (hs_world st))"
    using nft_install_world(3) [OF 9(1) 9(2) [THEN conjunct1] 9(2) [THEN conjunct2] 9(3) l(1)] by blast
  have "dnat_store_held (nb_transport nb) h (table_family d, name) st'"
    unfolding dnat_store_held_def
    by (rule conjI, rule table_key_config [OF n(1)], rule exI [of _ "length (hs_leases st)"], rule exI [of _ "nl_backend_id l"])
      (simp add: l(2,3) n(2) NftDnatLease_init_def)
  with n l(2,3) show ?case by (auto simp: dnat_object_def NftDnatLease_init_def)
next
  case (10 l y st u st' h x)
  then show ?case
    using dnat_object_close [OF host_promisesD(3,4) [OF 10(1)] 10(2,3)] tun_store_held_frame by blast
qed

lemma keeps_on_world:
  assumes "keeps (\<lambda>w. (fds w, tables w)) m"
  shows "keeps (\<lambda>st. (fds (hs_world st), tables (hs_world st))) (on_world m)"
proof (rule keepsI)
  fix st r st' assume "on_world m st = (r, st')"
  then obtain w where "m (hs_world st) = (r, w)" "st' = st\<lparr>hs_world := w\<rparr>"
    by (auto simp: on_world_def split: prod.splits)
  then show "(fds (hs_world st'), tables (hs_world st')) = (fds (hs_world st), tables (hs_world st))"
    using keepsD [OF assms] by simp
qed

lemma keeps_process_start_time:
  "(\<And>p. keeps obs (reader p)) \<Longrightarrow> keeps obs (process_start_time proc reader pid)"
  unfolding process_start_time_def Let_def
  by (intro keeps_pbind) (auto split: option.split intro!: keeps_intros)

lemma keeps_observe_rule:
  assumes "\<And>p. keeps obs (reader p)"
  shows "keeps obs (observe_rule family proc reader table comment)"
proof -
  have "keeps obs (owner_status proc reader a b)" for a b
    unfolding owner_status_def by (intro keeps_intros keeps_process_start_time assms)
  then show ?thesis
    unfolding observe_rule_def Let_def
    by (auto split: option.split prod.split intro!: keeps_intros)
qed

lemma keeps_observe_entries:
  assumes "\<And>p. keeps obs (reader p)"
  shows "keeps obs (observe_entries family proc reader entries)"
proof (induction entries)
  case (Cons entry entries)
  then show ?case
    by (auto split: option.split intro!: keeps_intros keeps_observe_rule assms)
qed (simp add: keeps_pret)

lemma keeps_nft_inspect:
  assumes "host_promises os env (nb_transport nb) fds tables"
  shows "keeps (\<lambda>w. (fds w, tables w)) (nft_inspect_ownership env nb)"
  unfolding nft_inspect_ownership_def inspect_nft_ownership_def
  by (intro keeps_if keeps_praise keeps_pbind keeps_plift keeps_pret keeps_observe_entries host_promisesD [OF assms])

lemma keeps_nft_check:
  assumes "host_promises os env (nb_transport nb) fds tables"
  shows "keeps (\<lambda>w. (fds w, tables w)) (nft_check_compatibility env nb d)"
proof -
  note p = host_promisesD [OF assms]
  have "keeps (\<lambda>w. (fds w, tables w)) (tr_run (nb_transport nb)
      [tr_command_name (nb_transport nb), ''--check'', ''--file'', ''-''] (Some batch))" for batch
    unfolding keeps_pair using p(4) nft_kernelD(3) [OF p(3)] by blast
  moreover have "keeps obs (case e of CalledProcessError code err t \<Rightarrow> praise (NftCompatibilityError e) | _ \<Rightarrow> praise e)"
    for obs :: "'a \<Rightarrow> int set \<times> (string \<times> string) set" and e
    by (cases e) (simp_all add: keeps_praise)
  ultimately show ?thesis
    unfolding nft_check_compatibility_def check_nft_dnat_compatibility_def env_table_name_def
    by (intro keeps_if keeps_praise keeps_pbind keeps_plift keeps_pret keeps_phandle keeps_env_ownership p)
qed

lemma acquired_or_restored:
  assumes "host_promises os env (nb_transport nb) fds tables"
    "valid_dnat_config (hc_dnat config)" "plain_dnat_config (hc_dnat config)"
    "\<And>cc. keeps (\<lambda>st. (fds (hs_world st), tables (hs_world st))) (collect cc)"
    "acquire_host_network config fallback create (Some (backend_object env (NftBackend nb))) (Some collect) None None
       (default_tun_acquirer os) None (\<lambda>name. on_world (env_ownership env name)) (pret OwnershipJournal) st = (r, st')"
  shows "(\<exists>e. r = Inl e \<and> fds (hs_world st') = fds (hs_world st) \<and> tables (hs_world st') = tables (hs_world st)) \<or>
    (\<exists>l fd k. r = Inr l \<and> fd \<notin> fds (hs_world st) \<and> fds (hs_world st') = insert fd (fds (hs_world st))
       \<and> k \<notin> tables (hs_world st) \<and> tables (hs_world st') = insert k (tables (hs_world st))
       \<and> (\<forall>st2 r2 l2 st3. hs_tuns st2 = hs_tuns st' \<and> hs_leases st2 = hs_leases st'
            \<and> HostNetworkLease_close l st2 = (r2, l2, st3) \<longrightarrow>
            fds (hs_world st3) = fds (hs_world st2) - {fd}
            \<and> (r2 = Inr () \<longrightarrow> tables (hs_world st3) = tables (hs_world st2) - {k}))
       \<and> (\<forall>st2. snd (HostNetworkLease_tun_fd l st2) = st2))"
proof -
  let ?b = "backend_object env (NftBackend nb)"
  let ?with = "acquire_with config collect (fo_inspect ?b) (fo_check ?b) (default_tun_acquirer os)
    (\<lambda>name. on_world (env_ownership env name)) (fo_install ?b) (pret OwnershipJournal)"
  consider (refused) e where "r = Inl e" "st' = st" | (run) "?with st = (r, st')"
    using assms(5) by (cases "fo_backend_id ?b = hc_firewall_backend config")
      (auto simp: acquire_host_network_def choose_firewall_def plift_def pbind_def praise_def)
  then show ?thesis
  proof cases
    case run
    have k: "keeps (\<lambda>st. (fds (hs_world st), tables (hs_world st))) (fo_inspect ?b)"
      "keeps (\<lambda>st. (fds (hs_world st), tables (hs_world st))) (fo_check ?b d)" for d
      by (simp_all add: backend_object_def backend_inspect_def backend_check_def keeps_on_world
          keeps_nft_inspect [OF assms(1)] keeps_nft_check [OF assms(1)])
    from nft_resources.acquire_with_all_or_nothing [OF assms(1) _ assms(4) k run] assms(2,3)
    consider "\<exists>e. r = Inl e \<and> fds (hs_world st') = fds (hs_world st) \<and> tables (hs_world st') = tables (hs_world st)"
      | (ok) l fd k tlabel dlabel where "r = Inr l" "fd \<notin> fds (hs_world st)" "fds (hs_world st') = insert fd (fds (hs_world st))"
        "tun_store_held os (hl_tun l) fd st'" "k \<notin> tables (hs_world st)" "tables (hs_world st') = insert k (tables (hs_world st))"
        "dnat_store_held (nb_transport nb) (hl_dnat l) k st'"
        "hl_journal l = \<lparr>j_entries = [(tlabel, th_close (hl_tun l)), (dlabel, dh_close (hl_dnat l))], j_closed = False\<rparr>"
      by blast
    then show ?thesis
    proof cases
      case ok
      have "fds (hs_world st3) = fds (hs_world st2) - {fd} \<and> (r2 = Inr () \<longrightarrow> tables (hs_world st3) = tables (hs_world st2) - {k})"
        if "hs_tuns st2 = hs_tuns st'" "hs_leases st2 = hs_leases st'" "HostNetworkLease_close l st2 = (r2, l2, st3)"
        for st2 r2 l2 st3
      proof -
        have "tun_store_held os (hl_tun l) fd st2" "dnat_store_held (nb_transport nb) (hl_dnat l) k st2"
          using ok(4,7) that(1,2) by (simp_all add: tun_store_held_def dnat_store_held_def)
        from nft_resources.close_gives_back [OF assms(1) this ok(8) that(3)] show ?thesis .
      qed
      moreover have "snd (HostNetworkLease_tun_fd l st2) = st2" for st2
        using ok(4) by (auto simp: tun_store_held_def tun_object_def HostNetworkLease_tun_fd_def)
      ultimately show ?thesis using ok by blast
    qed blast
  qed simp
qed

text \<open>
  C2: the host-network transaction is all or nothing on the real resources.  With the TUN queue
  and the nftables backend as the source wires them, an error at any point, from the preflight to
  the firewall rule, leaves the open descriptors and the tables of the host as they were.  A
  returned lease holds exactly one new descriptor and one new table, and closing it later, with
  whatever happened to the host in between, gives the descriptor back even where the deletion of
  the table fails, and the table too where it does not.
\<close>

theorem host_network_all_or_nothing:
  assumes "host_promises os env (nb_transport nb) fds tables"
    "valid_dnat_config (hc_dnat config)" "plain_dnat_config (hc_dnat config)"
    "\<And>cc. keeps (\<lambda>st. (fds (hs_world st), tables (hs_world st))) (collect cc)"
    "acquire_host_network config fallback create (Some (backend_object env (NftBackend nb))) (Some collect) None None
       (default_tun_acquirer os) None (\<lambda>name. on_world (env_ownership env name)) (pret OwnershipJournal) st = (r, st')"
  shows "(\<exists>e. r = Inl e \<and> fds (hs_world st') = fds (hs_world st) \<and> tables (hs_world st') = tables (hs_world st)) \<or>
    (\<exists>l fd k. r = Inr l \<and> fd \<notin> fds (hs_world st) \<and> fds (hs_world st') = insert fd (fds (hs_world st))
       \<and> k \<notin> tables (hs_world st) \<and> tables (hs_world st') = insert k (tables (hs_world st))
       \<and> (\<forall>st2 r2 l2 st3. hs_tuns st2 = hs_tuns st' \<and> hs_leases st2 = hs_leases st'
            \<and> HostNetworkLease_close l st2 = (r2, l2, st3) \<longrightarrow>
            fds (hs_world st3) = fds (hs_world st2) - {fd}
            \<and> (r2 = Inr () \<longrightarrow> tables (hs_world st3) = tables (hs_world st2) - {k})))"
  using acquired_or_restored [OF assms] by blast

text \<open>
  A host that keeps its open descriptors and its tables as its state and refuses nothing; the
  state may have further fields.
\<close>

record small_world =
  w_fds :: "int list"
  w_tables :: "(string \<times> string) set"

definition world_os :: "'k small_world_scheme tun_os" where
  "world_os = \<lparr>
     os_open = (\<lambda>p f w. (Inr (foldr max (w_fds w) 0 + 1), w\<lparr>w_fds := (foldr max (w_fds w) 0 + 1) # w_fds w\<rparr>)),
     os_ioctl = (\<lambda>fd req b. pret b),
     os_close = (\<lambda>fd w. (Inr (), w\<lparr>w_fds := filter (\<lambda>x. x \<noteq> fd) (w_fds w)\<rparr>)),
     os_run = (\<lambda>argv. pret ()), os_new_name = pret ''tcpcc0''\<rparr>"

definition world_env :: "'k small_world_scheme host_env" where
  "world_env = \<lparr>he_reader = (\<lambda>_. pret (''7 (x) '' @ join '' '' (replicate 20 ''5''))), he_getpid = pret 7,
     he_random = (\<lambda>n. pret [])\<rparr>"

definition world_nft :: "'k small_world_scheme nft_transport" where
  "world_nft = \<lparr>tr_backend_id = ''nft-exec'', tr_command_name = ''nft'',
     tr_run = (\<lambda>argv input w. case table_host argv input (w_tables w) of (r, t) \<Rightarrow> (r, w\<lparr>w_tables := t\<rparr>)),
     tr_read = (\<lambda>argv. pret (dumps (JObj [(''nftables'', JList [])])))\<rparr>"

definition world_backend :: "'k small_world_scheme nft_backend" where
  "world_backend = \<lparr>nb_transport = world_nft, nb_table_family = ''ip''\<rparr>"

definition world_config :: HostNetworkConfig where
  "world_config = \<lparr>hc_requested_cc = ''bbr'', hc_tun = sample_tun None, hc_dnat = sample_dnat,
     hc_firewall_backend = ''nft-exec''\<rparr>"

lemma world_fd_table: "fd_table world_os (\<lambda>w. set (w_fds w))"
  using foldr_max_fresh by (auto simp: fd_table_def world_os_def pret_def)

lemma world_nft_kernel: "nft_kernel (tr_run world_nft) ''nft'' w_tables"
proof -
  have r: "tr_run world_nft argv input w = (r, w') \<longleftrightarrow> (\<exists>t. table_host argv input (w_tables w) = (r, t) \<and> w' = w\<lparr>w_tables := t\<rparr>)"
    for argv input w r w' by (auto simp: world_nft_def split: prod.splits)
  note k = nft_kernelD [OF table_host_kernel]
  have "keeps w_tables (tr_run world_nft [''nft'', ''--check'', ''--file'', ''-''] (Some batch))" for batch
    by (rule keepsI) (auto simp: r dest: keepsD [OF k(3)])
  then show ?thesis
    unfolding nft_kernel_def r
    by (intro conjI allI impI) (auto dest: k(1,2,4,5))
qed

lemma no_rollback_table_host: "no_rollback (table_host argv input)"
  by (auto simp: no_rollback_def table_host_def Let_def split: option.splits if_splits)

lemma world_promises: "host_promises (world_os :: 'k small_world_scheme tun_os) world_env world_nft (\<lambda>w. set (w_fds w)) w_tables"
proof -
  have "tun_keeps (world_os :: 'k small_world_scheme tun_os) w_tables" by (auto simp: tun_keeps_def world_os_def keeps_def pret_def)
  moreover have "keeps (\<lambda>w. set (w_fds w)) (tr_run (world_nft :: 'k small_world_scheme nft_transport) argv input)" for argv input
    by (auto simp: keeps_def world_nft_def split: prod.splits)
  moreover have "no_rollback (tr_run (world_nft :: 'k small_world_scheme nft_transport) argv input)" for argv input
    using no_rollback_table_host by (fastforce simp: no_rollback_def world_nft_def split: prod.splits)
  moreover have "tr_command_name (world_nft :: 'k small_world_scheme nft_transport) = ''nft''" by (simp add: world_nft_def)
  ultimately show ?thesis
    unfolding host_promises_def
    by (simp add: world_fd_table world_nft_kernel)
      (simp add: world_nft_def world_env_def keeps_pret no_rollback_pret)
qed

lemma world_owner: "env_ownership world_env ''tcpcc0'' (w :: 'k :: equal small_world_scheme) = (Inr \<lparr>ow_pid = 7, ow_start_time = 5, ow_tun_name = ''tcpcc0''\<rparr>, w)"
  "env_ownership world_env ''tcpcc-probe'' (w :: 'k :: equal small_world_scheme) = (Inr \<lparr>ow_pid = 7, ow_start_time = 5, ow_tun_name = ''tcpcc-probe''\<rparr>, w)"
  by code_simp+

lemma world_inspect: "nft_inspect_ownership world_env world_backend w = (Inr (NftOwnershipReport []), w)"
proof -
  have l: "ruleset_entries (dumps (JObj [(''nftables'', JList [])])) = Inr []"
    using loads_dumps [of "JObj [(''nftables'', JList [])]"]
    unfolding ruleset_entries_def by (simp add: jget_def del: dumps.simps)
  have x: "is_executable_name (PStr ''nft'')" by code_simp
  show ?thesis
    by (simp add: nft_inspect_ownership_def inspect_nft_ownership_def world_backend_def world_nft_def x l
        pbind_def pret_def plift_def del: dumps.simps)
qed

lemma world_table_name: "env_table_name world_env (w :: 'k :: equal small_world_scheme) = (Inr ''tcpcc_'', w)"
  "validate_nft_table_name (PStr ''tcpcc_'') = Inr ''tcpcc_''"
  by (code_simp, code_simp)

text \<open>A configuration of the small world: an IPv4 rule and a TUN device whose names are generated.\<close>

definition world_suits :: "HostNetworkConfig \<Rightarrow> bool" where
  "world_suits config \<longleftrightarrow>
     hc_tun config = sample_tun None \<and> hc_firewall_backend config = ''nft-exec'' \<and> valid_dnat_config (hc_dnat config)
     \<and> plain_dnat_config (hc_dnat config) \<and> table_family (hc_dnat config) = ''ip'' \<and> dc_table_name (hc_dnat config) = None"

lemma world_check:
  assumes "world_suits config"
  shows "nft_check_compatibility world_env world_backend (hc_dnat config) (w :: 'k :: equal small_world_scheme) = (Inr (), w)"
proof -
  have x: "is_executable_name (PStr ''nft'')" by code_simp
  have f: "table_family (hc_dnat config) = ''ip''" using assms by (simp add: world_suits_def)
  show ?thesis
    by (simp add: nft_check_compatibility_def check_nft_dnat_compatibility_def world_backend_def world_nft_def
        f x pbind_def plift_def world_owner world_table_name phandle_def table_host_def)
qed

lemma world_tun:
  "create_tun_queue world_os ''/dev/net/tun'' (PStr ''ip'') (PInt DEFAULT_NAME_ATTEMPTS) (sample_tun None) w =
     (Inr \<lparr>tq_name = ''tcpcc0'', tq_fd = Some (foldr max (w_fds w) 0 + 1)\<rparr>, w\<lparr>w_fds := (foldr max (w_fds w) 0 + 1) # w_fds w\<rparr>)"
proof -
  have n: "tc_name (sample_tun None) = None" by (simp add: sample_tun_def)
  have t: "TUN_NAME ''tcpcc0''" by code_simp
  have u: "Suc 7 = 8" by simp
  note step = tun_attempts.simps(2) [of 7, unfolded u]
  show ?thesis
    by (simp add: create_tun_queue_def DEFAULT_NAME_ATTEMPTS_def n step
        parse_sample pbind_def plift_def pthen_def tcpcc0_valid world_os_def setup_tun_def tag_def
        attached_name_ifreq [OF t] configure_interface_def pret_def)
qed

lemma world_install:
  assumes "world_suits config" "valid_owner owner" "w_tables (w :: 'k :: equal small_world_scheme) = {}"
  shows "nft_install world_env world_backend (hc_dnat config) owner w =
     (Inr (NftDnatLease_init ''tcpcc_'' ''nft'' ''nft-exec'' ''ip''), w\<lparr>w_tables := {(''ip'', ''tcpcc_'')}\<rparr>)"
proof -
  let ?d = "hc_dnat config"
  have x: "is_executable_name (PStr ''nft'')" by code_simp
  have n: "NFT_TABLE_NAME ''tcpcc_''" by code_simp
  have d: "valid_dnat_config ?d" "plain_dnat_config ?d" "table_family ?d = ''ip''" "dc_table_name ?d = None"
    using assms(1) by (simp_all add: world_suits_def)
  have b: "batch_table (dnat_batch ?d ''tcpcc_'' (Some owner)) = Some (''ip'', ''tcpcc_'')"
    using batch_table_dnat_batch [OF d(1,2) n, of "Some owner"] assms(2) d(3) by simp
  show ?thesis
    by (simp add: nft_install_def install_nft_dnat_def world_backend_def world_nft_def d(3,4) x
        pbind_def plift_def pthen_def pret_def world_table_name table_host_def b assms(3))
qed

lemma world_delete:
  assumes "(''ip'', ''tcpcc_'') \<in> w_tables w"
  shows "tr_run (nb_transport world_backend) [''nft'', ''delete'', ''table'', ''ip'', ''tcpcc_''] None w =
     (Inr (), w\<lparr>w_tables := w_tables w - {(''ip'', ''tcpcc_'')}\<rparr>)"
  using assms by (simp add: world_backend_def world_nft_def table_host_def Let_def)

text \<open>An acquisition in the small world, and what the lease then does.\<close>

abbreviation world_collect :: "string \<Rightarrow> ('s, PreflightReport) py" where
  "world_collect \<equiv> \<lambda>cc. pret \<lparr>pr_requested_cc = cc, pr_checks = []\<rparr>"

lemma world_acquire:
  fixes w :: "'k :: equal small_world_scheme"
  assumes c: "world_suits config" and w: "w_tables w = {}"
  defines "fd \<equiv> foldr max (w_fds w) 0 + 1"
  shows "\<exists>l st'. acquire_host_network config collect backend (Some (backend_object world_env (NftBackend world_backend)))
       (Some world_collect) None None (default_tun_acquirer world_os) None (\<lambda>name. on_world (env_ownership world_env name))
       (pret OwnershipJournal) \<lparr>hs_world = w, hs_tuns = [], hs_leases = []\<rparr> = (Inr l, st')
     \<and> hs_world st' = w\<lparr>w_fds := fd # w_fds w, w_tables := {(''ip'', ''tcpcc_'')}\<rparr>
     \<and> (\<forall>st2. hs_tuns st2 = hs_tuns st' \<longrightarrow> HostNetworkLease_tun_fd l st2 = (Inr fd, st2))
     \<and> (\<forall>st2. hs_tuns st2 = hs_tuns st' \<and> hs_leases st2 = hs_leases st' \<and> (''ip'', ''tcpcc_'') \<in> w_tables (hs_world st2)
          \<longrightarrow> fst (HostNetworkLease_close l st2) = Inr ())"
proof -
  have v: "valid_owner \<lparr>ow_pid = 7, ow_start_time = 5, ow_tun_name = ''tcpcc0''\<rparr>" by code_simp
  have i: "tr_backend_id (nb_transport world_backend) = ''nft-exec''" by (simp add: world_backend_def world_nft_def)
  have t: "hc_tun config = sample_tun None" "hc_firewall_backend config = ''nft-exec''" using c by (simp_all add: world_suits_def)
  show ?thesis
    by (simp add: acquire_host_network_def choose_firewall_def backend_object_def backend_id_def i t
        acquire_with_def pbind_def plift_def pret_def preflight_ok_def on_world_def backend_inspect_def world_inspect
        blocking_def pthen_def backend_check_def world_check [OF c] acquire_resources_def acquire_body_def phandle_def on_fst_def
        default_tun_acquirer_def world_tun new_tun_def tun_object_def register_resource_def txn_defer_def
        defer_callback_def OwnershipJournal_def world_owner backend_install_def world_install [OF c v] new_dnat_def
        dnat_object_def NftDnatLease_init_def w fd_def HostNetworkLease_tun_fd_def TunQueue_fd_def
        HostNetworkLease_close_def close_journal_def NftDnatLease_close_def TunQueue_close_def world_delete)
      (simp add: world_os_def)
qed

lemma world_config_suits: "world_suits world_config"
  using sample_valid sample_family by (simp add: world_suits_def world_config_def sample_dnat_def)

theorem host_network_all_or_nothing_witness:
  "\<exists>l st'. acquire_host_network world_config (\<lambda>_. praise KeyboardInterrupt) (Inl KeyboardInterrupt)
       (Some (backend_object world_env (NftBackend world_backend)))
       (Some (\<lambda>cc. pret \<lparr>pr_requested_cc = cc, pr_checks = []\<rparr>)) None None
       (default_tun_acquirer world_os) None (\<lambda>name. on_world (env_ownership world_env name))
       (pret OwnershipJournal) \<lparr>hs_world = \<lparr>w_fds = [3], w_tables = {}\<rparr>, hs_tuns = [], hs_leases = []\<rparr> = (Inr l, st')
     \<and> hs_world st' = \<lparr>w_fds = [4, 3], w_tables = {(''ip'', ''tcpcc_'')}\<rparr>
     \<and> (\<forall>r l2 st3. HostNetworkLease_close l st' = (r, l2, st3) \<longrightarrow> set (w_fds (hs_world st3)) = {3})"
proof -
  let ?w = "\<lparr>w_fds = [3], w_tables = {}\<rparr> :: small_world"
  let ?run = "acquire_host_network world_config (\<lambda>_. praise KeyboardInterrupt) (Inl KeyboardInterrupt)
       (Some (backend_object world_env (NftBackend world_backend)))
       (Some world_collect) None None
       (default_tun_acquirer world_os) None (\<lambda>name. on_world (env_ownership world_env name))
       (pret OwnershipJournal)"
  obtain l st' where r: "?run \<lparr>hs_world = ?w, hs_tuns = [], hs_leases = []\<rparr> = (Inr l, st')"
    "hs_world st' = \<lparr>w_fds = [4, 3], w_tables = {(''ip'', ''tcpcc_'')}\<rparr>"
    using world_acquire [OF world_config_suits, of ?w] by fastforce
  have k: "keeps (\<lambda>st. (set (w_fds (hs_world st)), w_tables (hs_world st)))
      (world_collect cc :: (small_world host_store, PreflightReport) py)" for cc
    by (rule keeps_pret)
  have c: "valid_dnat_config (hc_dnat world_config)" "plain_dnat_config (hc_dnat world_config)"
    using world_config_suits by (simp_all add: world_suits_def)
  have p: "host_promises world_os world_env (nb_transport world_backend) (\<lambda>w. set (w_fds w)) w_tables"
    using world_promises by (simp add: world_backend_def)
  from host_network_all_or_nothing [OF p c k r(1)] r show ?thesis by (auto simp: insert_Diff_if)
qed

end
