(* ===== verification/Signals.thy ===== *)
theory Signals
  imports Errors
begin

text \<open>
  The shutdown signals (\<^verbatim>\<open>ShutdownSignals\<close> of \<^verbatim>\<open>tools/tcpcc_host.py\<close>): installing the handlers
  for a run, putting the previous ones back, and the request that a handler records.

  \<^verbatim>\<open>signal.signal\<close> is an argument on the process's state; what is known of it is
  \<open>signal_table\<close>.  A handler of another part is an element of \<open>'h\<close>, and \<open>own\<close> is the one that the
  object installs, its method \<^verbatim>\<open>_handler\<close>.  A signal that arrives runs that method between two
  other steps, which is what the relation \<open>signals_run\<close> does.
\<close>

section \<open>The object\<close>

record 'h ShutdownSignals =
  ss_handled :: "int list"
  ss_event :: bool
  ss_requested_signal :: "int option"
  ss_previous :: "int \<rightharpoonup> 'h"
  ss_installed :: bool

definition ShutdownSignals_init :: "int list \<Rightarrow> exn + 'h ShutdownSignals" where
  "ShutdownSignals_init handled =
     (if handled = [] \<or> length (remdups handled) \<noteq> length handled
      then Inl (ValueError ''handled signals must be a non-empty unique tuple'')
      else Inr \<lparr>ss_handled = handled, ss_event = False, ss_requested_signal = None,
                ss_previous = Map.empty, ss_installed = False\<rparr>)"

definition requested :: "'h ShutdownSignals \<Rightarrow> bool" where
  "requested o1 = ss_event o1"

definition request :: "int \<Rightarrow> 'h ShutdownSignals \<Rightarrow> 'h ShutdownSignals" where
  "request signum o1 =
     (let o2 = (if ss_requested_signal o1 = None then o1\<lparr>ss_requested_signal := Some signum\<rparr> else o1)
      in o2\<lparr>ss_event := True\<rparr>)"

definition handler :: "int \<Rightarrow> 'h ShutdownSignals \<Rightarrow> 'h ShutdownSignals" where
  "handler signum o1 = request signum o1"

text \<open>\<open>self._event.wait(timeout)\<close>, with the signals that arrive while it waits.\<close>

definition ShutdownSignals_wait :: "int list \<Rightarrow> 'h ShutdownSignals \<Rightarrow> bool \<times> 'h ShutdownSignals" where
  "ShutdownSignals_wait arriving o1 =
     (let o2 = (if ss_event o1 then o1 else fold handler arriving o1) in (ss_event o2, o2))"

section \<open>Installing and restoring\<close>

type_synonym ('s, 'h) signal_call = "int \<Rightarrow> 'h \<Rightarrow> ('s, 'h) py"

text \<open>The loop of \<open>__enter__\<close>; what it installed so far goes with an error.\<close>

fun install_handlers ::
  "('s, 'h) signal_call \<Rightarrow> 'h \<Rightarrow> int list \<Rightarrow> int list \<Rightarrow> (exn \<times> int list, 's \<times> 'h ShutdownSignals, int list) pym" where
  "install_handlers sigset own [] installed t = (Inr installed, t)"
| "install_handlers sigset own (signum # rest) installed (s, o1) =
     (case sigset signum own s of
        (Inl e, s') \<Rightarrow> (Inl (e, installed), (s', o1))
      | (Inr h, s') \<Rightarrow>
          install_handlers sigset own rest (installed @ [signum])
            (s', o1\<lparr>ss_previous := (ss_previous o1)(signum \<mapsto> h)\<rparr>))"

fun reset_handlers :: "('s, 'h) signal_call \<Rightarrow> (int \<rightharpoonup> 'h) \<Rightarrow> int list \<Rightarrow> ('s, unit) py" where
  "reset_handlers sigset previous [] = pret ()"
| "reset_handlers sigset previous (signum # rest) =
     (case previous signum of
        None \<Rightarrow> praise (OtherError ''KeyError'' (str_int signum))
      | Some h \<Rightarrow> pthen (sigset signum h) (reset_handlers sigset previous rest))"

definition ShutdownSignals_enter :: "('s, 'h) signal_call \<Rightarrow> 'h \<Rightarrow> ('s \<times> 'h ShutdownSignals, unit) py" where
  "ShutdownSignals_enter sigset own t =
     (if ss_installed (snd t) then (Inl (RuntimeError ''shutdown signal handlers are already installed''), t)
      else case install_handlers sigset own (ss_handled (snd t)) [] t of
        (Inr _, (s, o1)) \<Rightarrow> (Inr (), (s, o1\<lparr>ss_installed := True\<rparr>))
      | (Inl (e, installed), (s, o1)) \<Rightarrow>
          (case reset_handlers sigset (ss_previous o1) (rev installed) s of
             (Inl e', s') \<Rightarrow> (Inl e', (s', o1))
           | (Inr _, s') \<Rightarrow> (Inl e, (s', o1\<lparr>ss_previous := Map.empty\<rparr>))))"

definition ShutdownSignals_restore :: "('s, 'h) signal_call \<Rightarrow> ('s \<times> 'h ShutdownSignals, unit) py" where
  "ShutdownSignals_restore sigset t =
     (if \<not> ss_installed (snd t) then (Inr (), t)
      else case reset_handlers sigset (ss_previous (snd t)) (rev (ss_handled (snd t))) (fst t) of
        (Inl e, s) \<Rightarrow> (Inl e, (s, snd t))
      | (Inr _, s) \<Rightarrow> (Inr (), (s, (snd t)\<lparr>ss_previous := Map.empty, ss_installed := False\<rparr>)))"

definition ShutdownSignals_exit :: "('s, 'h) signal_call \<Rightarrow> ('s \<times> 'h ShutdownSignals, unit) py" where
  "ShutdownSignals_exit sigset = ShutdownSignals_restore sigset"

section \<open>The table of handlers\<close>

text \<open>
  \<open>signal.signal\<close> returns the handler that was there and puts the new one in its place, or raises
  and changes nothing; it takes every handler that \<open>accepted\<close> says it takes.
\<close>

definition signal_table ::
  "('s, 'h) signal_call \<Rightarrow> ('s \<Rightarrow> int \<Rightarrow> 'h) \<Rightarrow> (int \<Rightarrow> 'h \<Rightarrow> bool) \<Rightarrow> bool" where
  "signal_table sigset tab accepted \<longleftrightarrow>
     (\<forall>n h s e s'. sigset n h s = (Inl e, s') \<longrightarrow> tab s' = tab s \<and> \<not> accepted n h)
     \<and> (\<forall>n h s p s'. sigset n h s = (Inr p, s') \<longrightarrow> p = tab s n \<and> tab s' = (tab s)(n := h))"

lemma signal_table_Inl:
  "signal_table sigset tab accepted \<Longrightarrow> sigset n h s = (Inl e, s') \<Longrightarrow> tab s' = tab s \<and> \<not> accepted n h"
  unfolding signal_table_def by blast

lemma signal_table_Inr:
  "signal_table sigset tab accepted \<Longrightarrow> sigset n h s = (Inr p, s') \<Longrightarrow> p = tab s n \<and> tab s' = (tab s)(n := h)"
  unfolding signal_table_def by blast

lemma reset_handlers_table:
  assumes "signal_table sigset tab accepted"
    "\<And>n. n \<in> set ns \<Longrightarrow> previous n = Some (old n) \<and> accepted n (old n)"
  shows "\<exists>s'. reset_handlers sigset previous ns s = (Inr (), s')
    \<and> tab s' = (\<lambda>n. if n \<in> set ns then old n else tab s n)"
  using assms(2)
proof (induction ns arbitrary: s)
  case (Cons n ns)
  obtain r s1 where r: "sigset n (old n) s = (r, s1)" by (cases "sigset n (old n) s")
  from Cons.prems [of n] r signal_table_Inl [OF assms(1)] obtain p where p: "r = Inr p"
    by (cases r) auto
  from signal_table_Inr [OF assms(1) r [unfolded p]] have t: "tab s1 = (tab s)(n := old n)" by simp
  from Cons.IH [of s1] Cons.prems obtain s' where
    "reset_handlers sigset previous ns s1 = (Inr (), s')"
    "tab s' = (\<lambda>n. if n \<in> set ns then old n else tab s1 n)" by auto
  with Cons.prems [of n] r p t show ?case by (auto simp: pthen_def pbind_def fun_eq_iff)
qed (simp add: pret_def)

text \<open>What the loop has done when it ends, early or not, in terms of the table it started from.\<close>

definition taken_over :: "'h \<Rightarrow> int list \<Rightarrow> (int \<Rightarrow> 'h) \<Rightarrow> int \<Rightarrow> 'h" where
  "taken_over own ns old n = (if n \<in> set ns then own else old n)"

definition recorded :: "int list \<Rightarrow> (int \<Rightarrow> 'h) \<Rightarrow> (int \<rightharpoonup> 'h) \<Rightarrow> bool" where
  "recorded ns old previous \<longleftrightarrow> (\<forall>n \<in> set ns. previous n = Some (old n))"

lemma install_handlers_result:
  assumes "signal_table sigset tab accepted" "install_handlers sigset own ns installed (s, o1) = (r, (s', o2))"
    "distinct (installed @ ns)" "tab s = taken_over own installed old" "recorded installed old (ss_previous o1)"
  shows "\<exists>done_list. tab s' = taken_over own done_list old \<and> recorded done_list old (ss_previous o2)
    \<and> set done_list \<subseteq> set (installed @ ns) \<and> o2 = o1\<lparr>ss_previous := ss_previous o2\<rparr>
    \<and> r = (if set done_list = set (installed @ ns) \<and> isl r = False then Inr done_list
           else Inl (fst (projl r), done_list))"
  using assms(2-5)
proof (induction ns arbitrary: installed s o1)
  case Nil
  then show ?case by (intro exI [of _ installed]) auto
next
  case (Cons n ns)
  obtain x s1 where x: "sigset n own s = (x, s1)" by (cases "sigset n own s")
  show ?case
  proof (cases x)
    case (Inl e)
    with x Cons.prems signal_table_Inl [OF assms(1), of n own s e s1] show ?thesis
      by (intro exI [of _ installed]) auto
  next
    case (Inr h)
    from signal_table_Inr [OF assms(1) x [unfolded Inr]] have h: "h = tab s n" "tab s1 = (tab s)(n := own)" by auto
    have fresh: "n \<notin> set installed" using Cons.prems(2) by simp
    let ?o = "o1\<lparr>ss_previous := (ss_previous o1)(n \<mapsto> h)\<rparr>"
    have step: "install_handlers sigset own ns (installed @ [n]) (s1, ?o) = (r, (s', o2))"
      using Cons.prems(1) x Inr by simp
    have "tab s1 = taken_over own (installed @ [n]) old" "recorded (installed @ [n]) old (ss_previous ?o)"
      using Cons.prems(3,4) h fresh by (auto simp: taken_over_def recorded_def fun_eq_iff)
    from Cons.IH [OF step _ this] Cons.prems(2) show ?thesis by auto
  qed
qed

lemma enter_cases:
  assumes "signal_table sigset tab accepted" "ShutdownSignals_enter sigset own (s, o1) = (r, (s', o2))"
    "\<not> ss_installed o1" "distinct (ss_handled o1)" "\<And>n. n \<in> set (ss_handled o1) \<Longrightarrow> accepted n (tab s n)"
  obtains (installed) "r = Inr ()" "tab s' = taken_over own (ss_handled o1) (tab s)"
      "recorded (ss_handled o1) (tab s) (ss_previous o2)"
      "o2 = o1\<lparr>ss_previous := ss_previous o2, ss_installed := True\<rparr>"
  | (failed) e where "r = Inl e" "tab s' = tab s" "o2 = o1\<lparr>ss_previous := Map.empty\<rparr>"
proof -
  obtain x s1 o3 where x: "install_handlers sigset own (ss_handled o1) [] (s, o1) = (x, (s1, o3))"
    by (cases "install_handlers sigset own (ss_handled o1) [] (s, o1)") auto
  have "tab s = taken_over own [] (tab s)" "recorded [] (tab s) (ss_previous o1)"
    by (simp_all add: taken_over_def recorded_def fun_eq_iff)
  from install_handlers_result [OF assms(1) x _ this] assms(4) obtain ns where
    ns: "tab s1 = taken_over own ns (tab s)" "recorded ns (tab s) (ss_previous o3)" "set ns \<subseteq> set (ss_handled o1)"
      "o3 = o1\<lparr>ss_previous := ss_previous o3\<rparr>"
      "x = (if set ns = set (ss_handled o1) \<and> isl x = False then Inr ns else Inl (fst (projl x), ns))" by auto
  show thesis
  proof (cases x)
    case (Inr _)
    with ns(5) have eq: "set ns = set (ss_handled o1)" by (auto split: if_splits)
    have "r = Inr ()" "s' = s1" "o2 = o3\<lparr>ss_installed := True\<rparr>"
      using assms(2,3) x Inr by (auto simp: ShutdownSignals_enter_def)
    with ns eq show thesis by (intro installed) (auto simp: taken_over_def recorded_def fun_eq_iff)
  next
    case (Inl y)
    with ns(5) obtain e where e: "x = Inl (e, ns)" by (auto split: if_splits)
    have prev: "\<And>n. n \<in> set (rev ns) \<Longrightarrow> ss_previous o3 n = Some (tab s n) \<and> accepted n (tab s n)"
      using ns(2,3) assms(5) by (auto simp: recorded_def)
    from reset_handlers_table [OF assms(1) prev, of "rev ns" s1] obtain s2 where
      s2: "reset_handlers sigset (ss_previous o3) (rev ns) s1 = (Inr (), s2)"
        "tab s2 = (\<lambda>n. if n \<in> set (rev ns) then tab s n else tab s1 n)" by auto
    have "r = Inl e" "s' = s2" "o2 = o3\<lparr>ss_previous := Map.empty\<rparr>"
      using assms(2,3) x e s2(1) by (auto simp: ShutdownSignals_enter_def)
    moreover have "o3\<lparr>ss_previous := Map.empty\<rparr> = o1\<lparr>ss_previous := Map.empty\<rparr>"
      by (subst ns(4)) simp
    ultimately show thesis using s2(2) ns(1) by (intro failed) (auto simp: taken_over_def fun_eq_iff)
  qed
qed

lemma restore_taken_over:
  assumes "signal_table sigset tab accepted" "ss_installed o1" "tab s = taken_over own (ss_handled o1) old"
    "recorded (ss_handled o1) old (ss_previous o1)" "\<And>n. n \<in> set (ss_handled o1) \<Longrightarrow> accepted n (old n)"
  shows "\<exists>s'. ShutdownSignals_restore sigset (s, o1) =
      (Inr (), (s', o1\<lparr>ss_previous := Map.empty, ss_installed := False\<rparr>)) \<and> tab s' = old"
proof -
  have prev: "\<And>n. n \<in> set (rev (ss_handled o1)) \<Longrightarrow> ss_previous o1 n = Some (old n) \<and> accepted n (old n)"
    using assms(4,5) by (auto simp: recorded_def)
  from reset_handlers_table [OF assms(1) prev, of "rev (ss_handled o1)" s] obtain s' where
    "reset_handlers sigset (ss_previous o1) (rev (ss_handled o1)) s = (Inr (), s')"
    "tab s' = (\<lambda>n. if n \<in> set (rev (ss_handled o1)) then old n else tab s n)" by auto
  with assms(2,3) show ?thesis by (auto simp: ShutdownSignals_restore_def taken_over_def fun_eq_iff)
qed

section \<open>Runs\<close>

text \<open>
  A run of the object within the process: entering and leaving, signals that the installed handler
  receives, at any point, and steps of other code that leave the handlers alone.  The list holds
  the signals that were received, in order.
\<close>

inductive signals_run ::
  "('s, 'h) signal_call \<Rightarrow> 'h \<Rightarrow> ('s \<Rightarrow> int \<Rightarrow> 'h) \<Rightarrow> 's \<times> 'h ShutdownSignals \<Rightarrow> int list
   \<Rightarrow> 's \<times> 'h ShutdownSignals \<Rightarrow> bool" for sigset own tab t0 where
  start: "signals_run sigset own tab t0 [] t0"
| enter: "signals_run sigset own tab t0 received t \<Longrightarrow> ShutdownSignals_enter sigset own t = (r, t')
    \<Longrightarrow> signals_run sigset own tab t0 received t'"
| leave: "signals_run sigset own tab t0 received t \<Longrightarrow> ShutdownSignals_exit sigset t = (r, t')
    \<Longrightarrow> signals_run sigset own tab t0 received t'"
| deliver: "signals_run sigset own tab t0 received (s, o1) \<Longrightarrow> tab s signum = own
    \<Longrightarrow> signals_run sigset own tab t0 (received @ [signum]) (s, handler signum o1)"
| other: "signals_run sigset own tab t0 received (s, o1) \<Longrightarrow> tab s' = tab s
    \<Longrightarrow> signals_run sigset own tab t0 received (s', o1)"

definition signals_inv ::
  "int list \<Rightarrow> 'h \<Rightarrow> (int \<Rightarrow> 'h) \<Rightarrow> int list \<Rightarrow> (int \<Rightarrow> 'h) \<Rightarrow> 'h ShutdownSignals \<Rightarrow> bool" where
  "signals_inv handled own old received now o1 \<longleftrightarrow>
     ss_handled o1 = handled
     \<and> (if ss_installed o1 then now = taken_over own handled old \<and> recorded handled old (ss_previous o1)
        else now = old)
     \<and> requested o1 = (received \<noteq> [])
     \<and> ss_requested_signal o1 = (if received = [] then None else Some (hd received))
     \<and> set received \<subseteq> set handled"

lemma signals_inv_handler:
  assumes "signals_inv handled own old received now o1" "now signum = own" "\<And>n. old n \<noteq> own"
  shows "signals_inv handled own old (received @ [signum]) now (handler signum o1)"
proof -
  have "signum \<in> set handled" using assms by (auto simp: signals_inv_def taken_over_def split: if_splits)
  with assms(1) show ?thesis
    by (auto simp: signals_inv_def handler_def request_def requested_def split: if_splits)
qed

lemma signals_inv_enter:
  assumes "signal_table sigset tab accepted" "signals_inv handled own old received (tab s) o1"
    "ShutdownSignals_enter sigset own (s, o1) = (r, (s', o2))" "distinct handled"
    "\<And>n. n \<in> set handled \<Longrightarrow> accepted n (old n)"
  shows "signals_inv handled own old received (tab s') o2"
proof (cases "ss_installed o1")
  case True
  with assms(2,3) show ?thesis by (auto simp: ShutdownSignals_enter_def)
next
  case False
  with assms(2) have tab: "tab s = old" and h: "ss_handled o1 = handled" by (auto simp: signals_inv_def)
  from assms(1,3) False _ _ show ?thesis
  proof (rule enter_cases)
    show "distinct (ss_handled o1)" "\<And>n. n \<in> set (ss_handled o1) \<Longrightarrow> accepted n (tab s n)"
      using assms(4,5) tab h by auto
  next
    assume i: "tab s' = taken_over own (ss_handled o1) (tab s)" "recorded (ss_handled o1) (tab s) (ss_previous o2)"
      "o2 = o1\<lparr>ss_previous := ss_previous o2, ss_installed := True\<rparr>"
    have "ss_installed o2" "ss_handled o2 = ss_handled o1" "ss_event o2 = ss_event o1"
      "ss_requested_signal o2 = ss_requested_signal o1" by (subst i(3), simp)+
    with i(1,2) assms(2) tab h show ?thesis by (simp add: signals_inv_def requested_def)
  next
    fix e
    assume "tab s' = tab s" "o2 = o1\<lparr>ss_previous := Map.empty\<rparr>"
    with assms(2) False show ?thesis by (simp add: signals_inv_def requested_def)
  qed
qed

lemma signals_inv_leave:
  assumes "signal_table sigset tab accepted" "signals_inv handled own old received (tab s) o1"
    "ShutdownSignals_exit sigset (s, o1) = (r, (s', o2))" "\<And>n. n \<in> set handled \<Longrightarrow> accepted n (old n)"
  shows "signals_inv handled own old received (tab s') o2 \<and> r = Inr () \<and> \<not> ss_installed o2"
proof (cases "ss_installed o1")
  case True
  with assms(2) have i: "tab s = taken_over own (ss_handled o1) old" "recorded (ss_handled o1) old (ss_previous o1)"
    and h: "ss_handled o1 = handled" by (auto simp: signals_inv_def)
  from restore_taken_over [OF assms(1) True i] assms(3,4) h have
    "r = Inr ()" "o2 = o1\<lparr>ss_previous := Map.empty, ss_installed := False\<rparr>" "tab s' = old"
    by (auto simp: ShutdownSignals_exit_def)
  with assms(2) show ?thesis by (simp add: signals_inv_def requested_def)
next
  case False
  with assms(2,3) show ?thesis by (simp add: ShutdownSignals_exit_def ShutdownSignals_restore_def)
qed

text \<open>
  C9: In every state that a run of the shutdown signals reaches, a request is pending exactly when a
  handled signal was received, the signal it names is the first one, and the process's handlers are
  the previous ones with the handled signals taken over while the object is installed, and exactly
  the previous ones while it is not; leaving then succeeds and puts them back.
\<close>

theorem shutdown_signals_invariant:
  assumes "signal_table sigset tab accepted" "ShutdownSignals_init handled = Inr o0"
    "\<forall>n \<in> set handled. accepted n (tab s0 n)" "\<forall>n. tab s0 n \<noteq> own"
    "signals_run sigset own tab (s0, o0) received (s, o1)"
  shows "requested o1 = (received \<noteq> [])
    \<and> ss_requested_signal o1 = (if received = [] then None else Some (hd received))
    \<and> tab s = (if ss_installed o1 then (\<lambda>n. if n \<in> set handled then own else tab s0 n) else tab s0)
    \<and> (\<exists>s' o2. ShutdownSignals_exit sigset (s, o1) = (Inr (), (s', o2)) \<and> tab s' = tab s0)"
proof -
  have handled: "distinct handled" using assms(2)
    by (auto simp: ShutdownSignals_init_def remdups_id_iff_distinct length_remdups_eq split: if_splits)
  have inv: "signals_inv handled own (tab s0) received (tab s) o1"
    using assms(5)
  proof (induction received "(s, o1)" arbitrary: s o1 rule: signals_run.induct)
    case start
    with assms(2) show ?case by (auto simp: ShutdownSignals_init_def signals_inv_def requested_def split: if_splits)
  next
    case (enter received t r)
    obtain s1 o2 where t: "t = (s1, o2)" by (cases t)
    from signals_inv_enter [OF assms(1) enter(2) [OF t] enter(3) [unfolded t] handled] assms(3) show ?case by blast
  next
    case (leave received t r)
    obtain s1 o2 where t: "t = (s1, o2)" by (cases t)
    from signals_inv_leave [OF assms(1) leave(2) [OF t] leave(3) [unfolded t]] assms(3) show ?case by blast
  next
    case (deliver received s o1 signum)
    with assms(4) show ?case by (simp add: signals_inv_handler)
  qed simp
  obtain r s' o2 where e: "ShutdownSignals_exit sigset (s, o1) = (r, (s', o2))"
    by (cases "ShutdownSignals_exit sigset (s, o1)") auto
  from signals_inv_leave [OF assms(1) inv e] assms(3) have "tab s' = tab s0" "r = Inr ()"
    by (auto simp: signals_inv_def)
  with inv e show ?thesis by (auto simp: signals_inv_def taken_over_def fun_eq_iff)
qed

text \<open>A process whose state is the table itself; it refuses a handler for the signal 9.\<close>

definition plain_signal :: "(int \<Rightarrow> nat, nat) signal_call" where
  "plain_signal n h s = (if n = 9 then (Inl (OSError PlainOSError (Some 22) ''Invalid argument''), s)
                         else (Inr (s n), s(n := h)))"

theorem shutdown_signals_invariant_witness:
  "\<exists>o0 s1 o1 s2 o2. ShutdownSignals_init [2, 15] = Inr (o0 :: nat ShutdownSignals)
     \<and> ShutdownSignals_enter plain_signal 7 ((\<lambda>_. 0), o0) = (Inr (), (s1, o1))
     \<and> s1 15 = 7 \<and> requested (handler 2 (handler 15 o1)) \<and> ss_requested_signal (handler 2 (handler 15 o1)) = Some 15
     \<and> ShutdownSignals_exit plain_signal (s1, handler 2 (handler 15 o1)) = (Inr (), (s2, o2)) \<and> s2 = (\<lambda>_. 0)"
proof -
  let ?o0 = "\<lparr>ss_handled = [2, 15], ss_event = False, ss_requested_signal = None,
    ss_previous = Map.empty, ss_installed = False\<rparr> :: nat ShutdownSignals"
  let ?s1 = "(\<lambda>_. 0)(2 := 7, 15 := 7) :: int \<Rightarrow> nat"
  let ?o1 = "?o0\<lparr>ss_previous := [2 \<mapsto> 0, 15 \<mapsto> 0], ss_installed := True\<rparr>"
  have init: "ShutdownSignals_init [2, 15] = Inr ?o0" by (simp add: ShutdownSignals_init_def)
  have ent: "ShutdownSignals_enter plain_signal 7 ((\<lambda>_. 0), ?o0) = (Inr (), (?s1, ?o1))"
    by (simp add: ShutdownSignals_enter_def plain_signal_def)
  have tab: "signal_table plain_signal id (\<lambda>n h. n \<noteq> 9)"
    by (auto simp: signal_table_def plain_signal_def split: if_splits)
  have r0: "signals_run plain_signal 7 id ((\<lambda>_. 0), ?o0) [] (?s1, ?o1)"
    using signals_run.enter [OF signals_run.start ent] .
  have r1: "signals_run plain_signal 7 id ((\<lambda>_. 0), ?o0) ([] @ [15]) (?s1, handler 15 ?o1)"
    by (rule signals_run.deliver [OF r0]) simp
  have r2: "signals_run plain_signal 7 id ((\<lambda>_. 0), ?o0) (([] @ [15]) @ [2]) (?s1, handler 2 (handler 15 ?o1))"
    by (rule signals_run.deliver [OF r1]) simp
  from shutdown_signals_invariant [OF tab init _ _ r2] obtain s2 o2 where
    "requested (handler 2 (handler 15 ?o1))" "ss_requested_signal (handler 2 (handler 15 ?o1)) = Some 15"
    "ShutdownSignals_exit plain_signal (?s1, handler 2 (handler 15 ?o1)) = (Inr (), (s2, o2))" "s2 = (\<lambda>_. 0)"
    by auto
  with init ent show ?thesis by (intro exI conjI) (assumption | simp)+
qed

end
