(* ===== verification/Service_Config.thy ===== *)
theory Service_Config
  imports Host_Network
begin

text \<open>
  The configuration of the service (\<^verbatim>\<open>tools/tcpcc_cli.py\<close>): \<^verbatim>\<open>Endpoint\<close> with its parser and its
  printed form, \<^verbatim>\<open>ServiceConfig\<close>, the argument converters, the configuration made of parsed
  arguments, and the host-network configuration and the iptables commands that follow from it.

  A path is its text.  Seconds are rational numbers; whether the grace period was given as an
  integer or as a float is kept, since it is printed.
\<close>

section \<open>Endpoints\<close>

record Endpoint =
  ep_address :: string
  ep_port :: int

text \<open>The two forms of an endpoint: the address text, the port text and the version they ask for.\<close>

definition split_endpoint :: "string \<Rightarrow> (string \<times> string \<times> int) option" where
  "split_endpoint text =
     (if startswith text ''[''
      then case find_char (CHR '']'') text of
             None \<Rightarrow> None
           | Some closing \<Rightarrow>
               if length text \<le> closing + 1 \<or> text ! (closing + 1) \<noteq> CHR '':'' then None
               else Some (take (closing - 1) (drop 1 text), drop (closing + 2) text, 6)
      else if count_list text (CHR '':'') \<noteq> 1 then None
      else case rfind_char (CHR '':'') text of
             None \<Rightarrow> None
           | Some i \<Rightarrow> Some (take i text, drop (Suc i) text, 4))"

definition unusable :: "ip_address \<Rightarrow> bool" where
  "unusable a \<longleftrightarrow> is_unspecified a \<or> is_multicast a \<or> ip_version a = 4 \<and> ip_int a = 0xFFFFFFFF"

definition port_of_text :: "string \<Rightarrow> string \<Rightarrow> exn + int" where
  "port_of_text field port_text =
     (let bad = Inl (ValueError (field @ '' port must be from 1 through 65535''))
      in if \<not> py_isascii port_text \<or> \<not> py_isdecimal port_text then bad
         else let port = int (dec_val port_text)
              in if 1 \<le> port \<and> port \<le> 65535 then Inr port else bad)"

definition Endpoint_parse :: "pyval \<Rightarrow> string \<Rightarrow> exn + Endpoint" where
  "Endpoint_parse v field =
     (let bad = Inl (ValueError (field @ '' must use IPv4:port or [IPv6]:port syntax''))
      in case v of
           PStr text \<Rightarrow>
             (if CHR 0x00 \<in> set text then bad
              else case split_endpoint text of
                None \<Rightarrow> bad
              | Some (address_text, port_text, expected_version) \<Rightarrow>
                  (case ip_address address_text of
                     None \<Rightarrow> Inl (ValueError (field @ '' address must be a literal IP address''))
                   | Some address \<Rightarrow>
                       if ip_version address \<noteq> expected_version
                       then Inl (ValueError (field @ '' has mismatched address syntax''))
                       else if unusable address
                       then Inl (ValueError (field @ '' address must be a usable unicast IP address''))
                       else rbind (port_of_text field port_text) (\<lambda>port.
                              Inr \<lparr>ep_address = ip_str address, ep_port = port\<rparr>)))
         | _ \<Rightarrow> bad)"

definition Endpoint_version :: "Endpoint \<Rightarrow> exn + int" where
  "Endpoint_version e = rbind (parse_address (ep_address e)) (\<lambda>a. Inr (ip_version a))"

text \<open>\<open>ipaddress.IPv4Address\<close> takes no other kind of address.\<close>

definition Endpoint_ipv4_u32 :: "Endpoint \<Rightarrow> exn + int" where
  "Endpoint_ipv4_u32 e =
     (case parse_v4 (ep_address e) of
        Some n \<Rightarrow> Inr (int n)
      | None \<Rightarrow> Inl (ValueError (''Expected an IPv4 address, got '' @ py_repr (ep_address e))))"

definition Endpoint_str :: "Endpoint \<Rightarrow> exn + string" where
  "Endpoint_str e =
     rbind (Endpoint_version e) (\<lambda>version.
       Inr (if version = 6 then ''['' @ ep_address e @ '']:'' @ str_int (ep_port e)
            else ep_address e @ '':'' @ str_int (ep_port e)))"

section \<open>The configuration\<close>

definition DEFAULT_TUN_HOST_ADDRESS :: string where "DEFAULT_TUN_HOST_ADDRESS = ''198.18.0.1''"
definition DEFAULT_TUN_GUEST_ADDRESS :: string where "DEFAULT_TUN_GUEST_ADDRESS = ''198.18.0.2''"
definition DEFAULT_TUN_HOST_ADDRESS_IPV6 :: string where "DEFAULT_TUN_HOST_ADDRESS_IPV6 = ''fd00:198:18::1''"
definition DEFAULT_TUN_GUEST_ADDRESS_IPV6 :: string where "DEFAULT_TUN_GUEST_ADDRESS_IPV6 = ''fd00:198:18::2''"
definition DEFAULT_BACKLOG :: int where "DEFAULT_BACKLOG = 128"
definition DEFAULT_POLL_INTERVAL :: rat where "DEFAULT_POLL_INTERVAL = 1 / 100"
definition DEFAULT_MEMORY_MIB :: int where "DEFAULT_MEMORY_MIB = 128"
definition MINIMUM_MEMORY_MIB :: int where "MINIMUM_MEMORY_MIB = 128"
definition BRIDGE_SESSION_LIMIT :: int where "BRIDGE_SESSION_LIMIT = 1048575"
definition DEFAULT_MAX_CONNECTIONS :: int where "DEFAULT_MAX_CONNECTIONS = 0"
definition DEFAULT_SHUTDOWN_GRACE_PERIOD :: rat where "DEFAULT_SHUTDOWN_GRACE_PERIOD = 5"
definition MAX_SHUTDOWN_GRACE_PERIOD :: rat where "MAX_SHUTDOWN_GRACE_PERIOD = 300"
definition IPTABLES_VARIANTS :: "string list" where
  "IPTABLES_VARIANTS = [''iptables'', ''iptables-nft'', ''iptables-legacy'']"

record ServiceConfig =
  sc_listen :: Endpoint
  sc_backend :: Endpoint
  sc_cc :: string
  sc_kernel :: string
  sc_memory_mib :: int
  sc_firewall_backend :: string
  sc_iptables_variant :: string
  sc_tun_name :: "string option"
  sc_tun_host_address :: string
  sc_tun_guest_address :: string
  sc_backlog :: int
  sc_max_connections :: int
  sc_shutdown_grace_period :: pyval
  sc_poll_interval :: rat

fun seconds :: "pyval \<Rightarrow> rat option" where
  "seconds (PInt i) = Some (of_int i)"
| "seconds (PFloat q) = Some q"
| "seconds _ = None"

definition int_argument :: "string \<Rightarrow> (int \<Rightarrow> bool) \<Rightarrow> pyval \<Rightarrow> exn + int" where
  "int_argument message ok v =
     (case v of PInt i \<Rightarrow> (if ok i then Inr i else Inl (ValueError message)) | _ \<Rightarrow> Inl (ValueError message))"

definition seconds_argument :: "string \<Rightarrow> (rat \<Rightarrow> bool) \<Rightarrow> pyval \<Rightarrow> exn + rat" where
  "seconds_argument message ok v =
     (case seconds v of
        Some q \<Rightarrow> (if ok q then Inr q else Inl (ValueError message)) | None \<Rightarrow> Inl (ValueError message))"

definition choice_argument :: "string \<Rightarrow> string list \<Rightarrow> pyval \<Rightarrow> exn + string" where
  "choice_argument message choices v =
     (case v of PStr t \<Rightarrow> (if t \<in> set choices then Inr t else Inl (ValueError message)) | _ \<Rightarrow> Inl (ValueError message))"

definition cc_name_argument :: "pyval \<Rightarrow> exn + string" where
  "cc_name_argument v =
     (let bad = Inl (ValueError (''cc must contain 1-15 lowercase letters, digits, underscores, '' @ ''or hyphens''))
      in case v of PStr cc \<Rightarrow> (if CC_NAME cc then Inr cc else bad) | _ \<Rightarrow> bad)"

text \<open>\<open>self.tun_host_address or default_host\<close>: a missing and an empty text both take the default.\<close>

definition or_default :: "string option \<Rightarrow> string \<Rightarrow> string" where
  "or_default v d = (case v of Some t \<Rightarrow> (if t = [] then d else t) | None \<Rightarrow> d)"

definition tun_addresses :: "int \<Rightarrow> string option \<Rightarrow> string option \<Rightarrow> exn + (ip_address \<times> ip_address)" where
  "tun_addresses version host_address guest_address =
     (let default_host = (if version = 4 then DEFAULT_TUN_HOST_ADDRESS else DEFAULT_TUN_HOST_ADDRESS_IPV6);
          default_guest = (if version = 4 then DEFAULT_TUN_GUEST_ADDRESS else DEFAULT_TUN_GUEST_ADDRESS_IPV6)
      in case (ip_address (or_default host_address default_host), ip_address (or_default guest_address default_guest)) of
           (Some host, Some guest) \<Rightarrow>
             rbind (rguard (ip_version host = version \<and> ip_version guest = version)
                      (ValueError ''TUN and public-listener address families must match'')) (\<lambda>_.
             rbind (rguard (\<not> (host = guest \<or> is_unspecified host \<or> is_unspecified guest
                               \<or> is_multicast host \<or> is_multicast guest))
                      (ValueError ''TUN addresses must be distinct usable unicast addresses'')) (\<lambda>_.
               Inr (host, guest)))
         | _ \<Rightarrow> Inl (ValueError ''TUN addresses must be literal IP addresses''))"

text \<open>
  \<open>ServiceConfig(...)\<close> with its \<open>__post_init__\<close>; that the endpoints are \<open>Endpoint\<close>s is their type.
\<close>

definition ServiceConfig_init ::
  "Endpoint \<Rightarrow> Endpoint \<Rightarrow> pyval \<Rightarrow> string \<Rightarrow> pyval \<Rightarrow> pyval \<Rightarrow> pyval \<Rightarrow> string option \<Rightarrow> string option
   \<Rightarrow> string option \<Rightarrow> pyval \<Rightarrow> pyval \<Rightarrow> pyval \<Rightarrow> pyval \<Rightarrow> exn + ServiceConfig" where
  "ServiceConfig_init listen backend cc kernel_path memory_mib firewall_backend iptables_variant tun_name
       tun_host_address tun_guest_address backlog max_connections shutdown_grace_period poll_interval =
     rbind (Endpoint_version backend) (\<lambda>backend_version.
     rbind (rguard (backend_version = 4 \<and> ep_address backend = ''127.0.0.1'')
              (ValueError (''backend must use 127.0.0.1; the current hosted bridge ''
                           @ ''intentionally reaches only a local application''))) (\<lambda>_.
     rbind (Endpoint_version listen) (\<lambda>version.
     rbind (tun_addresses version tun_host_address tun_guest_address) (\<lambda>(host, guest).
     rbind (int_argument (''hosted memory must be at least '' @ str_int MINIMUM_MEMORY_MIB @ '' MiB'')
              (\<lambda>i. MINIMUM_MEMORY_MIB \<le> i) memory_mib) (\<lambda>memory.
     rbind (cc_name_argument cc) (\<lambda>cc_name.
     rbind (choice_argument (''firewall backend must be one of: '' @ join '', '' (sort FIREWALL_BACKENDS))
              FIREWALL_BACKENDS firewall_backend) (\<lambda>firewall.
     rbind (choice_argument (''iptables variant must be one of: '' @ join '', '' IPTABLES_VARIANTS)
              IPTABLES_VARIANTS iptables_variant) (\<lambda>variant.
     rbind (int_argument ''backlog must be from 1 through 4096'' (\<lambda>i. 1 \<le> i \<and> i \<le> 4096) backlog) (\<lambda>blog.
     rbind (int_argument (''max connections must be 0 (unlimited) or from 1 through '' @ str_int BRIDGE_SESSION_LIMIT)
              (\<lambda>i. 0 \<le> i \<and> i \<le> BRIDGE_SESSION_LIMIT) max_connections) (\<lambda>limit.
     rbind (seconds_argument (''shutdown grace period must be from 0 through '' @ ''300 seconds'')
              (\<lambda>q. 0 \<le> q \<and> q \<le> MAX_SHUTDOWN_GRACE_PERIOD) shutdown_grace_period) (\<lambda>_.
     rbind (seconds_argument ''poll interval must be greater than 0 and at most 1 second''
              (\<lambda>q. 0 < q \<and> q \<le> 1) poll_interval) (\<lambda>poll.
       Inr \<lparr>sc_listen = listen, sc_backend = backend, sc_cc = cc_name, sc_kernel = kernel_path,
            sc_memory_mib = memory, sc_firewall_backend = firewall, sc_iptables_variant = variant,
            sc_tun_name = tun_name, sc_tun_host_address = ip_str host, sc_tun_guest_address = ip_str guest,
            sc_backlog = blog, sc_max_connections = limit,
            sc_shutdown_grace_period = shutdown_grace_period, sc_poll_interval = poll\<rparr>))))))))))))"

section \<open>From the command line\<close>

definition endpoint_argument :: "string \<Rightarrow> string \<Rightarrow> exn + Endpoint" where
  "endpoint_argument field text =
     (case Endpoint_parse (PStr text) field of
        Inl (ValueError message) \<Rightarrow> Inl (ArgumentTypeError message)
      | r \<Rightarrow> r)"

definition ip_argument :: "string \<Rightarrow> string \<Rightarrow> exn + string" where
  "ip_argument field text =
     (case ip_address text of
        None \<Rightarrow> Inl (ArgumentTypeError (field @ '' must be a literal IP address''))
      | Some address \<Rightarrow>
          (if unusable address then Inl (ArgumentTypeError (field @ '' must be usable unicast IP''))
           else Inr (ip_str address)))"

text \<open>What \<open>parse_args\<close> returns, with the types that the converters of \<open>build_parser\<close> give.\<close>

record arguments =
  ns_listen :: Endpoint
  ns_backend :: Endpoint
  ns_cc :: string
  ns_kernel :: string
  ns_memory_mib :: int
  ns_firewall_backend :: string
  ns_iptables_variant :: string
  ns_tun_name :: "string option"
  ns_tun_host_address :: "string option"
  ns_tun_guest_address :: "string option"
  ns_backlog :: int
  ns_max_connections :: int
  ns_shutdown_grace_period :: rat

definition config_from_namespace ::
  "(string \<Rightarrow> ('s, string) py) \<Rightarrow> arguments \<Rightarrow> ('s, ServiceConfig) py" where
  "config_from_namespace validate_image ns =
     (if ns_firewall_backend ns \<noteq> ''iptables'' \<and> ns_iptables_variant ns \<noteq> ''iptables''
      then praise (ValueError ''--iptables-variant is valid only with --firewall-backend=iptables'')
      else if ns_tun_host_address ns \<noteq> None \<and> ns_tun_host_address ns = ns_tun_guest_address ns
      then praise (ValueError ''TUN host and guest addresses must be different'')
      else pbind (validate_image (ns_kernel ns)) (\<lambda>kernel_path.
        plift (ServiceConfig_init (ns_listen ns) (ns_backend ns) (PStr (ns_cc ns)) kernel_path
          (PInt (ns_memory_mib ns)) (PStr (ns_firewall_backend ns)) (PStr (ns_iptables_variant ns))
          (ns_tun_name ns) (ns_tun_host_address ns) (ns_tun_guest_address ns) (PInt (ns_backlog ns))
          (PInt (ns_max_connections ns)) (PFloat (ns_shutdown_grace_period ns)) (PFloat DEFAULT_POLL_INTERVAL))))"

section \<open>To the host\<close>

definition host_network_config :: "ServiceConfig \<Rightarrow> exn + HostNetworkConfig" where
  "host_network_config config =
     rbind (TunConfig_init (PStr (sc_tun_host_address config)) (PStr (sc_tun_guest_address config))
              (PInt DEFAULT_TUN_MTU) (case sc_tun_name config of None \<Rightarrow> PNone | Some n \<Rightarrow> PStr n)) (\<lambda>tun.
     rbind (NftDnatConfig_init (PStr (ep_address (sc_listen config))) (PInt (ep_port (sc_listen config)))
              (PStr (sc_tun_guest_address config)) (PInt (ep_port (sc_listen config))) PNone) (\<lambda>dnat.
       HostNetworkConfig_init (PStr (sc_cc config)) tun dnat (PStr (sc_firewall_backend config))))"

text \<open>\<open>s.replace(old, new, 1)\<close>.\<close>

fun replace_once :: "string \<Rightarrow> string \<Rightarrow> string \<Rightarrow> string" where
  "replace_once old new [] = (if old = [] then new else [])"
| "replace_once old new (c # cs) =
     (if startswith (c # cs) old then new @ drop (length old) (c # cs) else c # replace_once old new cs)"

definition iptables_paths :: "string \<Rightarrow> int \<Rightarrow> exn + (string \<times> string \<times> string)" where
  "iptables_paths variant version =
     (if variant \<notin> set IPTABLES_VARIANTS then Inl (ValueError ''unsupported iptables variant'')
      else if version \<notin> {4, 6} then Inl (ValueError ''unsupported IP version'')
      else let command = (if version = 4 then variant else replace_once ''iptables'' ''ip6tables'' variant)
           in Inr (command, command @ ''-restore'', command @ ''-save''))"

section \<open>Endpoints and their text\<close>

text \<open>What the parser constructs.\<close>

definition valid_endpoint :: "Endpoint \<Rightarrow> bool" where
  "valid_endpoint e \<longleftrightarrow>
     (\<exists>a. wf_ip a \<and> \<not> unusable a \<and> ep_address e = ip_str a \<and> set (ip_str a) \<inter> {CHR 0x00, CHR '']''} = {})
     \<and> 1 \<le> ep_port e \<and> ep_port e \<le> 65535"

lemma port_of_text_Inr:
  "port_of_text field t = Inr p \<longleftrightarrow>
     py_isascii t \<and> py_isdecimal t \<and> p = int (dec_val t) \<and> 1 \<le> p \<and> p \<le> 65535"
  by (auto simp: port_of_text_def Let_def)

lemma port_of_text_str: "1 \<le> p \<Longrightarrow> p \<le> 65535 \<Longrightarrow> port_of_text field (str_int p) = Inr p"
  by (simp add: port_of_text_Inr str_int_nonneg py_text)

lemma ip_str_from:
  assumes "ip_address s = Some a" "c \<in> set (ip_str a)"
  shows "is_word_char c \<or> c = CHR ''%'' \<or> c \<in> set s"
proof (cases "scope_free a")
  case True
  with assms(2) ip_str_word [of a] show ?thesis by (auto simp: list_all_iff)
next
  case False
  then obtain w z where a: "a = IPv6 w (Some z)" by (cases a) auto
  have "set z \<subseteq> set s" using assms(1) a
    by (auto simp: ip_address_def split_scope_def Let_def dest: in_set_dropD split: option.splits if_splits)
  with assms(2) a v6_str_word [of "unat w"] show ?thesis by (auto simp: list_all_iff)
qed

lemma not_word: "\<not> is_word_char (CHR 0x00)" "\<not> is_word_char (CHR '']'')" "\<not> is_word_char (CHR ''['')"
  by (code_simp)+

lemma digits_no_colon: "list_all is_dec_digit s \<Longrightarrow> CHR '':'' \<notin> set s \<and> CHR 0x00 \<notin> set s"
proof -
  have "\<not> is_dec_digit (CHR '':'')" "\<not> is_dec_digit (CHR 0x00)" by (simp_all add: is_dec_digit_def)
  then show "list_all is_dec_digit s \<Longrightarrow> ?thesis" unfolding list_all_iff by blast
qed

lemma v4_text: "CHR '':'' \<notin> set (v4_str n)" "CHR ''['' \<notin> set (v4_str n)"
proof -
  have "CHR '':'' \<notin> set (str_nat k)" for k using digits_no_colon [OF str_nat_digits] by blast
  then have "CHR '':'' \<notin> (\<Union>p \<in> set (map str_nat ds). set p)" for ds by (simp only: set_map) blast
  moreover have "CHR '':'' \<notin> set ''.''" by simp
  ultimately show "CHR '':'' \<notin> set (v4_str n)"
    unfolding v4_str_def using set_join [of "''.''" "map str_nat (be_digits 256 4 n)"] by blast
  show "CHR ''['' \<notin> set (v4_str n)" using v4_str_word not_word(3) unfolding list_all_iff by blast
qed

lemma split_endpoint_v6:
  assumes "CHR '']'' \<notin> set address"
  shows "split_endpoint (''['' @ address @ '']:'' @ port) = Some (address, port, 6)"
proof -
  have "find_char (CHR '']'') (CHR ''['' # address @ CHR '']'' # CHR '':'' # port) = Some (Suc (length address))"
    using find_char_append [OF assms, of "CHR '':'' # port"] by simp
  then show ?thesis by (simp add: split_endpoint_def startswith_def nth_append)
qed

lemma split_endpoint_v4:
  assumes "CHR '':'' \<notin> set address" "CHR '':'' \<notin> set port" "\<not> startswith (address @ '':'' @ port) ''[''"
  shows "split_endpoint (address @ '':'' @ port) = Some (address, port, 4)"
proof -
  have "count_list (address @ CHR '':'' # port) (CHR '':'') = 1" using assms(1,2)
    by (simp add: count_list_append count_list_0_iff)
  with assms rfind_char_append [OF assms(2), of address] show ?thesis
    by (simp add: split_endpoint_def)
qed

lemma split_endpoint_Some:
  assumes "split_endpoint t = Some (address, port, version)"
  shows "set address \<subseteq> set t" "version = 6 \<Longrightarrow> CHR '']'' \<notin> set address" "version = 4 \<or> version = 6"
proof -
  show "set address \<subseteq> set t" "version = 4 \<or> version = 6" using assms
    by (auto simp: split_endpoint_def dest: in_set_takeD in_set_dropD split: if_splits option.splits)
  assume "version = 6"
  with assms obtain i where i: "find_char (CHR '']'') t = Some i" "address = take (i - 1) (drop 1 t)"
    by (auto simp: split_endpoint_def split: if_splits option.splits)
  from find_char_Some [OF i(1)] have "CHR '']'' \<notin> set (take i t)" by simp
  moreover have "set address \<subseteq> set (take i t)"
    unfolding i(2) by (cases t) (auto simp: take_Cons' dest: in_set_takeD)
  ultimately show "CHR '']'' \<notin> set address" by blast
qed

lemma Endpoint_parse_valid:
  assumes "Endpoint_parse v field = Inr e"
  shows "valid_endpoint e"
proof -
  from assms obtain t address port version a where
    t: "CHR 0x00 \<notin> set t" "split_endpoint t = Some (address, port, version)" "ip_address address = Some a"
      "ip_version a = version" "\<not> unusable a" "port_of_text field port = Inr (ep_port e)" "ep_address e = ip_str a"
    by (cases v) (auto simp: Endpoint_parse_def Let_def rbind_eq_Inr split: if_splits option.splits)
  note s = split_endpoint_Some [OF t(2)]
  have free: "c \<notin> set (ip_str a)" if c: "c = CHR 0x00 \<or> c = CHR '']''" for c
  proof (cases "ip_version a = 6")
    case True
    have "\<not> is_word_char c" using c not_word(1,2) by blast
    moreover have "c \<noteq> CHR ''%''" using c by (elim disjE) simp_all
    moreover have "c \<notin> set address" using c s(1,2) t(1,4) True by blast
    ultimately show ?thesis using ip_str_from [OF t(3), of c] by blast
  next
    case False
    then have "scope_free a" by (cases a) simp_all
    then have "list_all is_word_char (ip_str a)" by (rule ip_str_word)
    with c not_word(1,2) show ?thesis unfolding list_all_iff by blast
  qed
  then have "set (ip_str a) \<inter> {CHR 0x00, CHR '']''} = {}" by blast
  moreover have "wf_ip a" using t(3) by (rule ip_address_wf)
  moreover have "1 \<le> ep_port e \<and> ep_port e \<le> 65535" using t(6) by (simp add: port_of_text_Inr)
  ultimately show ?thesis unfolding valid_endpoint_def using t(5,7) by blast
qed

lemma Endpoint_parse_str:
  assumes "valid_endpoint e"
  shows "\<exists>t. Endpoint_str e = Inr t \<and> Endpoint_parse (PStr t) field = Inr e"
proof -
  from assms obtain a where a: "wf_ip a" "\<not> unusable a" "ep_address e = ip_str a"
    "CHR 0x00 \<notin> set (ip_str a)" "CHR '']'' \<notin> set (ip_str a)" and p: "1 \<le> ep_port e" "ep_port e \<le> 65535"
    by (auto simp: valid_endpoint_def)
  let ?p = "str_int (ep_port e)"
  have port: "port_of_text field ?p = Inr (ep_port e)" "list_all is_dec_digit ?p"
    using p port_of_text_str by (simp_all add: str_int_nonneg str_nat_digits)
  have digits: "CHR 0x00 \<notin> set ?p" "CHR '':'' \<notin> set ?p"
    using digits_no_colon [OF port(2)] by blast+
  have ip: "ip_address (ip_str a) = Some a" using a(1) by (rule ip_address_ip_str)
  show ?thesis
  proof (cases a)
    case (IPv4 w)
    have free: "CHR '':'' \<notin> set (ip_str a)" "CHR ''['' \<notin> set (ip_str a)" using v4_text IPv4 by auto
    have "\<not> startswith (ip_str a @ '':'' @ ?p) ''[''" using free ip_str_not_Nil [OF a(1)]
      by (cases "ip_str a") (auto simp: startswith_def)
    from split_endpoint_v4 [OF free(1) digits(2) this] have
      "split_endpoint (ip_str a @ '':'' @ ?p) = Some (ip_str a, ?p, 4)" .
    with a ip port digits IPv4 show ?thesis
      by (auto simp: Endpoint_str_def Endpoint_version_def parse_address_def Endpoint_parse_def
          simp del: ip_str.simps)
  next
    case (IPv6 w z)
    from split_endpoint_v6 [OF a(5), of ?p] a ip port digits IPv6 show ?thesis
      by (auto simp: Endpoint_str_def Endpoint_version_def parse_address_def Endpoint_parse_def
          simp del: ip_str.simps)
  qed
qed

text \<open>
  C28: The parser constructs exactly the endpoints with a usable unicast address in canonical form
  and a port from 1 to 65535, and such an endpoint is printed to a text that parses to it again.
\<close>

theorem endpoint_round_trip:
  "((\<exists>v. Endpoint_parse v field = Inr e) \<longleftrightarrow> valid_endpoint e)
   \<and> (valid_endpoint e \<longrightarrow> (\<exists>t. Endpoint_str e = Inr t \<and> Endpoint_parse (PStr t) field = Inr e))"
  using Endpoint_parse_valid Endpoint_parse_str by blast

theorem endpoint_round_trip_witness:
  "\<exists>t. Endpoint_str \<lparr>ep_address = ip_str (IPv4 0x7F000001), ep_port = 80\<rparr> = Inr t
     \<and> Endpoint_parse (PStr t) ''backend'' = Inr \<lparr>ep_address = ip_str (IPv4 0x7F000001), ep_port = 80\<rparr>"
proof -
  have "set (ip_str (IPv4 0x7F000001)) \<inter> {CHR 0x00, CHR '']''} = {}"
    using v4_str_word [of "unat (0x7F000001 :: 32 word)"] not_word by (auto simp: list_all_iff)
  then have "valid_endpoint \<lparr>ep_address = ip_str (IPv4 0x7F000001), ep_port = 80\<rparr>"
    unfolding valid_endpoint_def
    by (intro conjI exI [of _ "IPv4 0x7F000001"]) (auto simp: unusable_def is_unspecified_def)
  with endpoint_round_trip [of "''backend''" "\<lparr>ep_address = ip_str (IPv4 0x7F000001), ep_port = 80\<rparr>"]
  show ?thesis by blast
qed

section \<open>Valid configurations\<close>

definition valid_service_config :: "ServiceConfig \<Rightarrow> bool" where
  "valid_service_config c \<longleftrightarrow>
     (\<exists>l h g. ip_address (ep_address (sc_listen c)) = Some l
        \<and> sc_tun_host_address c = ip_str h \<and> sc_tun_guest_address c = ip_str g \<and> wf_ip h \<and> wf_ip g \<and> h \<noteq> g
        \<and> ip_version h = ip_version l \<and> ip_version g = ip_version l
        \<and> \<not> is_unspecified h \<and> \<not> is_unspecified g \<and> \<not> is_multicast h \<and> \<not> is_multicast g)
     \<and> ep_address (sc_backend c) = ''127.0.0.1''
     \<and> 128 \<le> sc_memory_mib c \<and> CC_NAME (sc_cc c) \<and> sc_firewall_backend c \<in> set FIREWALL_BACKENDS
     \<and> sc_iptables_variant c \<in> set IPTABLES_VARIANTS \<and> 1 \<le> sc_backlog c \<and> sc_backlog c \<le> 4096
     \<and> 0 \<le> sc_max_connections c \<and> sc_max_connections c \<le> 1048575
     \<and> (\<exists>q. seconds (sc_shutdown_grace_period c) = Some q \<and> 0 \<le> q \<and> q \<le> 300)
     \<and> 0 < sc_poll_interval c \<and> sc_poll_interval c \<le> 1"

lemma Endpoint_version_Inr:
  "Endpoint_version e = Inr v \<longleftrightarrow> (\<exists>a. ip_address (ep_address e) = Some a \<and> v = ip_version a)"
  by (auto simp: Endpoint_version_def parse_address_def rbind_eq_Inr split: option.splits)

lemma tun_addresses_Inr:
  "tun_addresses v th tg = Inr (h, g) \<longleftrightarrow>
     ip_address (or_default th (if v = 4 then DEFAULT_TUN_HOST_ADDRESS else DEFAULT_TUN_HOST_ADDRESS_IPV6)) = Some h
     \<and> ip_address (or_default tg (if v = 4 then DEFAULT_TUN_GUEST_ADDRESS else DEFAULT_TUN_GUEST_ADDRESS_IPV6)) = Some g
     \<and> ip_version h = v \<and> ip_version g = v \<and> h \<noteq> g
     \<and> \<not> is_unspecified h \<and> \<not> is_unspecified g \<and> \<not> is_multicast h \<and> \<not> is_multicast g"
  unfolding tun_addresses_def Let_def by (auto simp: rbind_eq_Inr split: option.splits)

lemma argument_Inr:
  "int_argument m ok v = Inr i \<longleftrightarrow> v = PInt i \<and> ok i"
  "seconds_argument m okq v = Inr q \<longleftrightarrow> seconds v = Some q \<and> okq q"
  "choice_argument m cs v = Inr t \<longleftrightarrow> v = PStr t \<and> t \<in> set cs"
  "cc_name_argument v = Inr t \<longleftrightarrow> v = PStr t \<and> CC_NAME t"
     apply (auto simp: int_argument_def split: pyval.splits)[1]
    apply (auto simp: seconds_argument_def split: option.splits)[1]
   apply (auto simp: choice_argument_def split: pyval.splits)[1]
  apply (cases v; simp add: cc_name_argument_def Let_def)
  apply blast
  done

lemma localhost_version:
  assumes "ep_address b = ''127.0.0.1''"
  shows "Endpoint_version b = Inr 4"
proof -
  have o: "map parse_octet (split_on (CHR ''.'') ''127.0.0.1'') = [Some 127, Some 0, Some 0, Some 1]"
    "length (split_on (CHR ''.'') ''127.0.0.1'') = 4" by (code_simp, code_simp)
  have "parse_v4 ''127.0.0.1'' = Some (be_val 256 [127, 0, 0, 1])"
    unfolding parse_v4_def Let_def o by simp
  with assms show ?thesis by (simp add: Endpoint_version_def parse_address_def ip_address_def)
qed

lemma ServiceConfig_init_parts:
  assumes "ServiceConfig_init listen backend cc kernel_path mem fw variant tun_name th tg blog limit grace poll = Inr c"
  obtains bv v h g q where "Endpoint_version backend = Inr bv" "ep_address backend = ''127.0.0.1''"
    "Endpoint_version listen = Inr v" "tun_addresses v th tg = Inr (h, g)"
    "mem = PInt (sc_memory_mib c)" "128 \<le> sc_memory_mib c" "cc = PStr (sc_cc c)" "CC_NAME (sc_cc c)"
    "fw = PStr (sc_firewall_backend c)" "sc_firewall_backend c \<in> set FIREWALL_BACKENDS"
    "variant = PStr (sc_iptables_variant c)" "sc_iptables_variant c \<in> set IPTABLES_VARIANTS"
    "blog = PInt (sc_backlog c)" "1 \<le> sc_backlog c" "sc_backlog c \<le> 4096" "limit = PInt (sc_max_connections c)"
    "0 \<le> sc_max_connections c" "sc_max_connections c \<le> 1048575" "seconds grace = Some q" "0 \<le> q" "q \<le> 300"
    "seconds poll = Some (sc_poll_interval c)" "0 < sc_poll_interval c" "sc_poll_interval c \<le> 1"
    "sc_listen c = listen" "sc_backend c = backend" "sc_kernel c = kernel_path" "sc_tun_name c = tun_name"
    "sc_tun_host_address c = ip_str h" "sc_tun_guest_address c = ip_str g" "sc_shutdown_grace_period c = grace"
proof -
  from assms obtain bv v h g m n f vr b li q p where
    a: "Endpoint_version backend = Inr bv" "bv = 4 \<and> ep_address backend = ''127.0.0.1''"
      "Endpoint_version listen = Inr v" "tun_addresses v th tg = Inr (h, g)"
      "mem = PInt m \<and> MINIMUM_MEMORY_MIB \<le> m" "cc = PStr n \<and> CC_NAME n" "fw = PStr f \<and> f \<in> set FIREWALL_BACKENDS"
      "variant = PStr vr \<and> vr \<in> set IPTABLES_VARIANTS" "blog = PInt b \<and> 1 \<le> b \<and> b \<le> 4096"
      "limit = PInt li \<and> 0 \<le> li \<and> li \<le> BRIDGE_SESSION_LIMIT"
      "seconds grace = Some q \<and> 0 \<le> q \<and> q \<le> MAX_SHUTDOWN_GRACE_PERIOD" "seconds poll = Some p \<and> 0 < p \<and> p \<le> 1"
    and c: "\<lparr>sc_listen = listen, sc_backend = backend, sc_cc = n, sc_kernel = kernel_path,
            sc_memory_mib = m, sc_firewall_backend = f, sc_iptables_variant = vr,
            sc_tun_name = tun_name, sc_tun_host_address = ip_str h, sc_tun_guest_address = ip_str g,
            sc_backlog = b, sc_max_connections = li,
            sc_shutdown_grace_period = grace, sc_poll_interval = p\<rparr> = c"
    unfolding ServiceConfig_init_def rbind_eq_Inr argument_Inr rguard_eq_Inr split_paired_Ex prod.case sum.inject
    by blast
  from a(5) have "128 \<le> m" by (simp add: MINIMUM_MEMORY_MIB_def)
  moreover from a(10) have "li \<le> 1048575" by (simp add: BRIDGE_SESSION_LIMIT_def)
  moreover from a(11) have "q \<le> 300" by (simp add: MAX_SHUTDOWN_GRACE_PERIOD_def)
  ultimately show thesis
    using that [of bv v h g q] a c [symmetric] by simp
qed

lemma ServiceConfig_init_valid:
  assumes "ServiceConfig_init listen backend cc kernel_path mem fw variant tun_name th tg blog limit grace poll = Inr c"
  shows "valid_service_config c"
  using assms
proof (rule ServiceConfig_init_parts)
  fix bv v h g q
  assume a: "ep_address backend = ''127.0.0.1''" "Endpoint_version listen = Inr v" "tun_addresses v th tg = Inr (h, g)"
    and c: "128 \<le> sc_memory_mib c" "CC_NAME (sc_cc c)" "sc_firewall_backend c \<in> set FIREWALL_BACKENDS"
    "sc_iptables_variant c \<in> set IPTABLES_VARIANTS" "1 \<le> sc_backlog c" "sc_backlog c \<le> 4096"
    "0 \<le> sc_max_connections c" "sc_max_connections c \<le> 1048575" "seconds grace = Some q" "0 \<le> q" "q \<le> 300"
    "0 < sc_poll_interval c" "sc_poll_interval c \<le> 1"
    and e: "sc_listen c = listen" "sc_backend c = backend"
    "sc_tun_host_address c = ip_str h" "sc_tun_guest_address c = ip_str g" "sc_shutdown_grace_period c = grace"
  from a(2) obtain l where l: "ip_address (ep_address listen) = Some l" "v = ip_version l"
    by (auto simp: Endpoint_version_Inr)
  note t = a(3) [unfolded tun_addresses_Inr]
  from t have "wf_ip h" "wf_ip g" using ip_address_wf by blast+
  with l t e have "\<exists>l h g. ip_address (ep_address (sc_listen c)) = Some l
        \<and> sc_tun_host_address c = ip_str h \<and> sc_tun_guest_address c = ip_str g \<and> wf_ip h \<and> wf_ip g \<and> h \<noteq> g
        \<and> ip_version h = ip_version l \<and> ip_version g = ip_version l
        \<and> \<not> is_unspecified h \<and> \<not> is_unspecified g \<and> \<not> is_multicast h \<and> \<not> is_multicast g"
    by (intro exI [of _ l] exI [of _ h] exI [of _ g]) simp
  with c e a(1) show "valid_service_config c" by (simp add: valid_service_config_def)
qed

text \<open>
  C29: A service configuration is constructed exactly from a local backend, two different usable
  TUN addresses of the listener's family (the family's defaults where they are missing), and
  a memory size, algorithm name, backend, variant, backlog, connection limit, grace period and poll
  interval within their bounds; its addresses are kept in canonical form.
\<close>

theorem ServiceConfig_init_iff:
  "ServiceConfig_init listen backend cc kernel_path mem fw variant tun_name th tg blog limit grace poll = Inr c \<longleftrightarrow>
     (\<exists>v h g. Endpoint_version listen = Inr v \<and> tun_addresses v th tg = Inr (h, g)
        \<and> sc_tun_host_address c = ip_str h \<and> sc_tun_guest_address c = ip_str g)
     \<and> sc_listen c = listen \<and> sc_backend c = backend \<and> cc = PStr (sc_cc c) \<and> sc_kernel c = kernel_path
     \<and> mem = PInt (sc_memory_mib c) \<and> fw = PStr (sc_firewall_backend c) \<and> variant = PStr (sc_iptables_variant c)
     \<and> sc_tun_name c = tun_name \<and> blog = PInt (sc_backlog c) \<and> limit = PInt (sc_max_connections c)
     \<and> sc_shutdown_grace_period c = grace \<and> seconds poll = Some (sc_poll_interval c) \<and> valid_service_config c"
  (is "?L \<longleftrightarrow> ?R")
proof
  assume ?L
  then obtain bv v h g q where a: "Endpoint_version backend = Inr bv" "ep_address backend = ''127.0.0.1''"
    "Endpoint_version listen = Inr v" "tun_addresses v th tg = Inr (h, g)"
    and c: "mem = PInt (sc_memory_mib c)" "128 \<le> sc_memory_mib c" "cc = PStr (sc_cc c)" "CC_NAME (sc_cc c)"
    "fw = PStr (sc_firewall_backend c)" "sc_firewall_backend c \<in> set FIREWALL_BACKENDS"
    "variant = PStr (sc_iptables_variant c)" "sc_iptables_variant c \<in> set IPTABLES_VARIANTS"
    "blog = PInt (sc_backlog c)" "1 \<le> sc_backlog c" "sc_backlog c \<le> 4096" "limit = PInt (sc_max_connections c)"
    "0 \<le> sc_max_connections c" "sc_max_connections c \<le> 1048575" "seconds grace = Some q" "0 \<le> q" "q \<le> 300"
    "seconds poll = Some (sc_poll_interval c)" "0 < sc_poll_interval c" "sc_poll_interval c \<le> 1"
    and e: "sc_listen c = listen" "sc_backend c = backend" "sc_kernel c = kernel_path" "sc_tun_name c = tun_name"
    "sc_tun_host_address c = ip_str h" "sc_tun_guest_address c = ip_str g" "sc_shutdown_grace_period c = grace"
    by (rule ServiceConfig_init_parts)
  have "valid_service_config c" using \<open>?L\<close> by (rule ServiceConfig_init_valid)
  with a(3,4) c e show ?R by blast
next
  assume R: ?R
  then obtain v h g where a: "Endpoint_version listen = Inr v" "tun_addresses v th tg = Inr (h, g)"
    "sc_tun_host_address c = ip_str h" "sc_tun_guest_address c = ip_str g" by blast
  from R have v: "valid_service_config c" by blast
  then have b: "ep_address (sc_backend c) = ''127.0.0.1''" by (simp add: valid_service_config_def)
  from v obtain q where q: "seconds (sc_shutdown_grace_period c) = Some q" "0 \<le> q" "q \<le> 300"
    by (auto simp: valid_service_config_def)
  show ?L
    using R a b q v localhost_version [OF b]
    by (simp add: ServiceConfig_init_def int_argument_def seconds_argument_def choice_argument_def
        cc_name_argument_def valid_service_config_def MINIMUM_MEMORY_MIB_def BRIDGE_SESSION_LIMIT_def
        MAX_SHUTDOWN_GRACE_PERIOD_def)
qed

section \<open>The host network of a configuration\<close>

lemma TunConfig_init_usable:
  assumes "wf_ip h" "wf_ip g" "h \<noteq> g" "ip_version h = ip_version g" "\<not> is_unspecified h" "\<not> is_unspecified g"
    "\<not> is_multicast h" "\<not> is_multicast g"
  shows "TunConfig_init (PStr (ip_str h)) (PStr (ip_str g)) (PInt DEFAULT_TUN_MTU) name =
    rbind (name_argument name) (\<lambda>n. Inr \<lparr>tc_host_address = ip_str h, tc_guest_address = ip_str g,
      tc_mtu = DEFAULT_TUN_MTU, tc_name = n\<rparr>)"
  using assms
  by (simp add: TunConfig_init_def is_str_def address_argument_def ip_address_ip_str mtu_argument_def
      DEFAULT_TUN_MTU_def MIN_IPV4_MTU_def MIN_IPV6_MTU_def MAX_IPV4_MTU_def)

text \<open>
  What a constructed configuration of a parsed listener leads to: the host-network configuration
  where the TUN name is valid and the listener is not the guest itself, an error otherwise.
\<close>

definition network_of :: "ServiceConfig \<Rightarrow> HostNetworkConfig" where
  "network_of c =
     \<lparr>hc_requested_cc = sc_cc c,
      hc_tun = \<lparr>tc_host_address = sc_tun_host_address c, tc_guest_address = sc_tun_guest_address c,
               tc_mtu = DEFAULT_TUN_MTU, tc_name = sc_tun_name c\<rparr>,
      hc_dnat = \<lparr>dc_listen_address = ep_address (sc_listen c), dc_listen_port = ep_port (sc_listen c),
                dc_target_address = sc_tun_guest_address c, dc_target_port = ep_port (sc_listen c),
                dc_table_name = None\<rparr>,
      hc_firewall_backend = sc_firewall_backend c\<rparr>"

lemma host_network_config_network_of:
  assumes "valid_service_config c" "valid_endpoint (sc_listen c)" "host_network_config c = Inr n"
  shows "n = network_of c"
proof -
  from assms(1) obtain h g where h: "sc_tun_host_address c = ip_str h" "sc_tun_guest_address c = ip_str g"
    "wf_ip h" "wf_ip g" "h \<noteq> g" "ip_version h = ip_version g" "\<not> is_unspecified h" "\<not> is_unspecified g"
    "\<not> is_multicast h" "\<not> is_multicast g" by (auto simp: valid_service_config_def)
  from assms(2) obtain l where l: "wf_ip l" "ep_address (sc_listen c) = ip_str l" by (auto simp: valid_endpoint_def)
  let ?name = "case sc_tun_name c of None \<Rightarrow> PNone | Some n \<Rightarrow> PStr n"
  from assms(3) obtain tn d where
    tn: "name_argument ?name = Inr tn" and
    d: "NftDnatConfig_init (PStr (ip_str l)) (PInt (ep_port (sc_listen c))) (PStr (ip_str g))
          (PInt (ep_port (sc_listen c))) PNone = Inr d" and
    n: "HostNetworkConfig_init (PStr (sc_cc c)) \<lparr>tc_host_address = ip_str h, tc_guest_address = ip_str g,
      tc_mtu = DEFAULT_TUN_MTU, tc_name = tn\<rparr> d (PStr (sc_firewall_backend c)) = Inr n"
    unfolding host_network_config_def h(1,2) l(2) TunConfig_init_usable [OF h(3-10)] rbind_eq_Inr by auto
  have tn': "tn = sc_tun_name c" using tn by (cases "sc_tun_name c") (auto simp: name_argument_Inr)
  from d [unfolded NftDnatConfig_init_Inr] have "dc_listen_address d = ip_str l" "dc_target_address d = ip_str g"
    "dc_listen_port d = ep_port (sc_listen c)" "dc_target_port d = ep_port (sc_listen c)" "dc_table_name d = None"
    using ip_address_ip_str [OF l(1)] ip_address_ip_str [OF h(4)]
    by (auto simp: validate_port_Inr table_argument_Inr)
  then have "d = hc_dnat (network_of c)" using h l by (simp add: network_of_def)
  with n tn' h show ?thesis
    by (auto simp: HostNetworkConfig_init_def network_of_def rbind_eq_Inr cc_argument_def backend_argument_def
        split: if_splits)
qed

lemma host_network_config_succeeds:
  assumes "valid_service_config c" "valid_endpoint (sc_listen c)"
  shows "(\<exists>n. host_network_config c = Inr n) \<longleftrightarrow>
    (\<forall>n. sc_tun_name c = Some n \<longrightarrow> validate_tun_name (PStr n) = Inr n)
    \<and> ep_address (sc_listen c) \<noteq> sc_tun_guest_address c"
proof -
  from assms(1) obtain h g l where h: "sc_tun_host_address c = ip_str h" "sc_tun_guest_address c = ip_str g"
    "wf_ip h" "wf_ip g" "h \<noteq> g" "ip_version h = ip_version g" "\<not> is_unspecified h" "\<not> is_unspecified g"
    "\<not> is_multicast h" "\<not> is_multicast g" "ip_address (ep_address (sc_listen c)) = Some l" "ip_version g = ip_version l"
    by (auto simp: valid_service_config_def)
  from assms(2) obtain a where a: "wf_ip a" "ep_address (sc_listen c) = ip_str a" "\<not> unusable a"
    "1 \<le> ep_port (sc_listen c)" "ep_port (sc_listen c) \<le> 65535" by (auto simp: valid_endpoint_def)
  have l: "l = a" using h(11) a(2) ip_address_ip_str [OF a(1)] by simp
  have port: "validate_port (PInt (ep_port (sc_listen c))) f = Inr (ep_port (sc_listen c))" for f
    using a(4,5) by (simp add: validate_port_def)
  let ?name = "case sc_tun_name c of None \<Rightarrow> PNone | Some n \<Rightarrow> PStr n"
  have name: "(\<exists>n. name_argument ?name = Inr n) \<longleftrightarrow>
      (\<forall>n. sc_tun_name c = Some n \<longrightarrow> validate_tun_name (PStr n) = Inr n)"
    by (cases "sc_tun_name c") (auto simp: name_argument_Inr)
  have u: "\<not> is_unspecified a" "\<not> is_multicast a" using a(3) by (auto simp: unusable_def)
  have n: "PNone = PNone \<and> None = (None :: string option)" by simp
  have dnat: "NftDnatConfig_init (PStr (ip_str a)) (PInt (ep_port (sc_listen c))) (PStr (ip_str g))
      (PInt (ep_port (sc_listen c))) PNone =
      (if ip_str a = ip_str g then Inl (ValueError ''DNAT listen and target addresses must be different'')
       else Inr (hc_dnat (network_of c)))"
    using u h a l port
    by (simp add: NftDnatConfig_init_def validate_endpoint_address_def ip_address_ip_str parse_address_ip_str
        table_argument_def network_of_def)
  have cc: "cc_argument (PStr (sc_cc c)) = Inr (sc_cc c)" "backend_argument (PStr (sc_firewall_backend c)) = Inr (sc_firewall_backend c)"
    using assms(1) by (simp_all add: valid_service_config_def cc_argument_def backend_argument_def)
  show ?thesis
    unfolding host_network_config_def h(1,2) a(2) TunConfig_init_usable [OF h(3-10)] dnat rbind_eq_Inr
      name [symmetric]
    using cc by (auto simp: HostNetworkConfig_init_def network_of_def h)
qed

lemma network_of_valid:
  assumes "valid_service_config c" "valid_endpoint (sc_listen c)" "host_network_config c = Inr n"
  shows "valid_tun_config (hc_tun (network_of c)) \<and> valid_dnat_config (hc_dnat (network_of c))"
proof -
  have ok: "\<forall>n. sc_tun_name c = Some n \<longrightarrow> validate_tun_name (PStr n) = Inr n"
    "ep_address (sc_listen c) \<noteq> sc_tun_guest_address c"
    using host_network_config_succeeds [OF assms(1,2)] assms(3) by blast+
  from assms(1) obtain h g l where h: "sc_tun_host_address c = ip_str h" "sc_tun_guest_address c = ip_str g"
    "wf_ip h" "wf_ip g" "h \<noteq> g" "ip_version h = ip_version g" "\<not> is_unspecified h" "\<not> is_unspecified g"
    "\<not> is_multicast h" "\<not> is_multicast g" "ip_address (ep_address (sc_listen c)) = Some l" "ip_version g = ip_version l"
    by (auto simp: valid_service_config_def)
  from assms(2) obtain a where a: "wf_ip a" "ep_address (sc_listen c) = ip_str a" "\<not> unusable a"
    "1 \<le> ep_port (sc_listen c)" "ep_port (sc_listen c) \<le> 65535" by (auto simp: valid_endpoint_def)
  have l: "l = a" using h(11) a(2) ip_address_ip_str [OF a(1)] by simp
  have u: "\<not> is_unspecified a" "\<not> is_multicast a" using a(3) by (auto simp: unusable_def)
  have "valid_tun_config (hc_tun (network_of c))"
    unfolding valid_tun_config_def network_of_def
    by (rule conjI, rule exI [of _ h], rule exI [of _ g]) (use h ok in \<open>auto simp: DEFAULT_TUN_MTU_def\<close>)
  moreover have "valid_dnat_config (hc_dnat (network_of c))"
    unfolding valid_dnat_config_def network_of_def
    by (rule conjI, rule exI [of _ a], rule exI [of _ g]) (use h a l u ok in auto)
  ultimately show ?thesis by blast
qed

text \<open>
  C18: A constructed service configuration with a parsed listener gives a host-network
  configuration exactly when its TUN name is valid and its listener address is not the guest
  address; that configuration is valid, it forwards the listener's endpoint to the same port of the
  guest address, and names the service's algorithm and firewall backend.
\<close>

theorem host_network_config_iff:
  assumes "ServiceConfig_init listen backend cc kernel_path mem fw variant tun_name th tg blog limit grace poll = Inr c"
    "Endpoint_parse text field = Inr listen"
  shows "((\<exists>n. host_network_config c = Inr n) \<longleftrightarrow>
      (\<forall>n. tun_name = Some n \<longrightarrow> validate_tun_name (PStr n) = Inr n) \<and> ep_address listen \<noteq> sc_tun_guest_address c)
    \<and> (\<forall>n. host_network_config c = Inr n \<longrightarrow>
         valid_tun_config (hc_tun n) \<and> valid_dnat_config (hc_dnat n)
         \<and> dc_listen_address (hc_dnat n) = ep_address listen \<and> dc_listen_port (hc_dnat n) = ep_port listen
         \<and> dc_target_address (hc_dnat n) = tc_guest_address (hc_tun n) \<and> dc_target_port (hc_dnat n) = ep_port listen
         \<and> tc_name (hc_tun n) = tun_name \<and> PStr (hc_requested_cc n) = cc \<and> PStr (hc_firewall_backend n) = fw)"
proof -
  have v: "valid_service_config c" using assms(1) by (rule ServiceConfig_init_valid)
  have e: "sc_listen c = listen" "sc_tun_name c = tun_name" "PStr (sc_cc c) = cc" "PStr (sc_firewall_backend c) = fw"
    using assms(1) by (auto elim: ServiceConfig_init_parts)
  have l: "valid_endpoint (sc_listen c)" using Endpoint_parse_valid [OF assms(2)] e by simp
  show ?thesis
    using host_network_config_succeeds [OF v l] host_network_config_network_of [OF v l] network_of_valid [OF v l] e
    by (auto simp: network_of_def)
qed

definition sample_listen :: Endpoint where
  "sample_listen = \<lparr>ep_address = ip_str (IPv4 0x0A000003), ep_port = 80\<rparr>"

definition sample_service :: ServiceConfig where
  "sample_service =
     \<lparr>sc_listen = sample_listen, sc_backend = \<lparr>ep_address = ''127.0.0.1'', ep_port = 8080\<rparr>, sc_cc = ''bbr'',
      sc_kernel = ''vmlinux'', sc_memory_mib = 256, sc_firewall_backend = ''nft-exec'', sc_iptables_variant = ''iptables'',
      sc_tun_name = None, sc_tun_host_address = ip_str (IPv4 0x0A000001),
      sc_tun_guest_address = ip_str (IPv4 0x0A000002), sc_backlog = 16, sc_max_connections = 2,
      sc_shutdown_grace_period = PInt 0, sc_poll_interval = 1\<rparr>"

lemma sample_listen_valid: "valid_endpoint sample_listen"
proof -
  have "set (ip_str (IPv4 0x0A000003)) \<inter> {CHR 0x00, CHR '']''} = {}"
    using v4_str_word [of "unat (0x0A000003 :: 32 word)"] not_word by (auto simp: list_all_iff)
  then show ?thesis
    unfolding valid_endpoint_def sample_listen_def
    by (intro conjI exI [of _ "IPv4 0x0A000003"]) (auto simp: unusable_def is_unspecified_def)
qed

lemma sample_service_init:
  "ServiceConfig_init sample_listen \<lparr>ep_address = ''127.0.0.1'', ep_port = 8080\<rparr> (PStr ''bbr'') ''vmlinux''
     (PInt 256) (PStr ''nft-exec'') (PStr ''iptables'') None (Some (ip_str (IPv4 0x0A000001)))
     (Some (ip_str (IPv4 0x0A000002))) (PInt 16) (PInt 2) (PInt 0) (PInt 1) = Inr sample_service"
proof -
  have v: "Endpoint_version sample_listen = Inr 4"
    by (simp add: sample_listen_def Endpoint_version_Inr sample_address del: ip_str.simps)
  have d: "or_default (Some (ip_str (IPv4 w))) t = ip_str (IPv4 w)" for w t
    using ip_str_not_Nil [of "IPv4 w"] by (simp add: or_default_def del: ip_str.simps)
  have t: "tun_addresses 4 (Some (ip_str (IPv4 0x0A000001))) (Some (ip_str (IPv4 0x0A000002))) =
      Inr (IPv4 0x0A000001, IPv4 0x0A000002)"
    unfolding tun_addresses_Inr d sample_address by (simp add: is_unspecified_def)
  have cc: "CC_NAME ''bbr''" "''nft-exec'' \<in> set FIREWALL_BACKENDS" "''iptables'' \<in> set IPTABLES_VARIANTS"
    by (code_simp)+
  show ?thesis
    using v t cc
    by (simp add: ServiceConfig_init_def localhost_version int_argument_def seconds_argument_def choice_argument_def
        cc_name_argument_def MINIMUM_MEMORY_MIB_def BRIDGE_SESSION_LIMIT_def MAX_SHUTDOWN_GRACE_PERIOD_def
        sample_service_def del: ip_str.simps)
qed

theorem host_network_config_iff_witness:
  "\<exists>n. host_network_config sample_service = Inr n \<and> valid_tun_config (hc_tun n) \<and> valid_dnat_config (hc_dnat n)
     \<and> dc_target_address (hc_dnat n) = ip_str (IPv4 0x0A000002) \<and> dc_target_port (hc_dnat n) = 80"
proof -
  obtain t where t: "Endpoint_parse (PStr t) ''listen'' = Inr sample_listen"
    using Endpoint_parse_str [OF sample_listen_valid] by blast
  note h = host_network_config_iff [OF sample_service_init t]
  have g: "sc_tun_guest_address sample_service = ip_str (IPv4 0x0A000002)" "ep_port sample_listen = 80"
    "ep_address sample_listen = ip_str (IPv4 0x0A000003)"
    by (simp_all add: sample_service_def sample_listen_def)
  have "ip_str (IPv4 0x0A000003) \<noteq> ip_str (IPv4 0x0A000002)" using ip_str_inject [of "IPv4 0x0A000003" "IPv4 0x0A000002"]
    by simp
  with h [THEN conjunct1] g obtain n where n: "host_network_config sample_service = Inr n" by auto
  have "n = network_of sample_service"
    using host_network_config_network_of [OF ServiceConfig_init_valid [OF sample_service_init] _ n]
      sample_listen_valid by (simp add: sample_service_def)
  then have "tc_guest_address (hc_tun n) = ip_str (IPv4 0x0A000002)" using g(1) by (simp add: network_of_def)
  with h [THEN conjunct2, THEN spec, THEN mp, OF n] n g show ?thesis by auto
qed

end
