(* ===== verification/Kernel_Image.thy ===== *)
theory Kernel_Image
  imports Control
begin

text \<open>
  The check of the hosted kernel's image (\<^verbatim>\<open>validate_kernel_image\<close> of \<^verbatim>\<open>tools/tcpcc_cli.py\<close>): the
  ELF header and every program header are read before the host is changed.  The calls of the file
  system are arguments.  \<open>static_executable\<close> is the reference: it reads the image as a byte string,
  by the offsets of the ELF format.
\<close>

section \<open>The check\<close>

definition ELF_HEADER :: "field list" where
  "ELF_HEADER = [FS 16, FU 2, FU 2, FU 4, FU 8, FU 8, FU 8, FU 4, FU 2, FU 2, FU 2, FU 2, FU 2, FU 2]"

definition ELF_PROGRAM_HEADER :: "field list" where
  "ELF_PROGRAM_HEADER = [FU 4, FU 4, FU 8, FU 8, FU 8, FU 8, FU 8, FU 8]"

definition ELFCLASS64 :: int where "ELFCLASS64 = 2"
definition ELFDATA2LSB :: int where "ELFDATA2LSB = 1"
definition ET_EXEC :: int where "ET_EXEC = 2"
definition EM_X86_64 :: int where "EM_X86_64 = 62"
definition PT_INTERP :: int where "PT_INTERP = 3"

lemma elf_sizes: "calcsize ELF_HEADER = 64" "calcsize ELF_PROGRAM_HEADER = 56"
  by (simp_all add: calcsize_def ELF_HEADER_def ELF_PROGRAM_HEADER_def)

text \<open>The calls of the file system; a stream is named by a number.\<close>

record 's image_fs =
  kf_resolve :: "string \<Rightarrow> ('s, string) py"
  kf_stat :: "string \<Rightarrow> ('s, nat \<times> int) py"
  kf_access :: "string \<Rightarrow> ('s, bool) py"
  kf_open :: "string \<Rightarrow> ('s, int) py"
  kf_read :: "int \<Rightarrow> nat \<Rightarrow> ('s, bytes) py"
  kf_seek :: "int \<Rightarrow> int \<Rightarrow> ('s, unit) py"
  kf_close :: "int \<Rightarrow> ('s, unit) py"

text \<open>\<open>stat.S_ISREG\<close>: the file type bits are those of a regular file.\<close>

definition S_ISREG :: "nat \<Rightarrow> bool" where
  "S_ISREG mode \<longleftrightarrow> mode div 4096 mod 16 = 8"

text \<open>The offset, entry size and number of the program headers of an acceptable header.\<close>

definition check_header :: "bytes \<Rightarrow> int \<Rightarrow> exn + (int \<times> int \<times> int)" where
  "check_header raw_header st_size =
     rbind (rguard (length raw_header = calcsize ELF_HEADER)
              (ValueError ''kernel image has a truncated ELF header'')) (\<lambda>_.
     rbind (unpack ELF_HEADER raw_header) (\<lambda>vs.
     let ident = as_bytes (vs ! 0); image_type = as_int (vs ! 1); machine = as_int (vs ! 2);
         elf_version = as_int (vs ! 3); entry = as_int (vs ! 4); program_offset = as_int (vs ! 5);
         header_size = as_int (vs ! 8); program_size = as_int (vs ! 9); program_count = as_int (vs ! 10)
     in rbind (rguard (take 4 ident = [0x7F, 0x45, 0x4C, 0x46]) (ValueError ''kernel image is not ELF'')) (\<lambda>_.
        rbind (rguard (uint (ident ! 4) = ELFCLASS64 \<and> uint (ident ! 5) = ELFDATA2LSB)
                 (ValueError ''kernel image must be 64-bit little-endian ELF'')) (\<lambda>_.
        rbind (rguard (image_type = ET_EXEC \<and> machine = EM_X86_64 \<and> elf_version = 1)
                 (ValueError ''kernel image must be an x86-64 ET_EXEC ELF'')) (\<lambda>_.
        rbind (rguard (header_size = int (calcsize ELF_HEADER) \<and> entry \<noteq> 0)
                 (ValueError ''kernel image has an invalid ELF entry header'')) (\<lambda>_.
        rbind (rguard (\<not> (program_count = 0 \<or> program_size < int (calcsize ELF_PROGRAM_HEADER)
                          \<or> program_offset < int (calcsize ELF_HEADER)
                          \<or> st_size < program_offset + program_size * program_count))
                 (ValueError ''kernel image has an invalid program-header table'')) (\<lambda>_.
          Inr (program_offset, program_size, program_count))))))))"

definition check_program :: "bytes \<Rightarrow> exn + unit" where
  "check_program raw_program =
     rbind (rguard (length raw_program = calcsize ELF_PROGRAM_HEADER)
              (ValueError ''kernel image has a truncated program header'')) (\<lambda>_.
     rbind (unpack ELF_PROGRAM_HEADER raw_program) (\<lambda>vs.
       rguard (as_int (vs ! 0) \<noteq> PT_INTERP) (ValueError ''kernel image unexpectedly requires an ELF interpreter'')))"

fun scan_programs :: "'s image_fs \<Rightarrow> int \<Rightarrow> int \<Rightarrow> int \<Rightarrow> nat list \<Rightarrow> ('s, unit) py" where
  "scan_programs fs stream program_offset program_size [] = pret ()"
| "scan_programs fs stream program_offset program_size (index # rest) =
     pthen (kf_seek fs stream (program_offset + int index * program_size))
     (pbind (kf_read fs stream (calcsize ELF_PROGRAM_HEADER)) (\<lambda>raw_program.
      pthen (plift (check_program raw_program)) (scan_programs fs stream program_offset program_size rest)))"

definition check_stream :: "'s image_fs \<Rightarrow> int \<Rightarrow> int \<Rightarrow> ('s, unit) py" where
  "check_stream fs st_size stream =
     pbind (kf_read fs stream (calcsize ELF_HEADER)) (\<lambda>raw_header.
     pbind (plift (check_header raw_header st_size)) (\<lambda>(program_offset, program_size, program_count).
       scan_programs fs stream program_offset program_size [0..<nat program_count]))"

text \<open>\<open>except OSError\<close>: turned into a \<open>ValueError\<close>, any other exception passes.\<close>

definition os_error_as_value :: "(exn \<Rightarrow> string) \<Rightarrow> string \<Rightarrow> ('s, 'a) py \<Rightarrow> ('s, 'a) py" where
  "os_error_as_value str_error prefix m =
     phandle m (\<lambda>e. if is_OSError e then praise (ValueError (prefix @ str_error e)) else praise e)"

definition validate_kernel_image ::
  "(exn \<Rightarrow> string) \<Rightarrow> 's image_fs \<Rightarrow> string \<Rightarrow> ('s, string) py" where
  "validate_kernel_image str_error fs path =
     pbind (os_error_as_value str_error (''kernel image is unavailable: '' @ path @ '': '')
              (pbind (kf_resolve fs path) (\<lambda>resolved.
               pbind (kf_stat fs resolved) (\<lambda>metadata. pret (resolved, metadata)))))
       (\<lambda>(resolved, st_mode, st_size).
     if \<not> S_ISREG st_mode then praise (ValueError (''kernel image is not a regular file: '' @ resolved))
     else pbind (kf_access fs resolved) (\<lambda>executable.
     if \<not> executable then praise (ValueError (''kernel image is not executable: '' @ resolved))
     else pthen (os_error_as_value str_error (''kernel image cannot be read: '' @ resolved @ '': '')
                   (pbind (kf_open fs resolved) (\<lambda>stream.
                      pfinally (check_stream fs st_size stream) (kf_close fs stream))))
       (pret resolved)))"

section \<open>The format\<close>

text \<open>The little-endian number of \<open>n\<close> bytes at an offset of the image.\<close>

definition number_at :: "bytes \<Rightarrow> nat \<Rightarrow> nat \<Rightarrow> nat" where
  "number_at img offset n = le_val (take n (drop offset img))"

definition static_executable :: "bytes \<Rightarrow> bool" where
  "static_executable img \<longleftrightarrow>
     (let offset = number_at img 32 8; size = number_at img 54 2; entries = number_at img 56 2
      in 64 \<le> length img
         \<and> take 4 img = [0x7F, 0x45, 0x4C, 0x46] \<and> img ! 4 = 2 \<and> img ! 5 = 1
         \<and> number_at img 16 2 = 2 \<and> number_at img 18 2 = 62 \<and> number_at img 20 4 = 1
         \<and> number_at img 24 8 \<noteq> 0 \<and> number_at img 52 2 = 64
         \<and> 0 < entries \<and> 56 \<le> size \<and> 64 \<le> offset \<and> offset + size * entries \<le> length img
         \<and> (\<forall>i < entries. number_at img (offset + i * size) 4 \<noteq> 3))"

text \<open>What is known of a readable file whose content is \<open>img\<close>; \<open>pos\<close> is the position of a stream.\<close>

definition image_file ::
  "'s image_fs \<Rightarrow> string \<Rightarrow> string \<Rightarrow> nat \<Rightarrow> bool \<Rightarrow> bytes \<Rightarrow> ('s \<Rightarrow> int \<Rightarrow> nat) \<Rightarrow> bool" where
  "image_file fs path resolved mode executable img pos \<longleftrightarrow>
     (\<forall>s. \<exists>s'. kf_resolve fs path s = (Inr resolved, s'))
     \<and> (\<forall>s. \<exists>s'. kf_stat fs resolved s = (Inr (mode, int (length img)), s'))
     \<and> (\<forall>s. \<exists>s'. kf_access fs resolved s = (Inr executable, s'))
     \<and> (\<forall>s. \<exists>h s'. kf_open fs resolved s = (Inr h, s') \<and> pos s' h = 0)
     \<and> (\<forall>h n s. \<exists>s'. kf_read fs h n s = (Inr (take n (drop (pos s h) img)), s'))
     \<and> (\<forall>h k s. \<exists>s'. kf_seek fs h (int k) s = (Inr (), s') \<and> pos s' h = k)
     \<and> (\<forall>h s. \<exists>s'. kf_close fs h s = (Inr (), s'))"

lemma image_fileD:
  assumes "image_file fs path resolved mode executable img pos"
  obtains s1 s2 s3 where "kf_resolve fs path s = (Inr resolved, s1)"
    "kf_stat fs resolved s = (Inr (mode, int (length img)), s2)" "kf_access fs resolved s = (Inr executable, s3)"
  using assms unfolding image_file_def by metis

lemma image_stream:
  assumes "image_file fs path resolved mode executable img pos"
  shows "\<exists>h s'. kf_open fs resolved s = (Inr h, s') \<and> pos s' h = 0"
    "\<exists>s'. kf_read fs h n s = (Inr (take n (drop (pos s h) img)), s')"
    "\<exists>s'. kf_seek fs h (int k) s = (Inr (), s') \<and> pos s' h = k"
    "\<exists>s'. kf_close fs h s = (Inr (), s')"
  using assms unfolding image_file_def by blast+

lemma check_header_iff:
  "check_header (take 64 img) (int (length img)) = Inr t \<longleftrightarrow>
     64 \<le> length img \<and> take 4 img = [0x7F, 0x45, 0x4C, 0x46] \<and> img ! 4 = 2 \<and> img ! 5 = 1
     \<and> number_at img 16 2 = 2 \<and> number_at img 18 2 = 62 \<and> number_at img 20 4 = 1
     \<and> number_at img 24 8 \<noteq> 0 \<and> number_at img 52 2 = 64
     \<and> 0 < number_at img 56 2 \<and> 56 \<le> number_at img 54 2 \<and> 64 \<le> number_at img 32 8
     \<and> number_at img 32 8 + number_at img 54 2 * number_at img 56 2 \<le> length img
     \<and> t = (int (number_at img 32 8), int (number_at img 54 2), int (number_at img 56 2))"
proof (cases "64 \<le> length img")
  case True
  have u: "unpack_fields ELF_HEADER (take 64 img) =
     VB (take 16 img) # map (\<lambda>(k, n). VI (int (number_at img k n)))
       [(16, 2), (18, 2), (20, 4), (24, 8), (32, 8), (40, 8), (48, 4), (52, 2), (54, 2), (56, 2), (58, 2), (60, 2), (62, 2)]"
    by (simp add: ELF_HEADER_def number_at_def unsigned_val_def drop_take)
  have i: "uint (img ! 4) = 2 \<longleftrightarrow> img ! 4 = 2" "uint (img ! 5) = 1 \<longleftrightarrow> img ! 5 = 1"
    by (auto simp: word_uint_eq_iff)
  have e: "int a = 2 \<longleftrightarrow> a = 2" "int a = 62 \<longleftrightarrow> a = 62" "int a = 1 \<longleftrightarrow> a = 1" "int a = 64 \<longleftrightarrow> a = 64"
    "int a + int b * int c \<le> int (length img) \<longleftrightarrow> a + b * c \<le> length img" "int a < 56 \<longleftrightarrow> a < 56" "int a < 64 \<longleftrightarrow> a < 64" for a b c
    by (auto simp flip: of_nat_mult of_nat_add)
  show ?thesis
    using True
    by (simp add: check_header_def u rbind_eq_Inr elf_sizes i e ELFCLASS64_def ELFDATA2LSB_def ET_EXEC_def
        EM_X86_64_def not_less Let_def) blast
next
  case False
  then show ?thesis by (simp add: check_header_def elf_sizes)
qed

lemma check_program_iff:
  "check_program raw = Inr () \<longleftrightarrow> length raw = 56 \<and> le_val (take 4 raw) \<noteq> 3"
proof -
  have unpack_program: "unpack_fields ELF_PROGRAM_HEADER raw ! 0 = VI (unsigned_val (take 4 raw))"
    by (simp add: ELF_PROGRAM_HEADER_def)
  have "int a = 3 \<longleftrightarrow> a = 3" for a by auto
  then show ?thesis
    by (simp add: check_program_def rbind_eq_Inr elf_sizes unpack_program PT_INTERP_def unsigned_val_def)
qed

lemma scan_programs_iff:
  assumes "image_file fs path resolved mode executable img pos"
    "\<And>i. i \<in> set is \<Longrightarrow> offset + i * stride + 56 \<le> length img"
  shows "(\<exists>s'. scan_programs fs h (int offset) (int stride) is s = (Inr (), s')) \<longleftrightarrow>
      (\<forall>i \<in> set is. number_at img (offset + i * stride) 4 \<noteq> 3)"
  using assms(2)
proof (induction "is" arbitrary: s)
  case (Cons i rest)
  let ?k = "offset + i * stride"
  obtain s1 where s1: "kf_seek fs h (int ?k) s = (Inr (), s1)" "pos s1 h = ?k"
    using image_stream(3) [OF assms(1)] by blast
  obtain s2 where s2: "kf_read fs h 56 s1 = (Inr (take 56 (drop ?k img)), s2)"
    using image_stream(2) [OF assms(1)] s1(2) by metis
  have l: "length (take 56 (drop ?k img)) = 56" using Cons.prems [of i] by simp
  then have c: "check_program (take 56 (drop ?k img)) = Inr () \<longleftrightarrow> number_at img ?k 4 \<noteq> 3"
    by (simp add: check_program_iff number_at_def min_def)
  have seek: "kf_seek fs h (int offset + int i * int stride) s = (Inr (), s1)" using s1(1) by simp
  have IH: "(\<exists>s'. scan_programs fs h (int offset) (int stride) rest s2 = (Inr (), s')) \<longleftrightarrow>
      (\<forall>i \<in> set rest. number_at img (offset + i * stride) 4 \<noteq> 3)" using Cons by simp
  show ?case
  proof (cases "check_program (take 56 (drop ?k img))")
    case (Inr u)
    with c IH s2 seek show ?thesis by (simp add: pthen_def pbind_def plift_def praise_def elf_sizes)
  next
    case (Inl e)
    with c s2 seek show ?thesis by (simp add: pthen_def pbind_def plift_def praise_def elf_sizes)
  qed
qed (simp add: pret_def)

lemma check_stream_iff:
  assumes "image_file fs path resolved mode executable img pos" "pos s h = 0"
  shows "(\<exists>s'. check_stream fs (int (length img)) h s = (Inr (), s')) \<longleftrightarrow> static_executable img"
proof -
  obtain s1 where s1: "kf_read fs h 64 s = (Inr (take 64 img), s1)"
    using image_stream(2) [OF assms(1), of h 64 s] assms(2) by auto
  let ?o = "number_at img 32 8" and ?z = "number_at img 54 2" and ?n = "number_at img 56 2"
  show ?thesis
  proof (cases "check_header (take 64 img) (int (length img))")
    case (Inl e)
    then have "\<not> static_executable img"
      using check_header_iff [of img "(int ?o, int ?z, int ?n)"] by (auto simp: static_executable_def Let_def)
    with Inl s1 show ?thesis by (simp add: check_stream_def pbind_def plift_def praise_def elf_sizes)
  next
    case (Inr t)
    note h = Inr [unfolded check_header_iff]
    have "?o + i * ?z + 56 \<le> length img" if "i < ?n" for i
    proof -
      have "i * ?z + ?z \<le> ?z * ?n" using that by (metis Suc_leI mult.commute mult_Suc mult_le_mono2 add.commute)
      then show ?thesis using h by linarith
    qed
    with scan_programs_iff [OF assms(1), of "[0..<?n]" ?o ?z h s1] h
    have "(\<exists>s'. scan_programs fs h (int ?o) (int ?z) [0..<?n] s1 = (Inr (), s')) \<longleftrightarrow> static_executable img"
      by (simp add: static_executable_def Let_def Ball_def)
    with Inr h s1 show ?thesis by (simp add: check_stream_def pbind_def plift_def praise_def elf_sizes)
  qed
qed

text \<open>
  C19: A readable file is accepted exactly when it is a regular executable file whose content is a
  64-bit little-endian x86-64 executable image with a complete program-header table of which no
  entry asks for an interpreter; the resolved path is returned.
\<close>

theorem validate_kernel_image_iff:
  assumes "image_file fs path resolved mode executable img pos"
  shows "(\<exists>s'. validate_kernel_image str_error fs path s = (Inr p, s')) \<longleftrightarrow>
    p = resolved \<and> S_ISREG mode \<and> executable \<and> static_executable img"
proof -
  obtain s1 where s1: "kf_resolve fs path s = (Inr resolved, s1)" by (rule image_fileD [OF assms])
  obtain s2 where s2: "kf_stat fs resolved s1 = (Inr (mode, int (length img)), s2)" by (rule image_fileD [OF assms])
  obtain s3 where s3: "kf_access fs resolved s2 = (Inr executable, s3)" by (rule image_fileD [OF assms])
  obtain h s4 where s4: "kf_open fs resolved s3 = (Inr h, s4)" "pos s4 h = 0" using image_stream(1) [OF assms] by blast
  obtain r s5 where s5: "check_stream fs (int (length img)) h s4 = (r, s5)"
    by (cases "check_stream fs (int (length img)) h s4")
  obtain s6 where s6: "kf_close fs h s5 = (Inr (), s6)" using image_stream(4) [OF assms] by blast
  from check_stream_iff [OF assms s4(2)] s5 have r: "(r = Inr ()) \<longleftrightarrow> static_executable img" by auto
  note run = validate_kernel_image_def os_error_as_value_def pbind_def phandle_def pret_def pthen_def pfinally_def
    praise_def
  show ?thesis
  proof (cases r)
    case (Inr u)
    with r s1 s2 s3 s4(1) s5 s6 show ?thesis by (simp add: run) blast
  next
    case (Inl e)
    with r s1 s2 s3 s4(1) s5 s6 show ?thesis by (simp add: run)
  qed
qed

section \<open>Streams are closed\<close>

text \<open>\<open>open\<close> gives a stream that was not open, \<open>close\<close> gives it back, no other call changes that.\<close>

definition stream_table :: "'s image_fs \<Rightarrow> ('s \<Rightarrow> int set) \<Rightarrow> bool" where
  "stream_table fs streams \<longleftrightarrow>
     (\<forall>p s h s'. kf_open fs p s = (Inr h, s') \<longrightarrow> h \<notin> streams s \<and> streams s' = insert h (streams s))
     \<and> (\<forall>p s e s'. kf_open fs p s = (Inl e, s') \<longrightarrow> streams s' = streams s)
     \<and> (\<forall>h s r s'. kf_close fs h s = (r, s') \<longrightarrow> streams s' = streams s - {h})
     \<and> (\<forall>p. keeps streams (kf_resolve fs p)) \<and> (\<forall>p. keeps streams (kf_stat fs p))
     \<and> (\<forall>p. keeps streams (kf_access fs p)) \<and> (\<forall>h n. keeps streams (kf_read fs h n))
     \<and> (\<forall>h k. keeps streams (kf_seek fs h k))"

lemma stream_tableD:
  assumes "stream_table fs streams"
  shows "kf_open fs p s = (Inr h, s') \<Longrightarrow> h \<notin> streams s \<and> streams s' = insert h (streams s)"
    "kf_open fs p s = (Inl e, s') \<Longrightarrow> streams s' = streams s"
    "kf_close fs h s = (r, s') \<Longrightarrow> streams s' = streams s - {h}"
    "keeps streams (kf_resolve fs p)" "keeps streams (kf_stat fs p)" "keeps streams (kf_access fs p)"
    "keeps streams (kf_read fs h n)" "keeps streams (kf_seek fs h k)"
  using assms unfolding stream_table_def by metis+

lemma keeps_check_stream:
  assumes "\<And>h n. keeps obs (kf_read fs h n)" "\<And>h k. keeps obs (kf_seek fs h k)"
  shows "keeps obs (check_stream fs st_size stream)"
proof -
  have "keeps obs (scan_programs fs stream o1 o2 is)" for o1 o2 "is"
    by (induction "is") (auto intro!: keeps_intros assms)
  then show ?thesis
    unfolding check_stream_def by (auto intro!: keeps_intros assms split: prod.split)
qed

lemma keeps_image_stream:
  assumes "stream_table fs streams"
  shows "keeps streams (pbind (kf_open fs p) (\<lambda>stream. pfinally (check_stream fs z stream) (kf_close fs stream)))"
proof (rule keepsI)
  fix s r s'
  assume run: "pbind (kf_open fs p) (\<lambda>stream. pfinally (check_stream fs z stream) (kf_close fs stream)) s = (r, s')"
  obtain o1 s1 where o1: "kf_open fs p s = (o1, s1)" by (cases "kf_open fs p s")
  show "streams s' = streams s"
  proof (cases o1)
    case (Inl e)
    with o1 run have "s' = s1" by (simp add: pbind_def)
    with stream_tableD(2) [OF assms o1 [unfolded Inl]] show ?thesis by simp
  next
    case (Inr h)
    from stream_tableD(1) [OF assms o1 [unfolded Inr]]
    have h: "h \<notin> streams s" "streams s1 = insert h (streams s)" by simp_all
    obtain r2 s2 where s2: "check_stream fs z h s1 = (r2, s2)" by (cases "check_stream fs z h s1")
    obtain r3 s3 where s3: "kf_close fs h s2 = (r3, s3)" by (cases "kf_close fs h s2")
    have "keeps streams (check_stream fs z h)"
      by (intro keeps_check_stream stream_tableD [OF assms])
    from keepsD [OF this s2] have "streams s2 = streams s1" .
    moreover have "streams s3 = streams s2 - {h}" by (rule stream_tableD(3) [OF assms s3])
    moreover have "s' = s3" using run o1 Inr s2 s3 by (simp add: pbind_def pfinally_def split: sum.splits)
    ultimately show ?thesis using h by auto
  qed
qed

text \<open>
  C37: Whatever the check finds and whatever fails while it reads the image, the stream that it
  opened is closed again.
\<close>

theorem validate_kernel_image_closes:
  assumes "stream_table fs streams" "validate_kernel_image str_error fs path s = (r, s')"
  shows "streams s' = streams s"
proof -
  have "keeps streams (validate_kernel_image str_error fs path)"
    unfolding validate_kernel_image_def os_error_as_value_def case_prod_unfold
    by (intro keeps_intros keeps_image_stream [OF assms(1)] stream_tableD(4-6) [OF assms(1)])
  from keepsD [OF this assms(2)] show ?thesis .
qed

section \<open>A small image\<close>

definition small_image :: "nat \<Rightarrow> bytes" where
  "small_image program_type =
     [0x7F, 0x45, 0x4C, 0x46, 2, 1] @ replicate 10 0 @ le_bytes 2 2 @ le_bytes 2 62 @ le_bytes 4 1
     @ le_bytes 8 1 @ le_bytes 8 64 @ le_bytes 8 0 @ le_bytes 4 0 @ le_bytes 2 64 @ le_bytes 2 56
     @ le_bytes 2 1 @ le_bytes 2 0 @ le_bytes 2 0 @ le_bytes 2 0 @ le_bytes 4 program_type @ replicate 52 0"

text \<open>A file system with one stream: whether it is open, and its position.\<close>

definition small_fs :: "bytes \<Rightarrow> (bool \<times> nat) image_fs" where
  "small_fs img =
     \<lparr>kf_resolve = (\<lambda>p. pret (''/'' @ p)), kf_stat = (\<lambda>p. pret (33261, int (length img))),
      kf_access = (\<lambda>p. pret True),
      kf_open = (\<lambda>p s. if fst s then (Inl (OSError PlainOSError (Some 24) ''Too many open files''), s)
                       else (Inr 3, (True, 0))),
      kf_read = (\<lambda>h n s. (Inr (take n (drop (snd s) img)), (fst s, snd s + n))),
      kf_seek = (\<lambda>h k s. (Inr (), (fst s, nat k))), kf_close = (\<lambda>h s. (Inr (), (if h = 3 then False else fst s, snd s)))\<rparr>"

lemma small_fs_table: "stream_table (small_fs img) (\<lambda>s. if fst s then {3} else {})"
  by (auto simp: stream_table_def small_fs_def pret_def intro!: keepsI split: if_splits)

theorem validate_kernel_image_closes_witness:
  "fst (snd (validate_kernel_image (\<lambda>_. []) (small_fs []) ''vmlinux'' (False, 0))) = False"
proof -
  obtain r s' where r: "validate_kernel_image (\<lambda>_. []) (small_fs []) ''vmlinux'' (False, 0) = (r, s')"
    by (cases "validate_kernel_image (\<lambda>_. []) (small_fs []) ''vmlinux'' (False, 0)")
  from validate_kernel_image_closes [OF small_fs_table r] r show ?thesis by (simp split: if_splits)
qed

text \<open>A file system that always opens; its state is the position of the last stream.\<close>

definition open_fs :: "bytes \<Rightarrow> nat image_fs" where
  "open_fs img =
     \<lparr>kf_resolve = (\<lambda>p. pret (''/'' @ p)), kf_stat = (\<lambda>p. pret (33261, int (length img))),
      kf_access = (\<lambda>p. pret True), kf_open = (\<lambda>p s. (Inr 3, 0)),
      kf_read = (\<lambda>h n s. (Inr (take n (drop s img)), s + n)),
      kf_seek = (\<lambda>h k s. (Inr (), nat k)), kf_close = (\<lambda>h. pret ())\<rparr>"

lemma open_fs_file: "image_file (open_fs img) p (''/'' @ p) 33261 True img (\<lambda>s h. s)"
  by (simp add: image_file_def open_fs_def pret_def)

lemma list_numerals:
  "le_bytes (numeral k) n = of_nat (n mod 256) # le_bytes (pred_numeral k) (n div 256)"
  "replicate (numeral k) x = x # replicate (pred_numeral k) x"
  unfolding numeral_eq_Suc [of k] by simp_all

lemma small_image_bytes:
  "small_image t = [0x7F, 0x45, 0x4C, 0x46, 2, 1, 0, 0, 0, 0, 0, 0, 0, 0, 0, 0, 2, 0, 62, 0, 1, 0, 0, 0,
     1, 0, 0, 0, 0, 0, 0, 0, 64, 0, 0, 0, 0, 0, 0, 0, 0, 0, 0, 0, 0, 0, 0, 0, 0, 0, 0, 0, 64, 0, 56, 0, 1, 0,
     0, 0, 0, 0, 0, 0] @ le_bytes 4 t @ replicate 52 0"
  by (simp add: small_image_def list_numerals)

lemma small_image_static: "static_executable (small_image t) \<longleftrightarrow> t mod 256 ^ 4 \<noteq> 3"
  unfolding small_image_bytes
  by (simp add: static_executable_def number_at_def Let_def le_val_le_bytes)

theorem validate_kernel_image_iff_witness:
  "(\<exists>s'. validate_kernel_image (\<lambda>_. []) (open_fs (small_image 1)) ''vmlinux'' 0 = (Inr ''/vmlinux'', s'))
   \<and> \<not> (\<exists>s'. validate_kernel_image (\<lambda>_. []) (open_fs (small_image 3)) ''vmlinux'' 0 = (Inr ''/vmlinux'', s'))"
proof -
  have m: "S_ISREG 33261" by (simp add: S_ISREG_def)
  show ?thesis
    using validate_kernel_image_iff [OF open_fs_file [of "small_image 1" "''vmlinux''"], of "\<lambda>_. []" 0 "''/vmlinux''"]
      validate_kernel_image_iff [OF open_fs_file [of "small_image 3" "''vmlinux''"], of "\<lambda>_. []" 0 "''/vmlinux''"]
      m by (simp add: small_image_static)
qed

end
