(* ===== verification/Runtime.thy ===== *)
theory Runtime
  imports Service_Config Control
begin

text \<open>
  The hosted runtime (\<^verbatim>\<open>EventEmitter\<close> and \<^verbatim>\<open>HostedKernelRuntime\<close> of \<^verbatim>\<open>tools/tcpcc_cli.py\<close>): starting
  the kernel process and its listener, accepting connections and handing them to bridges,
  reaping bridges, draining them and shutting the kernel down.

  The state is the world \<open>'s\<close> and the fields of the object.  A process and a control channel are
  records of operations on the world, as the protocols \<^verbatim>\<open>Process\<close> and \<^verbatim>\<open>ControlChannel\<close> have them;
  what the source injects is in \<open>runtime_env\<close>, together with the order in which Python walks a set
  of handles and the text of a float.

  The loops of \<^verbatim>\<open>_accept_available\<close>, \<^verbatim>\<open>serve\<close> and \<^verbatim>\<open>_drain_bridges\<close> need not end.  They take a bound
  on their rounds and return whether they ended within it; a caller does nothing more when they did not.
\<close>

section \<open>Events\<close>

definition EVENT_SCHEMA :: string where "EVENT_SCHEMA = ''tcpcc.runtime.v1''"

record 's emitter =
  em_event :: "string \<Rightarrow> (string \<times> json) list \<Rightarrow> ('s, unit) py"
  em_diagnostic :: "string \<Rightarrow> ('s, unit) py"

text \<open>The lines that \<open>EventEmitter\<close> prints; printing to the two streams is an argument.\<close>

definition event_line :: "string \<Rightarrow> (string \<times> json) list \<Rightarrow> string" where
  "event_line event fields_of =
     json_dumps (JObj ([(''schema'', JStr EVENT_SCHEMA), (''event'', JStr event)] @ fields_of))"

definition diagnostic_line :: "string \<Rightarrow> string" where
  "diagnostic_line message = ''tcpcc: '' @ message"

definition EventEmitter :: "(string \<Rightarrow> ('s, unit) py) \<Rightarrow> (string \<Rightarrow> ('s, unit) py) \<Rightarrow> 's emitter" where
  "EventEmitter output diagnostics =
     \<lparr>em_event = (\<lambda>event fields_of. output (event_line event fields_of)),
      em_diagnostic = (\<lambda>message. diagnostics (diagnostic_line message))\<rparr>"

section \<open>The object\<close>

definition DEFAULT_KERNEL_SHUTDOWN_TIMEOUT :: rat where "DEFAULT_KERNEL_SHUTDOWN_TIMEOUT = 10"
definition BRIDGE_BUFFER_LIMIT :: int where "BRIDGE_BUFFER_LIMIT = 16 * 1024"
definition BRIDGE_TOTAL_BUFFER_LIMIT :: int where "BRIDGE_TOTAL_BUFFER_LIMIT = 256 * 1024"
definition BRIDGE_JOIN_POLL_MS :: int where "BRIDGE_JOIN_POLL_MS = 1"
definition BRIDGE_DRAIN_JOIN_SLICE_MS :: int where "BRIDGE_DRAIN_JOIN_SLICE_MS = 50"
definition BRIDGE_SHUTDOWN_JOIN_MS :: int where "BRIDGE_SHUTDOWN_JOIN_MS = 5000"
definition HOST_EVENT_ERROR :: int where "HOST_EVENT_ERROR = 8"

text \<open>Error numbers on Linux; \<open>EWOULDBLOCK\<close> is \<open>EAGAIN\<close> there.\<close>

definition ENOENT :: int where "ENOENT = 2"
definition EBADF :: int where "EBADF = 9"
definition EAGAIN :: int where "EAGAIN = 11"
definition EWOULDBLOCK :: int where "EWOULDBLOCK = 11"
definition ETIMEDOUT :: int where "ETIMEDOUT = 110"

type_synonym 's channel = "int \<Rightarrow> int \<Rightarrow> int \<Rightarrow> int \<Rightarrow> bytes \<Rightarrow> int list \<Rightarrow> ('s, ControlResponse) py"

text \<open>A pipe is its \<open>close\<close> method, \<open>None\<close> where the process has no such pipe.\<close>

record 's process =
  p_pid :: int
  p_stdin :: "'s callback option"
  p_stdout :: "'s callback option"
  p_poll :: "('s, int option) py"
  p_wait :: "rat \<Rightarrow> ('s, int) py"
  p_terminate :: "('s, unit) py"
  p_kill :: "('s, unit) py"

record 's stop_request =
  st_requested :: "('s, bool) py"
  st_requested_signal :: "('s, int option) py"
  st_wait :: "rat \<Rightarrow> ('s, bool) py"

record 's runtime_env =
  re_emitter :: "'s emitter"
  re_process_factory :: "string list \<Rightarrow> int \<Rightarrow> ('s, 's process) py"
  re_control_factory :: "'s process \<Rightarrow> ('s, 's channel) py"
  re_shutdown_timeout :: rat
  re_clock :: "('s, rat) py"
  re_order :: "int set \<Rightarrow> int list"
  re_float :: "rat \<Rightarrow> string"
  re_strerror :: "int \<Rightarrow> string option"

record 's runtime =
  rt_process :: "'s process option"
  rt_control :: "'s channel option"
  rt_ifindex :: "int option"
  rt_listener_handle :: "int option"
  rt_active_bridges :: "int set"
  rt_l3_attached :: bool
  rt_closed :: bool

definition HostedKernelRuntime :: "'s runtime" where
  "HostedKernelRuntime =
     \<lparr>rt_process = None, rt_control = None, rt_ifindex = None, rt_listener_handle = None,
      rt_active_bridges = {}, rt_l3_attached = False, rt_closed = False\<rparr>"

type_synonym ('s, 'a) rpy = "('s \<times> 's runtime, 'a) py"

definition rt_get :: "('s runtime \<Rightarrow> 'a) \<Rightarrow> ('s, 'a) rpy" where
  "rt_get f t = (Inr (f (snd t)), t)"

definition rt_mod :: "('s runtime \<Rightarrow> 's runtime) \<Rightarrow> ('s, unit) rpy" where
  "rt_mod f t = (Inr (), (fst t, f (snd t)))"

definition runtime_pid :: "('s, int) rpy" where
  "runtime_pid t =
     (case rt_process (snd t) of
        None \<Rightarrow> (Inl (RuntimeError ''hosted process has not started''), t)
      | Some p \<Rightarrow> (Inr (p_pid p), t))"

definition channel :: "('s, 's channel) rpy" where
  "channel t =
     (case rt_control (snd t) of
        None \<Rightarrow> (Inl (RuntimeError ''hosted control channel has not started''), t)
      | Some c \<Rightarrow> (Inr c, t))"

text \<open>\<open>self._channel().transact(operation, handle, arg0, arg1, data, allowed_statuses)\<close>.\<close>

definition rt_transact :: "int \<Rightarrow> int \<Rightarrow> int \<Rightarrow> int \<Rightarrow> bytes \<Rightarrow> int list \<Rightarrow> ('s, ControlResponse) rpy" where
  "rt_transact operation handle arg0 arg1 data allowed =
     pbind channel (\<lambda>c. on_fst (c operation handle arg0 arg1 data allowed))"

definition emit :: "'s runtime_env \<Rightarrow> string \<Rightarrow> (string \<times> json) list \<Rightarrow> ('s, unit) rpy" where
  "emit env event fields_of = on_fst (em_event (re_emitter env) event fields_of)"

definition diagnose :: "'s runtime_env \<Rightarrow> string \<Rightarrow> ('s, unit) rpy" where
  "diagnose env message = on_fst (em_diagnostic (re_emitter env) message)"

section \<open>Starting\<close>

definition decode_ascii :: "bytes \<Rightarrow> string option" where
  "decode_ascii b =
     (if list_all (\<lambda>x. unat x < 128) b then Some (map (\<lambda>x. char_of (unat x)) b) else None)"

definition verify_cc :: "ServiceConfig \<Rightarrow> int \<Rightarrow> string \<Rightarrow> ('s, unit) rpy" where
  "verify_cc config handle label =
     pbind (rt_transact OP_GET_CC handle 0 0 [] [0]) (\<lambda>response.
       case decode_ascii (cr_data response) of
         None \<Rightarrow> praise (ControlProtocolError (''hosted '' @ label @ '' returned a non-ASCII congestion-control name''))
       | Some observed \<Rightarrow>
           (if observed \<noteq> sc_cc config
            then praise (ControlProtocolError (''hosted '' @ label @ '' congestion control is '' @ py_repr observed
                   @ '', '' @ ''expected '' @ py_repr (sc_cc config)))
            else pret ()))"

definition start_process :: "'s runtime_env \<Rightarrow> ServiceConfig \<Rightarrow> int \<Rightarrow> ('s, unit) rpy" where
  "start_process env config tun_fd =
     pbind (on_fst (re_process_factory env
              [sc_kernel config, ''--memory-mib='' @ str_int (sc_memory_mib config)] tun_fd)) (\<lambda>p.
     pthen (rt_mod (\<lambda>rt. rt\<lparr>rt_process := Some p\<rparr>))
     (if Option.is_none (p_stdin p) \<or> Option.is_none (p_stdout p)
      then praise (RuntimeError ''hosted process did not expose control pipes'')
      else pbind (on_fst (re_control_factory env p)) (\<lambda>c. rt_mod (\<lambda>rt. rt\<lparr>rt_control := Some c\<rparr>))))"

definition attach_l3 :: "ServiceConfig \<Rightarrow> int \<Rightarrow> ('s, unit) rpy" where
  "attach_l3 config tun_fd =
     pbind (plift (parse_address (sc_tun_guest_address config))) (\<lambda>guest_ip.
     pbind channel (\<lambda>c.
     pbind (plift (encode_l3_config (PStr (sc_tun_guest_address config)) (PInt (max_prefixlen guest_ip)))) (\<lambda>data.
     pbind (on_fst (c OP_L3_ATTACH_IP tun_fd 0 0 data [0])) (\<lambda>response.
       if cr_handle response \<le> 0
       then praise (ControlProtocolError (''hosted L3 attach returned invalid ifindex '' @ str_int (cr_handle response)))
       else rt_mod (\<lambda>rt. rt\<lparr>rt_ifindex := Some (cr_handle response), rt_l3_attached := True\<rparr>)))))"

definition open_listener :: "ServiceConfig \<Rightarrow> ('s, unit) rpy" where
  "open_listener config =
     pbind channel (\<lambda>c.
     pbind (plift (Endpoint_version (sc_listen config))) (\<lambda>version.
     pbind (on_fst (c OP_SOCKET_IP 0 version 0 [] [0])) (\<lambda>response.
     if cr_handle response \<le> 0
     then praise (ControlProtocolError (''hosted socket returned invalid handle '' @ str_int (cr_handle response)))
     else let listener = cr_handle response in
       pthen (rt_mod (\<lambda>rt. rt\<lparr>rt_listener_handle := Some listener\<rparr>))
       (pthen (rt_transact OP_SET_CC listener 0 0 (encode_ascii (sc_cc config)) [0])
       (pthen (verify_cc config listener ''listener'')
       (pbind channel (\<lambda>c2.
        pbind (plift (encode_ip_endpoint (PStr (sc_tun_guest_address config)) (PInt (ep_port (sc_listen config))))) (\<lambda>data.
        pthen (on_fst (c2 OP_BIND_IP listener 0 0 data [0]))
        (pthen (rt_transact OP_LISTEN listener (sc_backlog config) 0 [] [0])
          (pret ()))))))))))"

definition start :: "'s runtime_env \<Rightarrow> ServiceConfig \<Rightarrow> int \<Rightarrow> ('s, unit) rpy" where
  "start env config tun_fd =
     pbind (rt_get rt_process) (\<lambda>p.
     if \<not> Option.is_none p then praise (RuntimeError ''hosted runtime is already started'')
     else if tun_fd < 3 then praise (ValueError ''TUN fd must be an inherited descriptor of at least 3'')
     else pthen (start_process env config tun_fd)
       (pthen (attach_l3 config tun_fd) (open_listener config)))"

section \<open>Bridges\<close>

text \<open>\<open>except ControlOperationError as error\<close>: the status that the error carries.\<close>

fun operation_status :: "exn \<Rightarrow> int option" where
  "operation_status (ControlOperationError operation st) = Some st"
| "operation_status _ = None"

definition ensure_running :: "('s, unit) rpy" where
  "ensure_running t =
     (case rt_process (snd t) of
        None \<Rightarrow> (Inl (RuntimeError ''hosted process has not started''), t)
      | Some p \<Rightarrow>
          pbind (on_fst (p_poll p)) (\<lambda>st. case st of
             None \<Rightarrow> pret ()
           | Some code \<Rightarrow> praise (RuntimeExitedError (''hosted kernel exited unexpectedly with status '' @ str_int code))) t)"

definition validate_bridge_contract :: "BridgeResult \<Rightarrow> exn + unit" where
  "validate_bridge_contract result =
     rbind (rguard (br_session_limit result = BRIDGE_SESSION_LIMIT)
              (ControlProtocolError (''hosted bridge session limit is '' @ str_int (br_session_limit result)
                 @ '', '' @ ''expected '' @ str_int BRIDGE_SESSION_LIMIT))) (\<lambda>_.
     rbind (rguard (br_buffer_limit result = BRIDGE_BUFFER_LIMIT
                    \<and> br_total_buffer_limit result = BRIDGE_TOTAL_BUFFER_LIMIT)
              (ControlProtocolError ''hosted bridge buffer contract changed'')) (\<lambda>_.
       rguard (br_status result \<noteq> 0 \<or> and (br_terminal_events result) HOST_EVENT_ERROR = 0)
         (ControlProtocolError ''successful hosted bridge result contains a host error event'')))"

definition discard_bridge :: "int \<Rightarrow> ('s, unit) rpy" where
  "discard_bridge handle = rt_mod (\<lambda>rt. rt\<lparr>rt_active_bridges := rt_active_bridges rt - {handle}\<rparr>)"

definition active_connections :: "'s runtime \<Rightarrow> int" where
  "active_connections rt = int (card (rt_active_bridges rt))"

definition bridge_failed :: "'s runtime_env \<Rightarrow> ServiceConfig \<Rightarrow> int \<Rightarrow> int \<Rightarrow> ('s, bool) rpy" where
  "bridge_failed env config handle st =
     pthen (discard_bridge handle)
     (pbind (rt_get active_connections) (\<lambda>active.
      pthen (emit env ''connection-closed''
               [(''bridge_handle'', JInt handle), (''status'', JInt st), (''active_connections'', JInt active),
                (''max_connections'', JInt (sc_max_connections config))])
      (pthen (diagnose env (''bridge '' @ str_int handle @ '' could not return its terminal result: ''
                @ ''hosted status '' @ str_int st))
        (pret True))))"

definition bridge_joined :: "'s runtime_env \<Rightarrow> ServiceConfig \<Rightarrow> int \<Rightarrow> BridgeResult \<Rightarrow> ('s, bool) rpy" where
  "bridge_joined env config handle result =
     pthen (discard_bridge handle)
     (pbind (rt_get active_connections) (\<lambda>active.
      pthen (emit env ''connection-closed''
               [(''bridge_handle'', JInt handle), (''status'', JInt (br_status result)),
                (''active_connections'', JInt active), (''max_connections'', JInt (sc_max_connections config)),
                (''public_to_backend_bytes'', JInt (br_public_to_backend_bytes result)),
                (''backend_to_public_bytes'', JInt (br_backend_to_public_bytes result)),
                (''terminal_events'', JInt (br_terminal_events result)),
                (''host_send_eagain'', JInt (br_host_send_eagain result)),
                (''host_partial_writes'', JInt (br_host_partial_writes result)),
                (''host_recv_eagain'', JInt (br_host_recv_eagain result))])
      (pthen (if br_status result \<noteq> 0
              then diagnose env (''bridge '' @ str_int handle @ '' closed with hosted status '' @ str_int (br_status result))
              else pret ())
        (pret True))))"

definition join_bridge_result :: "'s runtime_env \<Rightarrow> ServiceConfig \<Rightarrow> int \<Rightarrow> int \<Rightarrow> ('s, bool) rpy" where
  "join_bridge_result env config handle timeout_ms =
     pbind (pattempt (rt_transact OP_BRIDGE_JOIN_RESULT handle timeout_ms 0 [] [0])) (\<lambda>r.
       case r of
         Inl e \<Rightarrow>
           (case operation_status e of
              None \<Rightarrow> praise e
            | Some st \<Rightarrow> (if st = - ETIMEDOUT then pret False else bridge_failed env config handle st))
       | Inr response \<Rightarrow>
           pbind (plift (decode_bridge_result (PBytes (cr_data response)) True)) (\<lambda>result.
           pthen (plift (validate_bridge_contract result)) (bridge_joined env config handle result)))"

text \<open>A loop over a list, and one that collects what its rounds raise.\<close>

fun pfor :: "('a \<Rightarrow> ('s, unit) py) \<Rightarrow> 'a list \<Rightarrow> ('s, unit) py" where
  "pfor f [] = pret ()"
| "pfor f (x # xs) = pthen (f x) (pfor f xs)"

definition reap_bridges :: "'s runtime_env \<Rightarrow> ServiceConfig \<Rightarrow> ('s, unit) rpy" where
  "reap_bridges env config =
     pbind (rt_get rt_active_bridges) (\<lambda>active.
       pfor (\<lambda>handle. pthen (join_bridge_result env config handle BRIDGE_JOIN_POLL_MS) (pret ())) (re_order env active))"

section \<open>Accepting\<close>

text \<open>
  Hand an accepted socket to a bridge: its handle, or \<open>None\<close> where the kernel refuses to start it.
  \<open>bridge_answer\<close> is what follows the request.
\<close>

definition bridge_answer :: "'s runtime_env \<Rightarrow> ServiceConfig \<Rightarrow> exn + ControlResponse \<Rightarrow> ('s, int option) rpy" where
  "bridge_answer env config r =
     (case r of
        Inl e \<Rightarrow>
          (case operation_status e of
             None \<Rightarrow> praise e
           | Some st \<Rightarrow>
               pbind (plift (Endpoint_str (sc_backend config))) (\<lambda>backend.
               pthen (emit env ''connection-rejected'' [(''status'', JInt st), (''backend'', JStr backend)])
               (pthen (diagnose env (''could not connect an accepted flow to backend '' @ backend
                         @ '': hosted status '' @ str_int st))
                 (pret None))))
      | Inr response \<Rightarrow>
          (if cr_handle response \<le> 0
           then praise (ControlProtocolError (''bridge start returned invalid handle '' @ str_int (cr_handle response)))
           else pret (Some (cr_handle response))))"

definition offer_bridge :: "'s runtime_env \<Rightarrow> ServiceConfig \<Rightarrow> int \<Rightarrow> ('s, int option) rpy" where
  "offer_bridge env config accepted =
     pthen (verify_cc config accepted ''accepted socket'')
     (pbind (pattempt (pbind channel (\<lambda>c.
               pbind (plift (Endpoint_ipv4_u32 (sc_backend config))) (\<lambda>address.
                 on_fst (c OP_BRIDGE_START accepted address (ep_port (sc_backend config)) [] [0])))))
        (bridge_answer env config))"

definition release_accepted :: "'s runtime_env \<Rightarrow> int \<Rightarrow> ('s, unit) rpy" where
  "release_accepted env accepted =
     phandle (pthen (rt_transact OP_CLOSE accepted 0 0 [] [0, - EBADF]) (pret ()))
       (\<lambda>e. diagnose env (''accepted socket '' @ str_int accepted @ '' cleanup failed: '' @ exn_str (re_strerror env) e))"

text \<open>The \<open>try\<close> statement around an accepted socket: a socket that was not transferred is closed.\<close>

definition serve_accepted :: "'s runtime_env \<Rightarrow> ServiceConfig \<Rightarrow> int \<Rightarrow> ('s, unit) rpy" where
  "serve_accepted env config accepted =
     pbind (pattempt (offer_bridge env config accepted)) (\<lambda>r.
       case r of
         Inl e \<Rightarrow> pthen (release_accepted env accepted) (praise e)
       | Inr None \<Rightarrow> release_accepted env accepted
       | Inr (Some handle) \<Rightarrow>
           pthen (rt_mod (\<lambda>rt. rt\<lparr>rt_active_bridges := insert handle (rt_active_bridges rt)\<rparr>))
           (pbind (plift (Endpoint_str (sc_backend config))) (\<lambda>backend.
            pbind (rt_get active_connections) (\<lambda>active.
              emit env ''connection-opened''
                [(''bridge_handle'', JInt handle), (''accepted_cc'', JStr (sc_cc config)), (''backend'', JStr backend),
                 (''active_connections'', JInt active), (''max_connections'', JInt (sc_max_connections config))]))))"

text \<open>One round of the loop: whether to go on.\<close>

definition accept_one :: "'s runtime_env \<Rightarrow> ServiceConfig \<Rightarrow> int \<Rightarrow> ('s, bool) rpy" where
  "accept_one env config listener =
     pbind (pattempt (rt_transact OP_ACCEPT_NONBLOCK listener 0 0 [] [0])) (\<lambda>r.
       case r of
         Inl e \<Rightarrow>
           (if operation_status e = Some (- EAGAIN) \<or> operation_status e = Some (- EWOULDBLOCK) then pret False
            else praise e)
       | Inr response \<Rightarrow>
           (if cr_handle response \<le> 0
            then praise (ControlProtocolError (''hosted accept returned invalid handle '' @ str_int (cr_handle response)))
            else pthen (serve_accepted env config (cr_handle response)) (pret True)))"

definition admits :: "ServiceConfig \<Rightarrow> 's runtime \<Rightarrow> bool" where
  "admits config rt \<longleftrightarrow> sc_max_connections config = 0 \<or> active_connections rt < sc_max_connections config"

fun accept_loop :: "nat \<Rightarrow> 's runtime_env \<Rightarrow> ServiceConfig \<Rightarrow> int \<Rightarrow> ('s, bool) rpy" where
  "accept_loop 0 env config listener = pret False"
| "accept_loop (Suc k) env config listener =
     pbind (rt_get (admits config)) (\<lambda>ok.
       if \<not> ok then pret True
       else pbind (accept_one env config listener) (\<lambda>more.
         if more then accept_loop k env config listener else pret True))"

definition accept_available :: "nat \<Rightarrow> 's runtime_env \<Rightarrow> ServiceConfig \<Rightarrow> ('s, bool) rpy" where
  "accept_available k env config =
     pbind (rt_get rt_listener_handle) (\<lambda>h.
       case h of
         None \<Rightarrow> praise (RuntimeError ''hosted listener is unavailable'')
       | Some listener \<Rightarrow> accept_loop k env config listener)"

definition poll_once :: "nat \<Rightarrow> 's runtime_env \<Rightarrow> ServiceConfig \<Rightarrow> ('s, bool) rpy" where
  "poll_once k env config =
     pthen ensure_running (pthen (reap_bridges env config) (accept_available k env config))"

fun serve :: "nat \<Rightarrow> nat \<Rightarrow> 's runtime_env \<Rightarrow> ServiceConfig \<Rightarrow> 's stop_request \<Rightarrow> ('s, bool) rpy" where
  "serve 0 k env config stop = pret False"
| "serve (Suc n) k env config stop =
     pbind (on_fst (st_requested stop)) (\<lambda>requested.
       if requested then pret True
       else pbind (poll_once k env config) (\<lambda>finished.
         if \<not> finished then pret False
         else pthen (on_fst (st_wait stop (sc_poll_interval config))) (serve n k env config stop)))"

section \<open>Shutting down\<close>

fun is_TimeoutExpired :: "exn \<Rightarrow> bool" where
  "is_TimeoutExpired (TimeoutExpired t) = True"
| "is_TimeoutExpired _ = False"

definition force_stop :: "('s, unit) rpy" where
  "force_stop t =
     (case rt_process (snd t) of
        None \<Rightarrow> (Inr (), t)
      | Some p \<Rightarrow>
          on_fst (pbind (p_poll p) (\<lambda>st.
            if \<not> Option.is_none st then pret ()
            else pthen (p_terminate p)
              (phandle (pthen (p_wait p 2) (pret ()))
                 (\<lambda>e. if is_TimeoutExpired e then pthen (p_kill p) (pthen (p_wait p 2) (pret ())) else praise e)))) t)"

text \<open>\<open>max(1, min(BRIDGE_DRAIN_JOIN_SLICE_MS, int(remaining * 1000)))\<close>.\<close>

definition slice_ms :: "rat \<Rightarrow> int" where
  "slice_ms remaining = max 1 (min BRIDGE_DRAIN_JOIN_SLICE_MS \<lfloor>remaining * 1000\<rfloor>)"

fun drain_round :: "'s runtime_env \<Rightarrow> ServiceConfig \<Rightarrow> rat \<Rightarrow> int list \<Rightarrow> ('s, unit) rpy" where
  "drain_round env config deadline [] = pret ()"
| "drain_round env config deadline (handle # handles) =
     pbind (on_fst (re_clock env)) (\<lambda>now.
       if deadline - now \<le> 0 then pret ()
       else pthen (join_bridge_result env config handle (slice_ms (deadline - now)))
         (drain_round env config deadline handles))"

fun drain_loop :: "nat \<Rightarrow> 's runtime_env \<Rightarrow> ServiceConfig \<Rightarrow> rat \<Rightarrow> ('s, bool) rpy" where
  "drain_loop 0 env config deadline = pret False"
| "drain_loop (Suc n) env config deadline =
     pbind (rt_get rt_active_bridges) (\<lambda>active.
       if active = {} then pret True
       else pthen (drain_round env config deadline (re_order env active))
         (pbind (on_fst (re_clock env)) (\<lambda>now.
            if deadline \<le> now then pret True else drain_loop n env config deadline)))"

definition grace_seconds :: "ServiceConfig \<Rightarrow> rat" where
  "grace_seconds config = (case seconds (sc_shutdown_grace_period config) of Some q \<Rightarrow> q | None \<Rightarrow> 0)"

definition drain_expired :: "'s runtime_env \<Rightarrow> ServiceConfig \<Rightarrow> ('s, unit) rpy" where
  "drain_expired env config =
     pbind (rt_get rt_active_bridges) (\<lambda>active.
       if active = {} then pret ()
       else pthen (emit env ''drain-timeout''
                [(''remaining_connections'', JInt (int (card active))),
                 (''grace_period'', JFloat (re_float env (grace_seconds config)))])
         (diagnose env (''shutdown grace period expired with '' @ str_int (int (card active)) @ '' active connection(s)'')))"

definition drain_bridges :: "nat \<Rightarrow> 's runtime_env \<Rightarrow> ServiceConfig \<Rightarrow> ('s, bool) rpy" where
  "drain_bridges n env config =
     pbind (rt_get rt_active_bridges) (\<lambda>active.
       if active = {} then pret True
       else pthen (emit env ''draining''
                [(''active_connections'', JInt (int (card active))),
                 (''grace_period'', JFloat (re_float env (grace_seconds config)))])
         (if grace_seconds config \<le> 0 then pret True
          else pbind (on_fst (re_clock env)) (\<lambda>now.
            pbind (drain_loop n env config (now + grace_seconds config)) (\<lambda>finished.
              if \<not> finished then pret False
              else pthen (drain_expired env config) (pret True)))))"

definition failures_of :: "('s, 'a) py \<Rightarrow> ('s, exn list) py" where
  "failures_of m = pbind (pattempt m) (\<lambda>r. case r of Inl e \<Rightarrow> pret [e] | Inr _ \<Rightarrow> pret [])"

fun collect_failures :: "('a \<Rightarrow> ('s, exn list) py) \<Rightarrow> 'a list \<Rightarrow> ('s, exn list) py" where
  "collect_failures f [] = pret []"
| "collect_failures f (x # xs) =
     pbind (f x) (\<lambda>fs. pbind (collect_failures f xs) (\<lambda>gs. pret (fs @ gs)))"

definition close_listener :: "('s, exn list) rpy" where
  "close_listener =
     pbind (rt_get rt_listener_handle) (\<lambda>h.
       case h of
         None \<Rightarrow> pret []
       | Some listener \<Rightarrow>
           pthen (rt_mod (\<lambda>rt. rt\<lparr>rt_listener_handle := None\<rparr>))
             (failures_of (rt_transact OP_CLOSE listener 0 0 [] [0, - EBADF])))"

definition cancel_bridge :: "int \<Rightarrow> ('s, exn list) rpy" where
  "cancel_bridge handle = failures_of (rt_transact OP_BRIDGE_CANCEL handle 0 0 [] [0, - ENOENT])"

definition stop_bridge :: "'s runtime_env \<Rightarrow> ServiceConfig \<Rightarrow> int \<Rightarrow> ('s, exn list) rpy" where
  "stop_bridge env config handle =
     pbind (pattempt (join_bridge_result env config handle BRIDGE_SHUTDOWN_JOIN_MS)) (\<lambda>r.
     pthen (discard_bridge handle)
       (pret (case r of
           Inl e \<Rightarrow> [e]
         | Inr True \<Rightarrow> []
         | Inr False \<Rightarrow> [OSError TimeoutError None (''bridge '' @ str_int handle @ '' did not stop within ''
                          @ str_int BRIDGE_SHUTDOWN_JOIN_MS @ '' ms'')])))"

definition stop_kernel :: "'s runtime_env \<Rightarrow> 's process \<Rightarrow> ('s, exn list) rpy" where
  "stop_kernel env p =
     pbind (pattempt (pthen (rt_transact OP_SHUTDOWN 0 0 0 [] [0]) (on_fst (p_wait p (re_shutdown_timeout env))))) (\<lambda>r.
       pret (case r of
           Inl e \<Rightarrow> [e]
         | Inr st \<Rightarrow>
             (if st \<noteq> 0 then [RuntimeExitedError (''hosted kernel shutdown returned status '' @ str_int st)] else [])))"

text \<open>The branch of a kernel that is attached: \<open>None\<close> where the drain did not end within its bound.\<close>

definition orderly_stop :: "nat \<Rightarrow> 's runtime_env \<Rightarrow> ServiceConfig \<Rightarrow> 's process \<Rightarrow> ('s, exn list option) rpy" where
  "orderly_stop n env config p =
     pbind close_listener (\<lambda>f1.
     pbind (pattempt (drain_bridges n env config)) (\<lambda>drained.
     if drained = Inr False then pret None
     else let f2 = (case drained of Inl e \<Rightarrow> [e] | Inr _ \<Rightarrow> []) in
       pbind (rt_get rt_active_bridges) (\<lambda>active.
       pbind (collect_failures cancel_bridge (re_order env active)) (\<lambda>f3.
       pbind (rt_get rt_active_bridges) (\<lambda>active2.
       pbind (collect_failures (stop_bridge env config) (re_order env active2)) (\<lambda>f4.
       pbind (stop_kernel env p) (\<lambda>f5.
         pret (Some (f1 @ f2 @ f3 @ f4 @ f5)))))))))"

definition stop_by_state ::
  "nat \<Rightarrow> 's runtime_env \<Rightarrow> ServiceConfig \<Rightarrow> 's process \<Rightarrow> bool \<Rightarrow> ('s, exn list option) rpy" where
  "stop_by_state n env config p process_was_running =
     pbind (rt_get (\<lambda>rt. \<not> Option.is_none (rt_control rt) \<and> rt_l3_attached rt)) (\<lambda>attached.
       if process_was_running \<and> attached then orderly_stop n env config p
       else if process_was_running then pthen force_stop (pret (Some []))
       else pbind (on_fst (p_poll p)) (\<lambda>st.
         if st = Some 0 \<or> Option.is_none st then pret (Some [])
         else pbind (on_fst (p_poll p)) (\<lambda>st2.
           pret (Some [RuntimeExitedError (''hosted kernel was already dead during shutdown with '' @ ''status ''
             @ (case st2 of Some code \<Rightarrow> str_int code | None \<Rightarrow> ''None''))]))))"

definition close_pipe :: "'s callback option \<Rightarrow> ('s, unit) rpy" where
  "close_pipe pipe = (case pipe of None \<Rightarrow> pret () | Some close \<Rightarrow> on_fst close)"

definition finish_stop :: "'s process \<Rightarrow> ('s, exn list) rpy" where
  "finish_stop p =
     pbind (on_fst (p_poll p)) (\<lambda>st.
     pbind (if Option.is_none st then failures_of force_stop else pret []) (\<lambda>f1.
     pbind (failures_of (close_pipe (p_stdin p))) (\<lambda>f2.
     pbind (failures_of (close_pipe (p_stdout p))) (\<lambda>f3.
       pret (f1 @ f2 @ f3)))))"

text \<open>The part of \<open>shutdown\<close> for a process that was started, the \<open>finally\<close> clause included.\<close>

definition stop_process :: "nat \<Rightarrow> 's runtime_env \<Rightarrow> ServiceConfig \<Rightarrow> 's process \<Rightarrow> ('s, bool) rpy" where
  "stop_process n env config p =
     pbind (on_fst (p_poll p)) (\<lambda>st.
     pbind (pattempt (stop_by_state n env config p (Option.is_none st))) (\<lambda>r.
       case r of
         Inl e \<Rightarrow> pthen (finish_stop p) (praise e)
       | Inr stopped \<Rightarrow>
           (case stopped of
              None \<Rightarrow> pret False
            | Some f1 \<Rightarrow>
                pbind (finish_stop p) (\<lambda>f2.
                  if f1 @ f2 \<noteq> [] then praise (RuntimeCleanupError (f1 @ f2)) else pret True))))"

text \<open>\<open>shutdown\<close>: whether it ended within the bound of the drain.\<close>

definition shutdown :: "nat \<Rightarrow> 's runtime_env \<Rightarrow> ServiceConfig \<Rightarrow> ('s, bool) rpy" where
  "shutdown n env config t =
     (if rt_closed (snd t) then (Inr True, t)
      else let t1 = (fst t, (snd t)\<lparr>rt_closed := True\<rparr>) in
        case rt_process (snd t) of
          None \<Rightarrow> (Inr True, t1)
        | Some p \<Rightarrow> stop_process n env config p t1)"

end
