(* ===== verification/Runtime_Steps.thy ===== *)
theory Runtime_Steps
  imports Runtime
begin

text \<open>
  What every operation of the hosted runtime keeps, stated once for any predicate of the world and
  the object: the locales collect what the steps of the outside world and the updates of the fields
  must keep, for stopping, for starting and for serving, and the operations built from them follow.
\<close>

section \<open>What a computation returns\<close>

definition yields :: "('a \<Rightarrow> bool) \<Rightarrow> ('s, 'a) py \<Rightarrow> bool" where
  "yields P m \<longleftrightarrow> (\<forall>s x s'. m s = (Inr x, s') \<longrightarrow> P x)"

lemma yieldsD: "yields P m \<Longrightarrow> m s = (Inr x, s') \<Longrightarrow> P x"
  unfolding yields_def by blast

lemma yields_pret: "P x \<Longrightarrow> yields P (pret x)"
  unfolding yields_def pret_def by simp

lemma yields_praise: "yields P (praise e)"
  unfolding yields_def praise_def by simp

lemma yields_pbind: "(\<And>x. yields P (f x)) \<Longrightarrow> yields P (pbind m f)"
  unfolding yields_def pbind_eq_Inr by blast

lemma yields_pthen: "yields P k \<Longrightarrow> yields P (pthen m k)"
  unfolding pthen_def by (rule yields_pbind)

lemma yields_if: "(c \<Longrightarrow> yields P m) \<Longrightarrow> (\<not> c \<Longrightarrow> yields P n) \<Longrightarrow> yields P (if c then m else n)"
  by simp

lemma yields_option: "yields P m \<Longrightarrow> (\<And>x. yields P (f x)) \<Longrightarrow> yields P (case v of None \<Rightarrow> m | Some x \<Rightarrow> f x)"
  by (cases v) simp_all

lemma yields_sum: "(\<And>e. yields P (f e)) \<Longrightarrow> (\<And>x. yields P (g x)) \<Longrightarrow> yields P (case v of Inl e \<Rightarrow> f e | Inr x \<Rightarrow> g x)"
  by (cases v) simp_all

lemmas yields_intros = yields_pret yields_praise yields_pbind yields_pthen yields_if yields_option yields_sum

section \<open>Steps that leave the object alone\<close>

lemma keeps_object [keeps_intros]:
  "keeps snd channel" "keeps snd (rt_get f)" "keeps snd (rt_transact op h a0 a1 d allowed)"
  "keeps snd (emit env event members)" "keeps snd (diagnose env message)"
proof -
  show c: "keeps snd (channel :: ('s, 's channel) rpy)" for dummy :: 's
    by (rule keepsI) (auto simp: channel_def split: option.splits)
  show "keeps snd (rt_get f)" by (rule keepsI) (simp add: rt_get_def)
  show "keeps snd (rt_transact op h a0 a1 d allowed)"
    unfolding rt_transact_def by (intro keeps_pbind c keeps_snd_on_fst)
  show "keeps snd (emit env event members)" "keeps snd (diagnose env message)"
    unfolding emit_def diagnose_def by (rule keeps_snd_on_fst)+
qed

lemma keeps_field: "keeps snd m \<Longrightarrow> keeps (\<lambda>t. f (snd t)) m"
  by (rule keepsI) (drule (1) keepsD, simp)

lemma keeps_verify_cc: "keeps snd (verify_cc c h l)"
  unfolding verify_cc_def by (intro keeps_intros)

lemma keeps_offer_bridge: "keeps snd (offer_bridge env c a)"
  unfolding offer_bridge_def bridge_answer_def by (intro keeps_intros keeps_verify_cc keeps_snd_on_fst)

lemma keeps_release_accepted: "keeps snd (release_accepted env a)"
  unfolding release_accepted_def by (intro keeps_intros)

lemma offer_bridge_positive:
  assumes "offer_bridge env config a t = (Inr (Some h), t')"
  shows "0 < h"
proof -
  have "yields (\<lambda>v. \<forall>h. v = Some h \<longrightarrow> 0 < h) (offer_bridge env config a)"
    unfolding offer_bridge_def bridge_answer_def by (intro yields_intros) simp_all
  from yieldsD [OF this assms] show ?thesis by simp
qed

section \<open>Invariants\<close>

lemma preserves_pfor [preserves_intros]: "(\<And>x. preserves P (f x)) \<Longrightarrow> preserves P (pfor f xs)"
  by (induction xs) (simp_all add: preserves_pret preserves_pthen)

lemma preserves_collect [preserves_intros]: "(\<And>x. preserves P (f x)) \<Longrightarrow> preserves P (collect_failures f xs)"
  by (induction xs) (simp_all add: preserves_pret preserves_pbind)

lemma preserves_failures_of [preserves_intros]: "preserves P m \<Longrightarrow> preserves P (failures_of m)"
  unfolding failures_of_def by (intro preserves_intros)

text \<open>The calls of a process, of a channel and of what the object is constructed with.\<close>

definition process_steps :: "('s \<times> 's runtime \<Rightarrow> bool) \<Rightarrow> 's process \<Rightarrow> bool" where
  "process_steps Q p \<longleftrightarrow>
     preserves Q (on_fst (p_poll p)) \<and> (\<forall>q. preserves Q (on_fst (p_wait p q)))
     \<and> preserves Q (on_fst (p_terminate p)) \<and> preserves Q (on_fst (p_kill p))
     \<and> preserves Q (close_pipe (p_stdin p)) \<and> preserves Q (close_pipe (p_stdout p))"

definition channel_steps :: "('s \<times> 's runtime \<Rightarrow> bool) \<Rightarrow> 's channel \<Rightarrow> bool" where
  "channel_steps Q c \<longleftrightarrow> (\<forall>op h a0 a1 d allowed. preserves Q (on_fst (c op h a0 a1 d allowed)))"

definition outside_steps :: "('s \<times> 's runtime \<Rightarrow> bool) \<Rightarrow> 's runtime_env \<Rightarrow> bool" where
  "outside_steps Q env \<longleftrightarrow>
     (\<forall>event members. preserves Q (emit env event members)) \<and> (\<forall>message. preserves Q (diagnose env message))
     \<and> preserves Q (on_fst (re_clock env))"

lemma process_stepsD:
  assumes "process_steps Q p"
  shows "preserves Q (on_fst (p_poll p))" "preserves Q (on_fst (p_wait p q))" "preserves Q (on_fst (p_terminate p))"
    "preserves Q (on_fst (p_kill p))" "preserves Q (close_pipe (p_stdin p))" "preserves Q (close_pipe (p_stdout p))"
  using assms unfolding process_steps_def by blast+

lemma channel_stepsD: "channel_steps Q c \<Longrightarrow> preserves Q (on_fst (c op h a0 a1 d allowed))"
  unfolding channel_steps_def by blast

lemma outside_stepsD:
  assumes "outside_steps Q env"
  shows "preserves Q (emit env event members)" "preserves Q (diagnose env message)" "preserves Q (on_fst (re_clock env))"
  using assms unfolding outside_steps_def by blast+

lemma on_fst_pbind: "on_fst (pbind m f) = pbind (on_fst m) (\<lambda>x. on_fst (f x))"
  by (rule ext) (simp add: on_fst_def pbind_def split: prod.splits sum.splits)

lemma on_fst_pthen: "on_fst (pthen m k) = pthen (on_fst m) (on_fst k)"
  unfolding pthen_def by (rule on_fst_pbind)

lemma on_fst_if: "on_fst (if c then m else k) = (if c then on_fst m else on_fst k)"
  by simp

lemma on_fst_pret: "on_fst (pret x) = pret x" and on_fst_praise: "on_fst (praise e) = praise e"
  by (rule ext, simp add: on_fst_def pret_def praise_def)+

lemma on_fst_phandle: "on_fst (phandle m h) = phandle (on_fst m) (\<lambda>e. on_fst (h e))"
  by (rule ext) (simp add: on_fst_def phandle_def split: prod.splits sum.splits)

lemmas on_fst_steps = on_fst_pbind on_fst_pthen on_fst_if on_fst_pret on_fst_praise on_fst_phandle

locale draining_invariant =
  fixes env :: "'s runtime_env" and Q :: "'s \<times> 's runtime \<Rightarrow> bool"
  assumes discarded: "Q (s, rt) \<Longrightarrow> Q (s, rt\<lparr>rt_active_bridges := rt_active_bridges rt - {h}\<rparr>)"
    and outside: "outside_steps Q env"
    and control: "Q t \<Longrightarrow> rt_control (snd t) = Some c \<Longrightarrow> channel_steps Q c"
begin

lemma holds_get: "preserves Q (rt_get f)"
  by (rule preservesI) (simp add: rt_get_def)

lemma holds_mod: "(\<And>s rt. Q (s, rt) \<Longrightarrow> Q (s, f rt)) \<Longrightarrow> preserves Q (rt_mod f)"
  by (rule preservesI) (auto simp: rt_mod_def)

lemma holds_discard: "preserves Q (discard_bridge h)"
  unfolding discard_bridge_def by (intro holds_mod discarded)

text \<open>A step that works with the channel need only be considered for a channel of the object.\<close>

lemma holds_channel: "(\<And>c. channel_steps Q c \<Longrightarrow> preserves Q (f c)) \<Longrightarrow> preserves Q (pbind channel f)"
proof (rule preservesI)
  fix t r t'
  assume f: "\<And>c. channel_steps Q c \<Longrightarrow> preserves Q (f c)" and t: "Q t" and run: "pbind channel f t = (r, t')"
  show "Q t'"
  proof (cases "rt_control (snd t)")
    case None
    with run t show ?thesis by (simp add: pbind_def channel_def)
  next
    case (Some c)
    with run have "f c t = (r, t')" by (simp add: pbind_def channel_def)
    from preservesD [OF f [OF control [OF t Some]] this t] show ?thesis .
  qed
qed

lemma holds_transact: "preserves Q (rt_transact op h a0 a1 d allowed)"
  unfolding rt_transact_def by (intro holds_channel) (rule channel_stepsD)

lemmas holds_steps =
  holds_get holds_discard holds_transact outside_stepsD [OF outside]

lemma holds_verify_cc: "preserves Q (verify_cc config h l)"
  unfolding verify_cc_def by (intro preserves_intros holds_steps)

lemma holds_join: "preserves Q (join_bridge_result env config h ms)"
  unfolding join_bridge_result_def bridge_failed_def bridge_joined_def by (intro preserves_intros holds_steps)

lemma holds_reap: "preserves Q (reap_bridges env config)"
  unfolding reap_bridges_def by (intro preserves_intros holds_steps holds_join)

lemma holds_drain_round: "preserves Q (drain_round env config deadline hs)"
proof (induction hs)
  case (Cons h hs)
  show ?case unfolding drain_round.simps by (intro preserves_intros holds_steps holds_join Cons.IH)
qed (simp add: preserves_pret)

lemma holds_drain_loop: "preserves Q (drain_loop n env config deadline)"
proof (induction n)
  case (Suc n)
  show ?case unfolding drain_loop.simps by (intro preserves_intros holds_steps holds_drain_round Suc.IH)
qed (simp add: preserves_pret)

lemma holds_drain: "preserves Q (drain_bridges n env config)"
  unfolding drain_bridges_def drain_expired_def by (intro preserves_intros holds_steps holds_drain_loop)

end

text \<open>An invariant that the calls of the process keep too.\<close>

locale stopping_invariant = draining_invariant +
  assumes listener: "Q (s, rt) \<Longrightarrow> Q (s, rt\<lparr>rt_listener_handle := l\<rparr>)"
    and process: "Q t \<Longrightarrow> rt_process (snd t) = Some p \<Longrightarrow> process_steps Q p"
begin

text \<open>A step that works with the process of the object.\<close>

lemma holds_process:
  assumes "\<And>t. rt_process (snd t) = None \<Longrightarrow> \<exists>r. m t = (r, t)"
    "\<And>t p. rt_process (snd t) = Some p \<Longrightarrow> m t = f p t" "\<And>p. process_steps Q p \<Longrightarrow> preserves Q (f p)"
  shows "preserves Q m"
proof (rule preservesI)
  fix t r t'
  assume t: "Q t" and run: "m t = (r, t')"
  show "Q t'"
  proof (cases "rt_process (snd t)")
    case None
    with assms(1) [OF None] run t show ?thesis by auto
  next
    case (Some p)
    have "f p t = (r, t')" using assms(2) [OF Some] run by simp
    from preservesD [OF assms(3) [OF process [OF t Some]] this t] show ?thesis .
  qed
qed

lemma holds_ensure_running: "preserves Q ensure_running"
proof (rule holds_process)
  let ?f = "\<lambda>p. pbind (on_fst (p_poll p)) (\<lambda>st. case st of
             None \<Rightarrow> pret ()
           | Some code \<Rightarrow> praise (RuntimeExitedError (''hosted kernel exited unexpectedly with status '' @ str_int code)))"
  show "\<And>t :: 'a \<times> 'a runtime. rt_process (snd t) = None \<Longrightarrow> \<exists>r. ensure_running t = (r, t)"
    by (simp add: ensure_running_def)
  show "\<And>(t :: 'a \<times> 'a runtime) p. rt_process (snd t) = Some p \<Longrightarrow> ensure_running t = ?f p t"
    by (simp only: ensure_running_def option.case)
  show "\<And>p. process_steps Q p \<Longrightarrow> preserves Q (?f p)"
    by (intro preserves_intros process_stepsD)
qed

lemma holds_force_stop: "preserves Q force_stop"
proof (rule holds_process)
  let ?f = "\<lambda>p. on_fst (pbind (p_poll p) (\<lambda>st.
            if \<not> Option.is_none st then pret ()
            else pthen (p_terminate p)
              (phandle (pthen (p_wait p 2) (pret ()))
                 (\<lambda>e. if is_TimeoutExpired e then pthen (p_kill p) (pthen (p_wait p 2) (pret ())) else praise e))))"
  show "\<And>t :: 'a \<times> 'a runtime. rt_process (snd t) = None \<Longrightarrow> \<exists>r. force_stop t = (r, t)"
    by (simp add: force_stop_def)
  show "\<And>(t :: 'a \<times> 'a runtime) p. rt_process (snd t) = Some p \<Longrightarrow> force_stop t = ?f p t"
    by (simp only: force_stop_def option.case)
  show "\<And>p. process_steps Q p \<Longrightarrow> preserves Q (?f p)"
    unfolding on_fst_steps by (intro preserves_intros process_stepsD)
qed

lemma holds_stop_by_state:
  assumes "process_steps Q p"
  shows "preserves Q (stop_by_state n env config p running)"
  unfolding stop_by_state_def orderly_stop_def close_listener_def cancel_bridge_def stop_bridge_def
    stop_kernel_def Let_def
  by (intro preserves_intros holds_steps holds_mod [OF listener] holds_join holds_drain holds_force_stop
      process_stepsD [OF assms])

lemma holds_stop_process:
  assumes "process_steps Q p"
  shows "preserves Q (stop_process n env config p)"
  unfolding stop_process_def finish_stop_def
  by (intro preserves_intros holds_stop_by_state [OF assms] holds_force_stop process_stepsD [OF assms])

lemma holds_shutdown:
  assumes closing: "\<And>s rt. Q (s, rt) \<Longrightarrow> Q (s, rt\<lparr>rt_closed := True\<rparr>)"
  shows "preserves Q (shutdown n env config)"
proof (rule preservesI)
  fix t r t'
  assume t: "Q t" and run: "shutdown n env config t = (r, t')"
  let ?t1 = "(fst t, (snd t)\<lparr>rt_closed := True\<rparr>)"
  have t1: "Q ?t1" using closing [of "fst t" "snd t"] t by simp
  show "Q t'"
  proof (cases "rt_closed (snd t) \<or> rt_process (snd t) = None")
    case True
    with run t t1 show ?thesis by (auto simp: shutdown_def Let_def split: if_splits)
  next
    case False
    then obtain p where p: "rt_process (snd t) = Some p" "\<not> rt_closed (snd t)" by auto
    have "stop_process n env config p ?t1 = (r, t')" using run p by (simp add: shutdown_def Let_def)
    from preservesD [OF holds_stop_process [OF process [OF t p(1)]] this t1] show ?thesis .
  qed
qed

end

text \<open>An invariant that setting up a kernel whose process runs keeps too.\<close>

locale attaching_invariant = stopping_invariant +
  assumes attached: "Q (s, rt) \<Longrightarrow> Q (s, rt\<lparr>rt_ifindex := i, rt_l3_attached := b\<rparr>)"
    and connected: "Q (s, rt) \<Longrightarrow> re_control_factory env p s = (Inr c, s') \<Longrightarrow> Q (s', rt\<lparr>rt_control := Some c\<rparr>)"
    and connect_failed: "Q (s, rt) \<Longrightarrow> re_control_factory env p s = (Inl e, s') \<Longrightarrow> Q (s', rt)"
begin

lemma holds_connect: "preserves Q (pbind (on_fst (re_control_factory env p)) (\<lambda>c. rt_mod (\<lambda>rt. rt\<lparr>rt_control := Some c\<rparr>)))"
proof (rule preservesI)
  fix t r t'
  assume t: "Q t"
    and run: "pbind (on_fst (re_control_factory env p)) (\<lambda>c. rt_mod (\<lambda>rt. rt\<lparr>rt_control := Some c\<rparr>)) t = (r, t')"
  obtain x s where x: "re_control_factory env p (fst t) = (x, s)" by (cases "re_control_factory env p (fst t)")
  have q: "Q (fst t, snd t)" using t by simp
  show "Q t'"
  proof (cases x)
    case (Inl e)
    with run x have "t' = (s, snd t)" by (simp add: pbind_def on_fst_def)
    with connect_failed [OF q x [unfolded Inl]] show ?thesis by simp
  next
    case (Inr c)
    with run x have "t' = (s, (snd t)\<lparr>rt_control := Some c\<rparr>)" by (simp add: pbind_def on_fst_def rt_mod_def)
    with connected [OF q x [unfolded Inr]] show ?thesis by simp
  qed
qed

lemma holds_attach: "preserves Q (attach_l3 config fd)"
  unfolding attach_l3_def
proof (rule preserves_pbind, rule preserves_plift, rule holds_channel)
  fix guest_ip and c :: "'a channel"
  assume "channel_steps Q c"
  then have "preserves Q (on_fst (c OP_L3_ATTACH_IP fd 0 0 data [0]))" for data by (rule channel_stepsD)
  then show "preserves Q
     (pbind (plift (encode_l3_config (PStr (sc_tun_guest_address config)) (PInt (max_prefixlen guest_ip)))) (\<lambda>data.
      pbind (on_fst (c OP_L3_ATTACH_IP fd 0 0 data [0])) (\<lambda>response.
       if cr_handle response \<le> 0
       then praise (ControlProtocolError (''hosted L3 attach returned invalid ifindex '' @ str_int (cr_handle response)))
       else rt_mod (\<lambda>rt. rt\<lparr>rt_ifindex := Some (cr_handle response), rt_l3_attached := True\<rparr>))))"
    by (intro preserves_intros holds_mod [OF attached])
qed

lemma holds_bind: "preserves Q (pbind channel (\<lambda>c. pbind (plift r) (\<lambda>data.
    pthen (on_fst (c op h a0 a1 data allowed)) (m data))))" if "\<And>data. preserves Q (m data)"
proof (rule holds_channel)
  fix c :: "'a channel"
  assume "channel_steps Q c"
  then have "preserves Q (on_fst (c op h a0 a1 data allowed))" for data by (rule channel_stepsD)
  with that show "preserves Q (pbind (plift r) (\<lambda>data. pthen (on_fst (c op h a0 a1 data allowed)) (m data)))"
    by (intro preserves_intros)
qed

lemma holds_open_listener: "preserves Q (open_listener config)"
  unfolding open_listener_def Let_def
proof (rule holds_channel)
  fix c :: "'a channel"
  assume "channel_steps Q c"
  then have c: "preserves Q (on_fst (c OP_SOCKET_IP 0 version 0 [] [0]))" for version by (rule channel_stepsD)
  have m: "preserves Q (pthen (rt_transact OP_LISTEN l (sc_backlog config) 0 [] [0]) (pret ()))" for l
    by (intro preserves_intros holds_steps)
  show "preserves Q (pbind (plift (Endpoint_version (sc_listen config))) (\<lambda>version.
     pbind (on_fst (c OP_SOCKET_IP 0 version 0 [] [0])) (\<lambda>response.
     if cr_handle response \<le> 0
     then praise (ControlProtocolError (''hosted socket returned invalid handle '' @ str_int (cr_handle response)))
     else pthen (rt_mod (\<lambda>rt. rt\<lparr>rt_listener_handle := Some (cr_handle response)\<rparr>))
       (pthen (rt_transact OP_SET_CC (cr_handle response) 0 0 (encode_ascii (sc_cc config)) [0])
       (pthen (verify_cc config (cr_handle response) ''listener'')
       (pbind channel (\<lambda>c2.
        pbind (plift (encode_ip_endpoint (PStr (sc_tun_guest_address config)) (PInt (ep_port (sc_listen config))))) (\<lambda>data.
        pthen (on_fst (c2 OP_BIND_IP (cr_handle response) 0 0 data [0]))
        (pthen (rt_transact OP_LISTEN (cr_handle response) (sc_backlog config) 0 [] [0])
          (pret ()))))))))))"
    by (intro preserves_pbind [OF preserves_plift] preserves_pbind [OF c] preserves_if preserves_praise preserves_pthen
        holds_steps holds_mod [OF listener] holds_verify_cc holds_bind [OF m] preserves_pret)
qed

end

text \<open>An invariant that starting the process keeps too.\<close>

locale runtime_invariant = attaching_invariant +
  assumes spawned: "Q (s, rt) \<Longrightarrow> re_process_factory env argv fd s = (Inr p, s') \<Longrightarrow> Q (s', rt\<lparr>rt_process := Some p\<rparr>)"
    and spawn_failed: "Q (s, rt) \<Longrightarrow> re_process_factory env argv fd s = (Inl e, s') \<Longrightarrow> Q (s', rt)"
begin

lemma holds_start_process: "preserves Q (start_process env config fd)"
proof (rule preservesI)
  fix t r t'
  let ?argv = "[sc_kernel config, ''--memory-mib='' @ str_int (sc_memory_mib config)]"
  let ?connect = "\<lambda>p. if Option.is_none (p_stdin p) \<or> Option.is_none (p_stdout p)
    then praise (RuntimeError ''hosted process did not expose control pipes'')
    else pbind (on_fst (re_control_factory env p)) (\<lambda>c. rt_mod (\<lambda>rt. rt\<lparr>rt_control := Some c\<rparr>))"
  assume t: "Q t" and run: "start_process env config fd t = (r, t')"
  obtain x s where x: "re_process_factory env ?argv fd (fst t) = (x, s)" by (cases "re_process_factory env ?argv fd (fst t)")
  have q: "Q (fst t, snd t)" using t by simp
  show "Q t'"
  proof (cases x)
    case (Inl e)
    with run x have "t' = (s, snd t)" by (simp add: start_process_def pbind_def on_fst_def)
    with spawn_failed [OF q x [unfolded Inl]] show ?thesis by simp
  next
    case (Inr p)
    have c: "?connect p (s, (snd t)\<lparr>rt_process := Some p\<rparr>) = (r, t')"
      using run x Inr by (simp add: start_process_def pbind_def pthen_def on_fst_def rt_mod_def)
    have "preserves Q (?connect p)"
      by (rule preserves_if, rule preserves_praise, rule holds_connect)
    from preservesD [OF this c spawned [OF q x [unfolded Inr]]] show ?thesis .
  qed
qed

lemma holds_start: "preserves Q (start env config fd)"
  unfolding start_def
  by (intro preserves_intros holds_steps holds_start_process holds_attach holds_open_listener)

end

text \<open>An invariant that a new bridge does not break either is kept by the whole service loop.\<close>

locale serving_invariant = stopping_invariant +
  assumes inserted: "Q (s, rt) \<Longrightarrow> Q (s, rt\<lparr>rt_active_bridges := insert h (rt_active_bridges rt)\<rparr>)"
begin

lemma holds_offer: "preserves Q (offer_bridge env config a)"
proof -
  have "preserves Q (pbind channel (\<lambda>c. pbind (plift (Endpoint_ipv4_u32 (sc_backend config))) (\<lambda>address.
      on_fst (c OP_BRIDGE_START a address (ep_port (sc_backend config)) [] [0]))))"
  proof (rule holds_channel)
    fix c :: "'a channel"
    assume "channel_steps Q c"
    then have "preserves Q (on_fst (c OP_BRIDGE_START a address (ep_port (sc_backend config)) [] [0]))" for address
      by (rule channel_stepsD)
    then show "preserves Q (pbind (plift (Endpoint_ipv4_u32 (sc_backend config))) (\<lambda>address.
        on_fst (c OP_BRIDGE_START a address (ep_port (sc_backend config)) [] [0])))"
      by (intro preserves_intros)
  qed
  note start = this
  show ?thesis unfolding offer_bridge_def bridge_answer_def
    by (rule preserves_pthen, rule holds_verify_cc, rule preserves_pbind [OF preserves_pattempt [OF start]])
      (intro preserves_intros holds_steps)
qed

lemma holds_serve_accepted: "preserves Q (serve_accepted env config a)"
  unfolding serve_accepted_def release_accepted_def
  by (intro preserves_intros holds_offer holds_steps holds_mod [OF inserted])

lemma holds_accept_one: "preserves Q (accept_one env config l)"
  unfolding accept_one_def by (intro preserves_intros holds_steps holds_serve_accepted)

lemma holds_accept_loop: "preserves Q (accept_loop k env config l)"
proof (induction k)
  case (Suc k)
  show ?case unfolding accept_loop.simps by (intro preserves_intros holds_steps holds_accept_one Suc.IH)
qed (simp add: preserves_pret)

lemma holds_poll_once: "preserves Q (poll_once k env config)"
  unfolding poll_once_def accept_available_def
  by (intro preserves_intros holds_steps holds_ensure_running holds_reap holds_accept_loop)

lemma holds_serve:
  assumes "preserves Q (on_fst (st_requested stop))" "\<And>q. preserves Q (on_fst (st_wait stop q))"
  shows "preserves Q (serve n k env config stop)"
proof (induction n)
  case (Suc n)
  show ?case unfolding serve.simps by (intro preserves_intros assms holds_poll_once Suc.IH)
qed (simp add: preserves_pret)

end

section \<open>Predicates of the fields\<close>

text \<open>What only concerns the object is not touched by a step of the outside world.\<close>

lemma preserves_fields: "preserves (\<lambda>t. F (snd t)) (on_fst m)"
  by (rule preserves_keeps) (rule keeps_snd_on_fst)

lemma field_steps:
  "process_steps (\<lambda>t. F (snd t)) p" "channel_steps (\<lambda>t. F (snd t)) c" "outside_steps (\<lambda>t. F (snd t)) env"
  unfolding process_steps_def channel_steps_def outside_steps_def emit_def diagnose_def close_pipe_def
  by (intro conjI allI preserves_fields preserves_option preserves_pret)+

text \<open>A closed object stays closed, and nothing but a start changes its process.\<close>

interpretation kept_process: stopping_invariant env "\<lambda>t. rt_process (snd t) = Some p" for env p
  by standard (simp_all add: field_steps [where F = "\<lambda>rt. rt_process rt = Some p"])

interpretation closed: stopping_invariant env "\<lambda>t. rt_closed (snd t)" for env
  by standard (simp_all add: field_steps)

section \<open>A relation of the world\<close>

text \<open>
  Where every call of the outside world moves the world along a reflexive and transitive relation,
  so does every operation of the object: the guarantee of the calls is the guarantee of the object.
\<close>

definition moves :: "('s \<Rightarrow> 's \<Rightarrow> bool) \<Rightarrow> ('s, 'a) py \<Rightarrow> bool" where
  "moves R m \<longleftrightarrow> (\<forall>s r s'. m s = (r, s') \<longrightarrow> R s s')"

definition process_moves :: "('s \<Rightarrow> 's \<Rightarrow> bool) \<Rightarrow> 's process \<Rightarrow> bool" where
  "process_moves R p \<longleftrightarrow>
     moves R (p_poll p) \<and> (\<forall>q. moves R (p_wait p q)) \<and> moves R (p_terminate p) \<and> moves R (p_kill p)
     \<and> (\<forall>f. p_stdin p = Some f \<longrightarrow> moves R f) \<and> (\<forall>f. p_stdout p = Some f \<longrightarrow> moves R f)"

definition channel_moves :: "('s \<Rightarrow> 's \<Rightarrow> bool) \<Rightarrow> 's channel \<Rightarrow> bool" where
  "channel_moves R c \<longleftrightarrow> (\<forall>op h a0 a1 d allowed. moves R (c op h a0 a1 d allowed))"

definition outside_moves :: "('s \<Rightarrow> 's \<Rightarrow> bool) \<Rightarrow> 's runtime_env \<Rightarrow> bool" where
  "outside_moves R env \<longleftrightarrow>
     (\<forall>event members. moves R (em_event (re_emitter env) event members))
     \<and> (\<forall>message. moves R (em_diagnostic (re_emitter env) message)) \<and> moves R (re_clock env)"

definition control_moves :: "('s \<Rightarrow> 's \<Rightarrow> bool) \<Rightarrow> 's runtime_env \<Rightarrow> bool" where
  "control_moves R env \<longleftrightarrow>
     (\<forall>p. moves R (re_control_factory env p) \<and> yields (channel_moves R) (re_control_factory env p))"

definition guarded ::
  "('s \<Rightarrow> 's \<Rightarrow> bool) \<Rightarrow> 's runtime_env \<Rightarrow> 's \<Rightarrow> 's \<times> 's runtime \<Rightarrow> bool" where
  "guarded R env s0 t \<longleftrightarrow>
     reflp R \<and> transp R \<and> outside_moves R env \<and> R s0 (fst t)
     \<and> (\<forall>c. rt_control (snd t) = Some c \<longrightarrow> channel_moves R c)
     \<and> (\<forall>p. rt_process (snd t) = Some p \<longrightarrow> process_moves R p)"

lemma movesD: "moves R m \<Longrightarrow> m s = (r, s') \<Longrightarrow> R s s'"
  unfolding moves_def by simp

lemma guarded_on_fst:
  assumes "moves R m"
  shows "preserves (guarded R env s0) (on_fst m)"
proof (rule preservesI)
  fix t r t'
  assume g: "guarded R env s0 t" and run: "on_fst m t = (r, t')"
  obtain x s where x: "m (fst t) = (x, s)" by (cases "m (fst t)")
  have t': "t' = (s, snd t)" using run x by (simp add: on_fst_def)
  have "R s0 s"
    using g movesD [OF assms x] unfolding guarded_def by (elim conjE) (rule transpD)
  with g t' show "guarded R env s0 t'" unfolding guarded_def by simp
qed

lemma guarded_calls:
  assumes "guarded R env s0 t"
  shows "outside_steps (guarded R env s0) env"
    "rt_control (snd t) = Some c \<Longrightarrow> channel_steps (guarded R env s0) c"
    "rt_process (snd t) = Some p \<Longrightarrow> process_steps (guarded R env s0) p"
proof -
  have "outside_moves R env" using assms by (simp add: guarded_def)
  then show "outside_steps (guarded R env s0) env"
    unfolding outside_moves_def outside_steps_def emit_def diagnose_def by (simp add: guarded_on_fst)
  assume "rt_control (snd t) = Some c"
  then have "channel_moves R c" using assms by (simp add: guarded_def)
  then show "channel_steps (guarded R env s0) c"
    unfolding channel_moves_def channel_steps_def by (simp add: guarded_on_fst)
next
  assume "rt_process (snd t) = Some p"
  then have "process_moves R p" using assms by (simp add: guarded_def)
  then show "process_steps (guarded R env s0) p"
    unfolding process_moves_def process_steps_def close_pipe_def
    by (auto intro!: guarded_on_fst preserves_option preserves_pret split: option.splits)
qed

lemma guarded_outside: "outside_steps (guarded R env s0) env"
proof (cases "\<exists>t. guarded R env s0 t")
  case True
  then obtain t where "guarded R env s0 t" ..
  then show ?thesis by (rule guarded_calls(1))
next
  case False
  then show ?thesis unfolding outside_steps_def preserves_def by blast
qed

interpretation guarded: serving_invariant env "guarded R env s0" for R env s0
  by standard (rule guarded_outside | erule (1) guarded_calls(2) | erule (1) guarded_calls(3) | simp add: guarded_def)+

text \<open>Setting up a started kernel as well, where the factory makes channels that move along.\<close>

definition linked :: "('s \<Rightarrow> 's \<Rightarrow> bool) \<Rightarrow> 's runtime_env \<Rightarrow> 's \<Rightarrow> 's \<times> 's runtime \<Rightarrow> bool" where
  "linked R env s0 t \<longleftrightarrow> control_moves R env \<and> guarded R env s0 t"

lemma preserves_conj: "(A \<Longrightarrow> preserves P m) \<Longrightarrow> preserves (\<lambda>t. A \<and> P t) m"
  unfolding preserves_def by blast

lemma linked_eq: "linked R env s0 = (\<lambda>t. control_moves R env \<and> guarded R env s0 t)"
  by (simp add: fun_eq_iff linked_def)

lemma preserves_linked: "preserves (guarded R env s0) m \<Longrightarrow> preserves (linked R env s0) m"
  unfolding linked_eq by (rule preserves_conj)

lemma linked_calls:
  "outside_steps (guarded R env s0) env \<Longrightarrow> outside_steps (linked R env s0) env"
  "channel_steps (guarded R env s0) c \<Longrightarrow> channel_steps (linked R env s0) c"
  "process_steps (guarded R env s0) p \<Longrightarrow> process_steps (linked R env s0) p"
  unfolding outside_steps_def channel_steps_def process_steps_def by (simp_all add: preserves_linked)

lemma linked_connected:
  assumes "linked R env s0 (s, rt)" "re_control_factory env p s = (r, s')"
  shows "linked R env s0 (s', case r of Inl _ \<Rightarrow> rt | Inr c \<Rightarrow> rt\<lparr>rt_control := Some c\<rparr>)"
proof -
  have f: "moves R (re_control_factory env p)" "yields (channel_moves R) (re_control_factory env p)"
    using assms(1) by (simp_all add: linked_def control_moves_def)
  have "R s0 s'" using assms movesD [OF f(1) assms(2)] unfolding linked_def guarded_def
    by (elim conjE) (simp, rule transpD)
  with assms yieldsD [OF f(2)] show ?thesis by (cases r) (auto simp: linked_def guarded_def)
qed

interpretation linked: attaching_invariant env "linked R env s0"
  for R :: "'s \<Rightarrow> 's \<Rightarrow> bool" and env s0
proof
  fix t and c :: "'s channel" and p :: "'s process" and s s' rt e
  show "outside_steps (linked R env s0) env" by (rule linked_calls(1) [OF guarded_outside])
  show "linked R env s0 t \<Longrightarrow> rt_control (snd t) = Some c \<Longrightarrow> channel_steps (linked R env s0) c"
    by (rule linked_calls(2), rule guarded_calls(2)) (simp_all add: linked_def)
  show "linked R env s0 t \<Longrightarrow> rt_process (snd t) = Some p \<Longrightarrow> process_steps (linked R env s0) p"
    by (rule linked_calls(3), rule guarded_calls(3)) (simp_all add: linked_def)
  show "linked R env s0 (s, rt) \<Longrightarrow> re_control_factory env p s = (Inr c, s')
      \<Longrightarrow> linked R env s0 (s', rt\<lparr>rt_control := Some c\<rparr>)" using linked_connected by fastforce
  show "linked R env s0 (s, rt) \<Longrightarrow> re_control_factory env p s = (Inl e, s')
      \<Longrightarrow> linked R env s0 (s', rt)" using linked_connected by fastforce
qed (simp_all add: linked_def guarded_def)

end
