(* ===== verification/Runtime_Safety.thy ===== *)
theory Runtime_Safety
  imports Runtime_Steps
begin

text \<open>
  What the hosted runtime keeps: the number of bridges stays within the admission limit in every
  state that the object reaches, and as long as the transport works an accepted socket is handed to a
  bridge that is tracked, or closed.
\<close>

section \<open>The admission limit\<close>

definition within_limit :: "ServiceConfig \<Rightarrow> 's runtime \<Rightarrow> bool" where
  "within_limit config rt \<longleftrightarrow>
     finite (rt_active_bridges rt) \<and> (\<forall>h \<in> rt_active_bridges rt. 0 < h)
     \<and> (sc_max_connections config \<noteq> 0 \<longrightarrow> active_connections rt \<le> sc_max_connections config)"

abbreviation limited :: "ServiceConfig \<Rightarrow> 's \<times> 's runtime \<Rightarrow> bool" where
  "limited config \<equiv> \<lambda>t. within_limit config (snd t)"

interpretation limit: runtime_invariant env "limited config" for env config
proof
  fix s and rt :: "'s runtime" and h
  assume w: "within_limit config (snd (s, rt))"
  have "card (rt_active_bridges rt - {h}) \<le> card (rt_active_bridges rt)" by (rule card_Diff1_le)
  with w show "within_limit config (snd (s, rt\<lparr>rt_active_bridges := rt_active_bridges rt - {h}\<rparr>))"
    by (auto simp: within_limit_def active_connections_def)
qed (rule field_steps | simp add: within_limit_def active_connections_def)+

lemma limited_insert:
  assumes "within_limit config rt" "admits config rt" "0 < h"
  shows "within_limit config (rt\<lparr>rt_active_bridges := insert h (rt_active_bridges rt)\<rparr>)"
proof -
  have "int (card (insert h (rt_active_bridges rt))) \<le> int (card (rt_active_bridges rt)) + 1"
    using assms(1) by (simp add: within_limit_def card_insert_if)
  with assms show ?thesis by (auto simp: within_limit_def admits_def active_connections_def)
qed

lemma limited_serve_accepted:
  assumes "within_limit config (snd t)" "admits config (snd t)" "serve_accepted env config a t = (r, t')"
  shows "within_limit config (snd t')"
proof -
  obtain x t1 where x: "offer_bridge env config a t = (x, t1)" by (cases "offer_bridge env config a t")
  have rt: "snd t1 = snd t" by (rule keepsD [OF keeps_offer_bridge x])
  show ?thesis
  proof (cases x)
    case (Inl e)
    with assms(3) x have "pthen (release_accepted env a) (praise e) t1 = (r, t')"
      by (simp add: serve_accepted_def pbind_def pattempt_def)
    moreover have "keeps snd (pthen (release_accepted env a) (praise e))"
      by (intro keeps_intros keeps_release_accepted)
    ultimately show ?thesis using keepsD rt assms(1) by metis
  next
    case (Inr y)
    show ?thesis
    proof (cases y)
      case None
      with Inr assms(3) x have "release_accepted env a t1 = (r, t')"
        by (simp add: serve_accepted_def pbind_def pattempt_def)
      with keepsD [OF keeps_release_accepted this] rt assms(1) show ?thesis by simp
    next
      case (Some h)
      let ?opened = "pbind (plift (Endpoint_str (sc_backend config))) (\<lambda>backend.
            pbind (rt_get active_connections) (\<lambda>active.
              emit env ''connection-opened''
                [(''bridge_handle'', JInt h), (''accepted_cc'', JStr (sc_cc config)), (''backend'', JStr backend),
                 (''active_connections'', JInt active), (''max_connections'', JInt (sc_max_connections config))]))"
      let ?t2 = "(fst t1, (snd t1)\<lparr>rt_active_bridges := insert h (rt_active_bridges (snd t1))\<rparr>)"
      have "?opened ?t2 = (r, t')" using Some Inr assms(3) x
        by (simp add: serve_accepted_def pbind_def pattempt_def pthen_def rt_mod_def)
      moreover have "keeps snd ?opened" by (intro keeps_intros)
      ultimately have "snd t' = snd ?t2" by (rule keepsD [rotated])
      moreover have "0 < h" using offer_bridge_positive x Inr Some by blast
      ultimately show ?thesis using limited_insert [of config "snd t1" h] rt assms(1,2) by simp
    qed
  qed
qed

lemma limited_accept_one:
  assumes "within_limit config (snd t)" "admits config (snd t)" "accept_one env config l t = (r, t')"
  shows "within_limit config (snd t')"
proof -
  obtain x t1 where x: "rt_transact OP_ACCEPT_NONBLOCK l 0 0 [] [0] t = (x, t1)"
    by (cases "rt_transact OP_ACCEPT_NONBLOCK l 0 0 [] [0] t")
  have rt: "snd t1 = snd t" by (rule keepsD [OF keeps_object(3) x])
  show ?thesis
  proof (cases "\<exists>y. x = Inr y \<and> 0 < cr_handle y")
    case True
    then obtain y where y: "x = Inr y" "0 < cr_handle y" by blast
    obtain z t2 where z: "serve_accepted env config (cr_handle y) t1 = (z, t2)"
      by (cases "serve_accepted env config (cr_handle y) t1")
    have "t' = t2" using assms(3) x y z
      by (simp add: accept_one_def pbind_def pattempt_def pthen_def pret_def split: sum.splits)
    with limited_serve_accepted [OF _ _ z] rt assms(1,2) show ?thesis by simp
  next
    case False
    then have "t' = t1" using assms(3) x
      by (auto simp: accept_one_def pbind_def pattempt_def pret_def praise_def split: sum.splits if_splits)
    with rt assms(1) show ?thesis by simp
  qed
qed

lemma limited_accept_loop: "preserves (limited config) (accept_loop k env config l)"
proof (induction k)
  case (Suc k)
  show ?case
  proof (rule preservesI)
    fix t r t'
    assume w: "within_limit config (snd t)" and run: "accept_loop (Suc k) env config l t = (r, t')"
    show "within_limit config (snd t')"
    proof (cases "admits config (snd t)")
      case False
      with run w show ?thesis by (simp add: pbind_def rt_get_def pret_def)
    next
      case True
      obtain x t1 where x: "accept_one env config l t = (x, t1)" by (cases "accept_one env config l t")
      from limited_accept_one [OF w True x] have w1: "within_limit config (snd t1)" .
      show ?thesis
      proof (cases "x = Inr True")
        case more: True
        with run True x have "accept_loop k env config l t1 = (r, t')" by (simp add: pbind_def rt_get_def)
        from preservesD [OF Suc.IH this] w1 show ?thesis by simp
      next
        case False
        with run True x have "t' = t1"
          by (auto simp: pbind_def rt_get_def pret_def split: sum.splits if_splits)
        with w1 show ?thesis by simp
      qed
    qed
  qed
qed (simp add: preserves_pret)

lemma limited_poll_once: "preserves (limited config) (poll_once k env config)"
  unfolding poll_once_def accept_available_def
  by (intro preserves_intros limit.holds_steps limit.holds_ensure_running limit.holds_reap limited_accept_loop)

lemma limited_serve: "preserves (limited config) (serve n k env config stop)"
proof (induction n)
  case (Suc n)
  show ?case unfolding serve.simps by (intro preserves_intros preserves_fields limited_poll_once Suc.IH)
qed (simp add: preserves_pret)

section \<open>Reachable states\<close>

text \<open>
  The states of an object that its methods and the world around it lead to, whatever the methods
  return or raise.
\<close>

inductive runtime_reaches :: "'s runtime_env \<Rightarrow> ServiceConfig \<Rightarrow> 's \<times> 's runtime \<Rightarrow> bool" for env config where
  created: "runtime_reaches env config (s, HostedKernelRuntime)"
| elsewhere: "runtime_reaches env config (s, rt) \<Longrightarrow> runtime_reaches env config (s', rt)"
| started: "runtime_reaches env config t \<Longrightarrow> start env config fd t = (r, t') \<Longrightarrow> runtime_reaches env config t'"
| polled: "runtime_reaches env config t \<Longrightarrow> poll_once k env config t = (p, t') \<Longrightarrow> runtime_reaches env config t'"
| served: "runtime_reaches env config t \<Longrightarrow> serve n k env config stop t = (p, t') \<Longrightarrow> runtime_reaches env config t'"
| stopped: "runtime_reaches env config t \<Longrightarrow> shutdown n env config t = (p, t') \<Longrightarrow> runtime_reaches env config t'"

lemma runtime_reaches_limited:
  assumes "runtime_reaches env config t" "0 \<le> sc_max_connections config"
  shows "within_limit config (snd t)"
  using assms(1)
proof (induction rule: runtime_reaches.induct)
  case (created s)
  show ?case using assms(2) by (simp add: HostedKernelRuntime_def within_limit_def active_connections_def)
next
  case (elsewhere s rt s')
  then show ?case by simp
next
  case (started t fd r t')
  then show ?case using preservesD [OF limit.holds_start] by metis
next
  case (polled t k p t')
  then show ?case using preservesD [OF limited_poll_once] by metis
next
  case (served t n k stop p t')
  then show ?case using preservesD [OF limited_serve] by metis
next
  case (stopped t n p t')
  have "preserves (limited config) (shutdown n env config)"
    by (rule limit.holds_shutdown) (simp add: within_limit_def active_connections_def)
  from preservesD [OF this stopped(2) stopped(3)] show ?case .
qed

text \<open>
  C5: In every state that the runtime reaches, through any sequence of starts, polls, serving and
  shutdowns that return or raise, the active bridges are finitely many with positive handles, and
  their number does not exceed the configured limit, unless that is 0, which stands for no limit.
\<close>

theorem runtime_within_limit:
  assumes "runtime_reaches env config (s, rt)" "valid_service_config config"
  shows "finite (rt_active_bridges rt) \<and> (\<forall>h \<in> rt_active_bridges rt. 0 < h)
    \<and> (sc_max_connections config \<noteq> 0 \<longrightarrow> active_connections rt \<le> sc_max_connections config)"
proof -
  have "0 \<le> sc_max_connections config" using assms(2) by (simp add: valid_service_config_def)
  from runtime_reaches_limited [OF assms(1) this] show ?thesis by (simp add: within_limit_def)
qed

section \<open>A small kernel\<close>

text \<open>
  A world for examples: the number of connections that wait, the hosted sockets, the bridges, and
  whether the process runs.
\<close>

record small_kernel =
  sk_pending :: nat
  sk_sockets :: "int set"
  sk_bridges :: "int set"
  sk_running :: bool

definition answer :: "int \<Rightarrow> int \<Rightarrow> bytes \<Rightarrow> ControlResponse" where
  "answer op h d = \<lparr>cr_operation = op, cr_status = 0, cr_handle = h, cr_data = d\<rparr>"

definition small_tx :: "small_kernel channel" where
  "small_tx op h a0 a1 d allowed w =
     (if op = OP_ACCEPT_NONBLOCK
      then (case sk_pending w of
              0 \<Rightarrow> (Inl (ControlOperationError op (- EAGAIN)), w)
            | Suc n \<Rightarrow> (Inr (answer op (int n + 10) []),
                        w\<lparr>sk_pending := n, sk_sockets := insert (int n + 10) (sk_sockets w)\<rparr>))
      else if op = OP_GET_CC then (Inr (answer op h (encode_ascii ''bbr'')), w)
      else if op = OP_BRIDGE_START
      then (Inr (answer op (h + 90) []),
            w\<lparr>sk_sockets := sk_sockets w - {h}, sk_bridges := insert (h + 90) (sk_bridges w)\<rparr>)
      else if op = OP_CLOSE then (Inr (answer op h []), w\<lparr>sk_sockets := sk_sockets w - {h}\<rparr>)
      else if op = OP_BRIDGE_JOIN_RESULT then (Inl (ControlOperationError op (- ENOENT)), w\<lparr>sk_bridges := sk_bridges w - {h}\<rparr>)
      else if op = OP_SHUTDOWN then (Inr (answer op 0 []), w\<lparr>sk_running := False\<rparr>)
      else (Inr (answer op 1 []), w))"

definition small_process :: "small_kernel process" where
  "small_process =
     \<lparr>p_pid = 99, p_stdin = Some (pret ()), p_stdout = Some (pret ()),
      p_poll = (\<lambda>w. (Inr (if sk_running w then None else Some 0), w)),
      p_wait = (\<lambda>timeout w. if sk_running w then (Inl (TimeoutExpired []), w) else (Inr 0, w)),
      p_terminate = pret (), p_kill = (\<lambda>w. (Inr (), w\<lparr>sk_running := False\<rparr>))\<rparr>"

definition small_env :: "small_kernel runtime_env" where
  "small_env =
     \<lparr>re_emitter = \<lparr>em_event = (\<lambda>event members. pret ()), em_diagnostic = (\<lambda>message. pret ())\<rparr>,
      re_process_factory = (\<lambda>argv fd w. (Inr small_process, w\<lparr>sk_running := True\<rparr>)),
      re_control_factory = (\<lambda>p. pret small_tx), re_shutdown_timeout = DEFAULT_KERNEL_SHUTDOWN_TIMEOUT,
      re_clock = pret 0, re_order = sorted_list_of_set, re_float = (\<lambda>q. []), re_strerror = (\<lambda>n. None)\<rparr>"

definition small_runtime :: "int set \<Rightarrow> small_kernel runtime" where
  "small_runtime active =
     \<lparr>rt_process = Some small_process, rt_control = Some small_tx, rt_ifindex = Some 1,
      rt_listener_handle = Some 1, rt_active_bridges = active, rt_l3_attached = True, rt_closed = False\<rparr>"

lemma loopback_text: "parse_v4 ''127.0.0.1'' = Some (be_val 256 [127, 0, 0, 1])"
proof -
  have "map parse_octet (split_on (CHR ''.'') ''127.0.0.1'') = [Some 127, Some 0, Some 0, Some 1]"
    "length (split_on (CHR ''.'') ''127.0.0.1'') = 4" by (code_simp, code_simp)
  then show ?thesis unfolding parse_v4_def Let_def by simp
qed

lemma sample_backend:
  "\<exists>t. Endpoint_str (sc_backend sample_service) = Inr t" "\<exists>n. Endpoint_ipv4_u32 (sc_backend sample_service) = Inr n"
  by (simp_all add: sample_service_def Endpoint_str_def localhost_version Endpoint_ipv4_u32_def loopback_text)

lemma decode_bbr: "decode_ascii (encode_ascii ''bbr'') = Some ''bbr''"
  by code_simp

lemma small_accept:
  assumes "sk_pending w = Suc n"
  shows "accept_one small_env sample_service 1 (w, small_runtime active) =
     (Inr True, (w\<lparr>sk_pending := n, sk_sockets := sk_sockets w - {int n + 10}, sk_bridges := insert (100 + int n) (sk_bridges w)\<rparr>,
        small_runtime (insert (100 + int n) active)))"
proof -
  obtain t where t: "Endpoint_str (sc_backend sample_service) = Inr t" using sample_backend(1) by blast
  obtain u where u: "Endpoint_ipv4_u32 (sc_backend sample_service) = Inr u" using sample_backend(2) by blast
  have cc: "sc_cc sample_service = ''bbr''" by (simp add: sample_service_def)
  show ?thesis
    by (simp add: accept_one_def serve_accepted_def offer_bridge_def bridge_answer_def verify_cc_def rt_transact_def channel_def emit_def
        small_runtime_def small_env_def small_tx_def op_defs assms answer_def pbind_def pthen_def pattempt_def
        on_fst_def pret_def plift_def decode_bbr cc t u rt_mod_def rt_get_def)
qed

lemma small_accept_none:
  assumes "sk_pending w = 0"
  shows "accept_one small_env sample_service 1 (w, small_runtime active) = (Inr False, (w, small_runtime active))"
  by (simp add: accept_one_def rt_transact_def channel_def small_runtime_def small_tx_def assms
      pbind_def pattempt_def on_fst_def pret_def)

text \<open>What setting up the sample service sends.\<close>

lemma sample_set_up:
  "sc_tun_guest_address sample_service = ip_str (IPv4 0x0A000002)" "sc_cc sample_service = ''bbr''"
  "sc_listen sample_service = sample_listen" "Endpoint_version sample_listen = Inr 4"
  "parse_address (ip_str (IPv4 0x0A000002)) = Inr (IPv4 0x0A000002)"
  "\<exists>d. encode_l3_config (PStr (ip_str (IPv4 0x0A000002))) (PInt 32) = Inr d"
  "\<exists>d. encode_ip_endpoint (PStr (ip_str (IPv4 0x0A000002))) (PInt (ep_port sample_listen)) = Inr d"
proof -
  show "sc_tun_guest_address sample_service = ip_str (IPv4 0x0A000002)" "sc_cc sample_service = ''bbr''"
    "sc_listen sample_service = sample_listen" by (simp_all add: sample_service_def)
  show "Endpoint_version sample_listen = Inr 4"
    by (simp add: sample_listen_def Endpoint_version_Inr sample_address del: ip_str.simps)
  show "parse_address (ip_str (IPv4 0x0A000002)) = Inr (IPv4 0x0A000002)"
    by (simp add: parse_address_ip_str del: ip_str.simps)
  have a: "usable_ip_address (PStr (ip_str (IPv4 0x0A000002))) f = Inr (IPv4 0x0A000002)" for f
    by (simp add: usable_ip_address_Inr sample_address is_unspecified_def del: ip_str.simps)
  let ?ip = "IPv4 0x0A000002"
  have "fits L3_CONFIG [VI (ip_version ?ip), VB (ljust 16 (ip_packed ?ip)), VI 32]"
    "fits IP_ENDPOINT [VI (ip_version ?ip), VB (ljust 16 (ip_packed ?ip)), VI 80, VI 0]"
    by (simp_all add: L3_CONFIG_def IP_ENDPOINT_def unsigned_range_def)
  then obtain d1 d2 where "pack L3_CONFIG [VI (ip_version ?ip), VB (ljust 16 (ip_packed ?ip)), VI 32] = Inr d1"
    "pack IP_ENDPOINT [VI (ip_version ?ip), VB (ljust 16 (ip_packed ?ip)), VI 80, VI 0] = Inr d2"
    using pack_succeeds by metis
  then show "\<exists>d. encode_l3_config (PStr (ip_str ?ip)) (PInt 32) = Inr d"
    "\<exists>d. encode_ip_endpoint (PStr (ip_str ?ip)) (PInt (ep_port sample_listen)) = Inr d"
    by (simp_all add: encode_l3_config_def encode_ip_endpoint_def a bounded_integer_def sample_listen_def
        del: ip_str.simps pack.simps)
qed

lemma small_start:
  "\<exists>w'. start small_env sample_service 5 (w, HostedKernelRuntime) = (Inr (), (w', small_runtime {}))
     \<and> sk_pending w' = sk_pending w \<and> sk_running w'"
proof -
  obtain d1 d2 where "encode_l3_config (PStr (ip_str (IPv4 0x0A000002))) (PInt 32) = Inr d1"
    "encode_ip_endpoint (PStr (ip_str (IPv4 0x0A000002))) (PInt (ep_port sample_listen)) = Inr d2"
    using sample_set_up(6,7) by blast
  then show ?thesis
    by (simp add: start_def start_process_def attach_l3_def open_listener_def verify_cc_def rt_transact_def channel_def
        HostedKernelRuntime_def small_env_def small_process_def small_tx_def op_defs answer_def pbind_def pthen_def
        on_fst_def pret_def plift_def sample_set_up(1-5) decode_bbr rt_mod_def rt_get_def small_runtime_def del: ip_str.simps)
qed

lemma small_poll:
  assumes "sk_pending w = 3" "sk_running w"
  shows "\<exists>w'. poll_once 3 small_env sample_service (w, small_runtime {}) = (Inr True, (w', small_runtime {101, 102}))"
proof -
  let ?w1 = "w\<lparr>sk_pending := 2, sk_sockets := sk_sockets w - {12}, sk_bridges := insert 102 (sk_bridges w)\<rparr>"
  have a1: "accept_one small_env sample_service 1 (w, small_runtime {}) = (Inr True, (?w1, small_runtime {102}))"
    using small_accept [of w 2 "{}"] assms(1) by (simp add: numeral_3_eq_3 numeral_2_eq_2)
  obtain w2 where a2: "accept_one small_env sample_service 1 (?w1, small_runtime {102}) = (Inr True, (w2, small_runtime {101, 102}))"
    using small_accept [of ?w1 1 "{102}"] by (simp add: numeral_2_eq_2)
  have m: "sc_max_connections sample_service = 2" by (simp add: sample_service_def)
  have l: "admits sample_service (small_runtime {})" "admits sample_service (small_runtime {102})"
    "\<not> admits sample_service (small_runtime {101, 102})"
    by (simp_all add: admits_def m active_connections_def small_runtime_def)
  have e: "ensure_running (w, small_runtime {}) = (Inr (), (w, small_runtime {}))"
    using assms(2) by (simp add: ensure_running_def small_runtime_def small_process_def pbind_def on_fst_def pret_def)
  have r: "reap_bridges small_env sample_service (w, small_runtime {}) = (Inr (), (w, small_runtime {}))"
    by (simp add: reap_bridges_def rt_get_def pbind_def small_runtime_def small_env_def pret_def)
  have h: "rt_listener_handle (small_runtime {}) = Some 1" by (simp add: small_runtime_def)
  have "accept_loop 3 small_env sample_service 1 (w, small_runtime {}) = (Inr True, (w2, small_runtime {101, 102}))"
    using a1 a2 l by (simp add: numeral_3_eq_3 pbind_def rt_get_def pret_def)
  with e r h show ?thesis
    by (simp add: poll_once_def accept_available_def pthen_def pbind_def rt_get_def)
qed

theorem runtime_within_limit_witness:
  "\<exists>w rt. runtime_reaches small_env sample_service (w, rt) \<and> rt_active_bridges rt = {101, 102}
     \<and> active_connections rt \<le> sc_max_connections sample_service"
proof -
  let ?w0 = "\<lparr>sk_pending = 3, sk_sockets = {}, sk_bridges = {}, sk_running = False\<rparr>"
  obtain w1 where s: "start small_env sample_service 5 (?w0, HostedKernelRuntime) = (Inr (), (w1, small_runtime {}))"
    using small_start by blast
  let ?w1 = "\<lparr>sk_pending = 3, sk_sockets = {}, sk_bridges = {}, sk_running = True\<rparr>"
  obtain w2 where p: "poll_once 3 small_env sample_service (?w1, small_runtime {}) = (Inr True, (w2, small_runtime {101, 102}))"
    using small_poll [of ?w1] by auto
  have r: "runtime_reaches small_env sample_service (w2, small_runtime {101, 102})"
    by (rule runtime_reaches.polled [OF runtime_reaches.elsewhere [OF
          runtime_reaches.started [OF runtime_reaches.created s]] p])
  have v: "valid_service_config sample_service" by (rule ServiceConfig_init_valid [OF sample_service_init])
  have m: "sc_max_connections sample_service \<noteq> 0" by (simp add: sample_service_def)
  from runtime_within_limit [OF r v] m r show ?thesis
    by (intro exI [of _ w2] exI [of _ "small_runtime {101, 102}"]) (simp add: small_runtime_def)
qed

section \<open>Accepted sockets\<close>

text \<open>
  What the hosted kernel promises of the requests that the runtime makes
  (\<^verbatim>\<open>linux-overlay/arch/tcpcc/kernel/control.c\<close>): \<open>sockets\<close> are the sockets that the client
  holds, \<open>bridges\<close> the live bridges.  The transport may fail: a request that raises anything but
  the status of a response may or may not have been executed, and \<open>lost\<close> says from then on
  that the kernel's state is no longer known.  As long as it is, a refused request changes nothing; an
  accepted socket is new; a started bridge owns its socket; closing a socket is answered by 0
  or \<^verbatim>\<open>EBADF\<close>, and the socket is gone; and a bridge is gone once its result was read, and where the kernel
  refuses to join it for another reason than the timeout.
\<close>

definition hosted_kernel :: "'s channel \<Rightarrow> ('s \<Rightarrow> int set) \<Rightarrow> ('s \<Rightarrow> int set) \<Rightarrow> ('s \<Rightarrow> bool) \<Rightarrow> bool" where
  "hosted_kernel c sockets bridges lost \<longleftrightarrow>
     (\<forall>op h a0 a1 d allowed s r s'. c op h a0 a1 d allowed s = (r, s') \<longrightarrow>
        (lost s \<longrightarrow> lost s') \<and> (\<forall>e. r = Inl e \<longrightarrow> operation_status e = None \<longrightarrow> lost s'))
     \<and> (\<forall>op h a0 a1 d allowed s e s'. c op h a0 a1 d allowed s = (Inl e, s') \<longrightarrow>
          op \<noteq> OP_BRIDGE_JOIN_RESULT \<longrightarrow> op \<noteq> OP_CLOSE \<longrightarrow>
          lost s' \<or> sockets s' = sockets s \<and> bridges s' = bridges s)
     \<and> (\<forall>h a0 a1 d allowed s r s'. c OP_ACCEPT_NONBLOCK h a0 a1 d allowed s = (Inr r, s') \<longrightarrow>
          lost s' \<or> 0 < cr_handle r \<and> cr_handle r \<notin> sockets s
            \<and> sockets s' = insert (cr_handle r) (sockets s) \<and> bridges s' = bridges s)
     \<and> (\<forall>h a0 a1 d allowed s r s'. c OP_BRIDGE_START h a0 a1 d allowed s = (Inr r, s') \<longrightarrow>
          lost s' \<or> 0 < cr_handle r \<and> sockets s' = sockets s - {h} \<and> bridges s' = insert (cr_handle r) (bridges s))
     \<and> (\<forall>h a0 a1 d s r s'. c OP_CLOSE h a0 a1 d [0, - EBADF] s = (r, s') \<longrightarrow>
          lost s' \<or> sockets s' = sockets s - {h} \<and> bridges s' = bridges s)
     \<and> (\<forall>h a0 a1 d allowed s r s'. c OP_GET_CC h a0 a1 d allowed s = (Inr r, s') \<longrightarrow>
          lost s' \<or> sockets s' = sockets s \<and> bridges s' = bridges s)
     \<and> (\<forall>h a0 a1 d allowed s r s'. 1 \<le> a0 \<and> a0 \<le> 30000 \<and> c OP_BRIDGE_JOIN_RESULT h a0 a1 d allowed s = (r, s') \<longrightarrow>
          lost s' \<or> sockets s' = sockets s
          \<and> bridges s' = (case r of
                Inr _ \<Rightarrow> bridges s - {h}
              | Inl e \<Rightarrow> (if operation_status e = Some (- ETIMEDOUT) then bridges s else bridges s - {h})))"

lemma hosted_kernelD:
  assumes "hosted_kernel c sockets bridges lost" "\<not> lost s'"
  shows "c op h a0 a1 d allowed s = (x, s') \<Longrightarrow> \<not> lost s"
    "c op h a0 a1 d allowed s = (Inl e, s') \<Longrightarrow> operation_status e \<noteq> None"
    "c op h a0 a1 d allowed s = (Inl e, s') \<Longrightarrow> op \<noteq> OP_BRIDGE_JOIN_RESULT \<Longrightarrow> op \<noteq> OP_CLOSE
       \<Longrightarrow> sockets s' = sockets s \<and> bridges s' = bridges s"
    "c OP_ACCEPT_NONBLOCK h a0 a1 d allowed s = (Inr r, s') \<Longrightarrow>
       0 < cr_handle r \<and> cr_handle r \<notin> sockets s
          \<and> sockets s' = insert (cr_handle r) (sockets s) \<and> bridges s' = bridges s"
    "c OP_BRIDGE_START h a0 a1 d allowed s = (Inr r, s') \<Longrightarrow>
       0 < cr_handle r \<and> sockets s' = sockets s - {h} \<and> bridges s' = insert (cr_handle r) (bridges s)"
    "c OP_CLOSE h a0 a1 d [0, - EBADF] s = (x, s') \<Longrightarrow> sockets s' = sockets s - {h} \<and> bridges s' = bridges s"
    "c OP_GET_CC h a0 a1 d allowed s = (Inr r, s') \<Longrightarrow> sockets s' = sockets s \<and> bridges s' = bridges s"
    "c OP_BRIDGE_JOIN_RESULT h a0 a1 d allowed s = (x, s') \<Longrightarrow> 1 \<le> a0 \<Longrightarrow> a0 \<le> 30000 \<Longrightarrow>
       sockets s' = sockets s
          \<and> bridges s' = (case x of
                Inr _ \<Rightarrow> bridges s - {h}
              | Inl e \<Rightarrow> (if operation_status e = Some (- ETIMEDOUT) then bridges s else bridges s - {h}))"
proof -
  note k = assms(1) [unfolded hosted_kernel_def]
  note k2 = k [THEN conjunct2] note k3 = k2 [THEN conjunct2] note k4 = k3 [THEN conjunct2]
  note k5 = k4 [THEN conjunct2] note k6 = k5 [THEN conjunct2]
  show "c op h a0 a1 d allowed s = (x, s') \<Longrightarrow> \<not> lost s" using k [THEN conjunct1] assms(2) by blast
  show "c op h a0 a1 d allowed s = (Inl e, s') \<Longrightarrow> operation_status e \<noteq> None"
    using k [THEN conjunct1] assms(2) by blast
  show "c op h a0 a1 d allowed s = (Inl e, s') \<Longrightarrow> op \<noteq> OP_BRIDGE_JOIN_RESULT \<Longrightarrow> op \<noteq> OP_CLOSE
      \<Longrightarrow> sockets s' = sockets s \<and> bridges s' = bridges s" using k2 [THEN conjunct1] assms(2) by blast
  show "c OP_ACCEPT_NONBLOCK h a0 a1 d allowed s = (Inr r, s') \<Longrightarrow>
      0 < cr_handle r \<and> cr_handle r \<notin> sockets s
        \<and> sockets s' = insert (cr_handle r) (sockets s) \<and> bridges s' = bridges s"
    using k3 [THEN conjunct1] assms(2) by blast
  show "c OP_BRIDGE_START h a0 a1 d allowed s = (Inr r, s') \<Longrightarrow>
      0 < cr_handle r \<and> sockets s' = sockets s - {h} \<and> bridges s' = insert (cr_handle r) (bridges s)"
    using k4 [THEN conjunct1] assms(2) by blast
  show "c OP_CLOSE h a0 a1 d [0, - EBADF] s = (x, s') \<Longrightarrow> sockets s' = sockets s - {h} \<and> bridges s' = bridges s"
    using k5 [THEN conjunct1] assms(2) by blast
  show "c OP_GET_CC h a0 a1 d allowed s = (Inr r, s') \<Longrightarrow> sockets s' = sockets s \<and> bridges s' = bridges s"
    using k6 [THEN conjunct1] assms(2) by blast
  show "c OP_BRIDGE_JOIN_RESULT h a0 a1 d allowed s = (x, s') \<Longrightarrow> 1 \<le> a0 \<Longrightarrow> a0 \<le> 30000 \<Longrightarrow>
      sockets s' = sockets s
        \<and> bridges s' = (case x of
              Inr _ \<Rightarrow> bridges s - {h}
            | Inl e \<Rightarrow> (if operation_status e = Some (- ETIMEDOUT) then bridges s else bridges s - {h}))"
    using k6 [THEN conjunct2] assms(2) by blast
qed

text \<open>Printing, and looking at the process, changes nothing that is observed.\<close>

definition quiet :: "'s runtime_env \<Rightarrow> ('s \<Rightarrow> 'v) \<Rightarrow> bool" where
  "quiet env obs \<longleftrightarrow>
     (\<forall>event members. keeps obs (em_event (re_emitter env) event members))
     \<and> (\<forall>message. keeps obs (em_diagnostic (re_emitter env) message)) \<and> keeps obs (re_clock env)"

lemma quietD:
  assumes "quiet env obs"
  shows "keeps (\<lambda>t. (obs (fst t), snd t)) (emit env event members)"
    "keeps (\<lambda>t. (obs (fst t), snd t)) (diagnose env message)"
    "keeps (\<lambda>t. (obs (fst t), snd t)) (on_fst (re_clock env) :: ('s, rat) rpy)"
  using assms unfolding quiet_def keeps_def emit_def diagnose_def on_fst_def
  by (auto split: prod.splits)

lemma quiet_get: "keeps (\<lambda>t. (obs (fst t), snd t)) (rt_get f)"
  by (rule keepsI) (simp add: rt_get_def)

lemma rt_transact_run:
  assumes "rt_control (snd t) = Some c" "c op h a0 a1 d allowed (fst t) = (x, s)"
  shows "rt_transact op h a0 a1 d allowed t = (x, (s, snd t))"
  using assms by (simp add: rt_transact_def channel_def pbind_def on_fst_def)

text \<open>The effects below hold where the kernel's state is still known afterwards.\<close>

lemma verify_cc_effect:
  assumes "hosted_kernel c sockets bridges lost" "rt_control (snd t) = Some c" "verify_cc config h l t = (r, t')"
  shows "snd t' = snd t \<and> (\<not> lost (fst t') \<longrightarrow>
    \<not> lost (fst t) \<and> sockets (fst t') = sockets (fst t) \<and> bridges (fst t') = bridges (fst t))"
proof -
  obtain x s where x: "c OP_GET_CC h 0 0 [] [0] (fst t) = (x, s)" by (cases "c OP_GET_CC h 0 0 [] [0] (fst t)")
  have "\<not> lost (fst t) \<and> sockets s = sockets (fst t) \<and> bridges s = bridges (fst t)" if n: "\<not> lost s"
  proof (cases x)
    case (Inl e)
    show ?thesis using hosted_kernelD(1) [OF assms(1) n x] hosted_kernelD(3) [OF assms(1) n x [unfolded Inl]]
      by (simp add: op_defs)
  next
    case (Inr y)
    show ?thesis using hosted_kernelD(1) [OF assms(1) n x] hosted_kernelD(7) [OF assms(1) n x [unfolded Inr]] by simp
  qed
  moreover have "t' = (s, snd t)"
    using assms(3) rt_transact_run [OF assms(2) x]
    by (auto simp: verify_cc_def pbind_def praise_def pret_def split: sum.splits option.splits if_splits)
  ultimately show ?thesis by simp
qed

abbreviation seen :: "('s \<Rightarrow> int set) \<Rightarrow> ('s \<Rightarrow> int set) \<Rightarrow> ('s \<Rightarrow> bool) \<Rightarrow> 's \<Rightarrow> int set \<times> int set \<times> bool" where
  "seen sockets bridges lost \<equiv> \<lambda>w. (sockets w, bridges w, lost w)"

lemma bridge_answer_effect:
  assumes "hosted_kernel c sockets bridges lost" "quiet env (seen sockets bridges lost)"
    "c OP_BRIDGE_START a u p [] [0] s = (x, s1)" "bridge_answer env config x (s1, rt) = (r, t')"
  shows "snd t' = rt \<and> (\<not> lost (fst t') \<longrightarrow> \<not> lost s \<and>
    (case r of
       Inr (Some h) \<Rightarrow> sockets (fst t') = sockets s - {a} \<and> bridges (fst t') = insert h (bridges s)
     | _ \<Rightarrow> sockets (fst t') = sockets s \<and> bridges (fst t') = bridges s))"
proof (cases x)
  case (Inr y)
  have t': "t' = (s1, rt)" "\<And>h. r = Inr (Some h) \<Longrightarrow> h = cr_handle y" "r = Inl e \<Longrightarrow> cr_handle y \<le> 0" "r \<noteq> Inr None" for e
    using assms(4) Inr by (auto simp: bridge_answer_def pret_def praise_def split: if_splits)
  show ?thesis
  proof (cases "lost s1")
    case False
    note k = hosted_kernelD(5) [OF assms(1) False assms(3) [unfolded Inr]] hosted_kernelD(1) [OF assms(1) False assms(3)]
    with t' show ?thesis by (cases r) (auto split: option.splits)
  qed (use t'(1) in simp)
next
  case (Inl e)
  have k: "keeps (\<lambda>t. (seen sockets bridges lost (fst t), snd t)) (bridge_answer env config x)"
    unfolding Inl bridge_answer_def sum.case by (intro keeps_intros quietD [OF assms(2)])
  have ya: "yields (\<lambda>v. v = None) (bridge_answer env config x)"
    unfolding Inl bridge_answer_def sum.case by (intro yields_intros) simp_all
  have s: "\<not> lost s \<and> sockets s1 = sockets s \<and> bridges s1 = bridges s" if "\<not> lost s1"
    using hosted_kernelD(3) [OF assms(1) that assms(3) [unfolded Inl]] hosted_kernelD(1) [OF assms(1) that assms(3)]
    by (simp add: op_defs)
  have "r = Inr y \<Longrightarrow> y = None" for y using yieldsD [OF ya] assms(4) by metis
  with keepsD [OF k assms(4)] s show ?thesis by (auto split: sum.splits option.splits)
qed

lemma offer_bridge_effect:
  assumes "hosted_kernel c sockets bridges lost" "quiet env (seen sockets bridges lost)"
    "rt_control (snd t) = Some c" "offer_bridge env config a t = (r, t')"
  shows "snd t' = snd t \<and> (\<not> lost (fst t') \<longrightarrow> \<not> lost (fst t) \<and>
    (case r of
       Inr (Some h) \<Rightarrow> sockets (fst t') = sockets (fst t) - {a} \<and> bridges (fst t') = insert h (bridges (fst t))
     | _ \<Rightarrow> sockets (fst t') = sockets (fst t) \<and> bridges (fst t') = bridges (fst t)))"
proof -
  obtain v t1 where v: "verify_cc config a ''accepted socket'' t = (v, t1)"
    by (cases "verify_cc config a ''accepted socket'' t")
  note t1 = verify_cc_effect [OF assms(1,3) v]
  show ?thesis
  proof (cases "v = Inr () \<and> (\<exists>u. Endpoint_ipv4_u32 (sc_backend config) = Inr u)")
    case False
    have "\<exists>e. r = Inl e \<and> t' = t1"
    proof (cases v)
      case (Inl e)
      with assms(4) v show ?thesis by (auto simp: offer_bridge_def pthen_def pbind_def)
    next
      case (Inr z)
      with False obtain e where e: "Endpoint_ipv4_u32 (sc_backend config) = Inl e"
        by (cases "Endpoint_ipv4_u32 (sc_backend config)") auto
      then have "operation_status e = None" by (auto simp: Endpoint_ipv4_u32_def split: option.splits)
      with Inr e assms(3,4) v t1 show ?thesis
        by (auto simp: offer_bridge_def bridge_answer_def pthen_def pbind_def pattempt_def channel_def plift_def praise_def)
    qed
    with t1 show ?thesis by auto
  next
    case True
    then obtain u where u: "v = Inr ()" "Endpoint_ipv4_u32 (sc_backend config) = Inr u" by blast
    obtain x s where x: "c OP_BRIDGE_START a u (ep_port (sc_backend config)) [] [0] (fst t1) = (x, s)"
      by (cases "c OP_BRIDGE_START a u (ep_port (sc_backend config)) [] [0] (fst t1)")
    have "bridge_answer env config x (s, snd t) = (r, t')"
      using assms(3,4) v u x t1
      by (simp add: offer_bridge_def pthen_def pbind_def pattempt_def channel_def plift_def on_fst_def)
    from bridge_answer_effect [OF assms(1,2) x this] t1 show ?thesis by (auto split: sum.splits option.splits)
  qed
qed

text \<open>
  The object tracks every live bridge and holds no socket beyond \<open>held\<close>, those of the start;
  where \<open>exact\<close> is set it tracks no other bridge either.
\<close>

definition tracked ::
  "bool \<Rightarrow> 's channel \<Rightarrow> ('s \<Rightarrow> int set) \<Rightarrow> ('s \<Rightarrow> int set) \<Rightarrow> ('s \<Rightarrow> bool) \<Rightarrow> int set \<Rightarrow> 's \<times> 's runtime \<Rightarrow> bool" where
  "tracked exact c sockets bridges lost held t \<longleftrightarrow>
     rt_control (snd t) = Some c \<and> (\<not> lost (fst t) \<longrightarrow>
       sockets (fst t) = held \<and> bridges (fst t) \<subseteq> rt_active_bridges (snd t)
       \<and> (exact \<longrightarrow> rt_active_bridges (snd t) \<subseteq> bridges (fst t)))"

lemma release_accepted_effect:
  assumes "hosted_kernel c sockets bridges lost" "quiet env (seen sockets bridges lost)"
    "rt_control (snd t) = Some c" "release_accepted env a t = (r, t')"
  shows "snd t' = snd t \<and> (\<not> lost (fst t') \<longrightarrow>
    \<not> lost (fst t) \<and> sockets (fst t') = sockets (fst t) - {a} \<and> bridges (fst t') = bridges (fst t))"
proof -
  obtain x s where x: "c OP_CLOSE a 0 0 [] [0, - EBADF] (fst t) = (x, s)" by (cases "c OP_CLOSE a 0 0 [] [0, - EBADF] (fst t)")
  note run = rt_transact_run [OF assms(3) x]
  have s: "\<not> lost (fst t) \<and> sockets s = sockets (fst t) - {a} \<and> bridges s = bridges (fst t)" if "\<not> lost s"
    using hosted_kernelD(1,6) [OF assms(1) that x] by simp
  show ?thesis
  proof (cases x)
    case (Inr y)
    with run assms(4) s show ?thesis by (auto simp: release_accepted_def phandle_def pthen_def pbind_def pret_def)
  next
    case (Inl e)
    with run assms(4) have d: "diagnose env (''accepted socket '' @ str_int a @ '' cleanup failed: '' @ exn_str (re_strerror env) e) (s, snd t) = (r, t')"
      by (simp add: release_accepted_def phandle_def pthen_def pbind_def)
    from keepsD [OF quietD(2) [OF assms(2)] d] s show ?thesis by auto
  qed
qed

lemma tracked_serve_accepted:
  assumes "hosted_kernel c sockets bridges lost" "quiet env (seen sockets bridges lost)" "a \<notin> held"
    "tracked exact c sockets bridges lost (insert a held) t" "serve_accepted env config a t = (r, t')"
  shows "tracked exact c sockets bridges lost held t' \<and> (lost (fst t) \<longrightarrow> lost (fst t'))"
proof -
  have t: "rt_control (snd t) = Some c" using assms(4) by (simp add: tracked_def)
  obtain x t1 where x: "offer_bridge env config a t = (x, t1)" by (cases "offer_bridge env config a t")
  note o1 = offer_bridge_effect [OF assms(1,2) t x]
  have c1: "rt_control (snd t1) = Some c" using o1 t by simp
  show ?thesis
  proof (cases "\<exists>h. x = Inr (Some h)")
    case True
    then obtain h where h: "x = Inr (Some h)" by blast
    let ?opened = "pbind (plift (Endpoint_str (sc_backend config))) (\<lambda>backend.
            pbind (rt_get active_connections) (\<lambda>active.
              emit env ''connection-opened''
                [(''bridge_handle'', JInt h), (''accepted_cc'', JStr (sc_cc config)), (''backend'', JStr backend),
                 (''active_connections'', JInt active), (''max_connections'', JInt (sc_max_connections config))]))"
    let ?t2 = "(fst t1, (snd t1)\<lparr>rt_active_bridges := insert h (rt_active_bridges (snd t1))\<rparr>)"
    have run: "?opened ?t2 = (r, t')" using h assms(5) x
      by (simp add: serve_accepted_def pbind_def pattempt_def pthen_def rt_mod_def)
    have "keeps (\<lambda>t. (seen sockets bridges lost (fst t), snd t)) ?opened"
      by (intro keeps_intros quiet_get quietD [OF assms(2)])
    from keepsD [OF this run] o1 h assms(3,4) show ?thesis by (auto simp: tracked_def)
  next
    case False
    then have same: "\<not> lost (fst t1) \<longrightarrow> \<not> lost (fst t) \<and> sockets (fst t1) = sockets (fst t) \<and> bridges (fst t1) = bridges (fst t)"
      using o1 by (auto split: sum.splits option.splits)
    obtain y t2 where y: "release_accepted env a t1 = (y, t2)" by (cases "release_accepted env a t1")
    have "t' = t2" using assms(5) x y False
      by (auto simp: serve_accepted_def pbind_def pattempt_def pthen_def praise_def split: sum.splits option.splits)
    with release_accepted_effect [OF assms(1,2) c1 y] same o1 assms(3,4) show ?thesis by (auto simp: tracked_def)
  qed
qed

lemma discard_then:
  assumes "keeps (\<lambda>t. (obs (fst t), snd t)) m" "pthen (discard_bridge h) m t = (r, t')"
  shows "obs (fst t') = obs (fst t) \<and> snd t' = (snd t)\<lparr>rt_active_bridges := rt_active_bridges (snd t) - {h}\<rparr>"
proof -
  have "m (fst t, (snd t)\<lparr>rt_active_bridges := rt_active_bridges (snd t) - {h}\<rparr>) = (r, t')"
    using assms(2) by (simp add: discard_bridge_def rt_mod_def pthen_def pbind_def)
  from keepsD [OF assms(1) this] show ?thesis by simp
qed

lemma bridge_closed_effect:
  assumes "quiet env obs"
  shows "bridge_failed env config h st t = (r, t') \<Longrightarrow>
      obs (fst t') = obs (fst t) \<and> snd t' = (snd t)\<lparr>rt_active_bridges := rt_active_bridges (snd t) - {h}\<rparr>"
    "bridge_joined env config h result t = (r, t') \<Longrightarrow>
      obs (fst t') = obs (fst t) \<and> snd t' = (snd t)\<lparr>rt_active_bridges := rt_active_bridges (snd t) - {h}\<rparr>"
  unfolding bridge_failed_def bridge_joined_def
  by (erule discard_then [rotated], intro keeps_intros quiet_get quietD [OF assms])+

lemma join_bridge_cases:
  assumes "rt_control (snd t) = Some c" "c OP_BRIDGE_JOIN_RESULT h ms 0 [] [0] (fst t) = (x, s)"
    "join_bridge_result env config h ms t = (r, t')"
  obtains (kept) "t' = (s, snd t)" "case x of Inl e \<Rightarrow> operation_status e = None \<or> operation_status e = Some (- ETIMEDOUT) | Inr _ \<Rightarrow> True"
      "isl r \<or> r = Inr False \<and> (\<exists>e. x = Inl e \<and> operation_status e = Some (- ETIMEDOUT))"
  | (failed) e st where "x = Inl e" "operation_status e = Some st" "st \<noteq> - ETIMEDOUT" "bridge_failed env config h st (s, snd t) = (r, t')"
  | (joined) y result where "x = Inr y" "bridge_joined env config h result (s, snd t) = (r, t')"
proof (cases x)
  case (Inl e)
  show thesis
  proof (cases "operation_status e = None \<or> operation_status e = Some (- ETIMEDOUT)")
    case True
    with Inl rt_transact_run [OF assms(1,2)] assms(3) have "t' = (s, snd t)"
      "isl r \<or> r = Inr False \<and> (\<exists>e. x = Inl e \<and> operation_status e = Some (- ETIMEDOUT))"
      by (auto simp: join_bridge_result_def pbind_def pattempt_def praise_def pret_def)
    with True Inl kept show thesis by simp
  next
    case False
    then obtain st where st: "operation_status e = Some st" "st \<noteq> - ETIMEDOUT" by auto
    with Inl rt_transact_run [OF assms(1,2)] assms(3) have "bridge_failed env config h st (s, snd t) = (r, t')"
      by (simp add: join_bridge_result_def pbind_def pattempt_def)
    with Inl st failed show thesis by blast
  qed
next
  case (Inr y)
  let ?d = "decode_bridge_result (PBytes (cr_data y)) True"
  show thesis
  proof (cases "\<exists>result. ?d = Inr result \<and> validate_bridge_contract result = Inr ()")
    case True
    then obtain result where d: "?d = Inr result" "validate_bridge_contract result = Inr ()" by blast
    with Inr rt_transact_run [OF assms(1,2)] assms(3) have "bridge_joined env config h result (s, snd t) = (r, t')"
      by (simp add: join_bridge_result_def pbind_def pattempt_def pthen_def plift_def)
    with Inr joined show thesis by blast
  next
    case False
    with Inr rt_transact_run [OF assms(1,2)] assms(3) have "t' = (s, snd t)" "isl r"
      by (auto simp: join_bridge_result_def pbind_def pattempt_def pthen_def plift_def split: sum.splits)
    with Inr kept show thesis by simp
  qed
qed

text \<open>
  A step that returns keeps \<open>P\<close>, and one that raises at least keeps \<open>Q\<close>.
\<close>

definition settles :: "('s \<Rightarrow> bool) \<Rightarrow> ('s \<Rightarrow> bool) \<Rightarrow> ('s, 'a) py \<Rightarrow> bool" where
  "settles P Q m \<longleftrightarrow> (\<forall>s r s'. P s \<longrightarrow> m s = (r, s') \<longrightarrow> (if isl r then Q s' else P s'))"

lemma settlesD: "settles P Q m \<Longrightarrow> P s \<Longrightarrow> m s = (r, s') \<Longrightarrow> if isl r then Q s' else P s'"
  unfolding settles_def by blast

lemma settlesI: "(\<And>s r s'. P s \<Longrightarrow> m s = (r, s') \<Longrightarrow> if isl r then Q s' else P s') \<Longrightarrow> settles P Q m"
  unfolding settles_def by blast

lemma settles_preserves:
  assumes "preserves P m" "\<And>s. P s \<Longrightarrow> Q s"
  shows "settles P Q m"
proof (rule settlesI)
  fix s r s'
  assume "P s" "m s = (r, s')"
  then have "P s'" by (rule preservesD [OF assms(1), rotated])
  with assms(2) show "if isl r then Q s' else P s'" by simp
qed

lemma settles_pbind:
  assumes "settles P Q m" "\<And>x. settles P Q (f x)"
  shows "settles P Q (pbind m f)"
proof (rule settlesI)
  fix s r s'
  assume p: "P s" and run: "pbind m f s = (r, s')"
  obtain x s1 where x: "m s = (x, s1)" by (cases "m s")
  note s1 = settlesD [OF assms(1) p x]
  show "if isl r then Q s' else P s'"
  proof (cases x)
    case (Inl e)
    with run x s1 show ?thesis by (auto simp: pbind_def)
  next
    case (Inr v)
    with run x have "f v s1 = (r, s')" by (simp add: pbind_def)
    from settlesD [OF assms(2) _ this] s1 Inr show ?thesis by simp
  qed
qed

lemma settles_pthen: "settles P Q m \<Longrightarrow> settles P Q k \<Longrightarrow> settles P Q (pthen m k)"
  unfolding pthen_def by (rule settles_pbind)

lemma settles_pret: "settles P Q (pret x)"
  by (rule settlesI) (auto simp: pret_def)

lemma settles_if: "settles P Q m \<Longrightarrow> settles P Q k \<Longrightarrow> settles P Q (if b then m else k)"
  by simp

lemma settles_option: "settles P Q m \<Longrightarrow> (\<And>x. settles P Q (f x)) \<Longrightarrow> settles P Q (case v of None \<Rightarrow> m | Some x \<Rightarrow> f x)"
  by (cases v) simp_all

lemma settles_pfor: "(\<And>x. settles P Q (f x)) \<Longrightarrow> settles P Q (pfor f xs)"
  by (induction xs) (simp_all add: settles_pret settles_pthen)

lemmas settles_intros = settles_pbind settles_pthen settles_pret settles_if settles_option settles_pfor

lemma tracked_weaken: "tracked exact c sockets bridges lost held t \<Longrightarrow> tracked False c sockets bridges lost held t"
  by (simp add: tracked_def)

lemma tracked_join:
  assumes "hosted_kernel c sockets bridges lost" "quiet env (seen sockets bridges lost)" "1 \<le> ms" "ms \<le> 30000"
  shows "settles (tracked exact c sockets bridges lost held) (tracked False c sockets bridges lost held)
    (join_bridge_result env config h ms)"
proof (rule settlesI)
  fix t r t'
  assume t: "tracked exact c sockets bridges lost held t" and run: "join_bridge_result env config h ms t = (r, t')"
  have ctl: "rt_control (snd t) = Some c" using t by (simp add: tracked_def)
  obtain x s where x: "c OP_BRIDGE_JOIN_RESULT h ms 0 [] [0] (fst t) = (x, s)"
    by (cases "c OP_BRIDGE_JOIN_RESULT h ms 0 [] [0] (fst t)")
  have k: "\<not> lost (fst t) \<and> sockets s = sockets (fst t) \<and> bridges s = (case x of
        Inr _ \<Rightarrow> bridges (fst t) - {h}
      | Inl e \<Rightarrow> (if operation_status e = Some (- ETIMEDOUT) then bridges (fst t) else bridges (fst t) - {h}))" if "\<not> lost s"
    using hosted_kernelD(1) [OF assms(1) that x] hosted_kernelD(8) [OF assms(1) that x assms(3,4)] by simp
  from ctl x run show "if isl r then tracked False c sockets bridges lost held t' else tracked exact c sockets bridges lost held t'"
  proof (cases rule: join_bridge_cases)
    case kept
    from kept(3) show ?thesis
    proof
      assume "isl r"
      with kept(1) k t show ?thesis by (auto simp: tracked_def split: sum.splits if_splits)
    next
      assume "r = Inr False \<and> (\<exists>e. x = Inl e \<and> operation_status e = Some (- ETIMEDOUT))"
      with kept(1) k t show ?thesis by (auto simp: tracked_def)
    qed
  next
    case (failed e st)
    have "tracked exact c sockets bridges lost held t'"
      using bridge_closed_effect(1) [OF assms(2) failed(4)] k failed t by (auto simp: tracked_def)
    then show ?thesis by (simp add: tracked_weaken)
  next
    case (joined y result)
    have "tracked exact c sockets bridges lost held t'"
      using bridge_closed_effect(2) [OF assms(2) joined(2)] k joined t by (auto simp: tracked_def)
    then show ?thesis by (simp add: tracked_weaken)
  qed
qed

lemma tracked_accept_one:
  assumes "hosted_kernel c sockets bridges lost" "quiet env (seen sockets bridges lost)"
  shows "preserves (tracked exact c sockets bridges lost held) (accept_one env config l)"
proof (rule preservesI)
  fix t r t'
  assume t: "tracked exact c sockets bridges lost held t" and run: "accept_one env config l t = (r, t')"
  have ctl: "rt_control (snd t) = Some c" using t by (simp add: tracked_def)
  obtain x s where x: "c OP_ACCEPT_NONBLOCK l 0 0 [] [0] (fst t) = (x, s)"
    by (cases "c OP_ACCEPT_NONBLOCK l 0 0 [] [0] (fst t)")
  note tx = rt_transact_run [OF ctl x]
  show "tracked exact c sockets bridges lost held t'"
  proof (cases "\<exists>y. x = Inr y \<and> 0 < cr_handle y")
    case False
    have t': "t' = (s, snd t)" using tx run False
      by (auto simp: accept_one_def pbind_def pattempt_def praise_def pret_def split: sum.splits if_splits)
    have "\<not> lost (fst t) \<and> sockets s = sockets (fst t) \<and> bridges s = bridges (fst t)" if n: "\<not> lost s"
    proof (cases x)
      case (Inl e)
      show ?thesis using hosted_kernelD(1) [OF assms(1) n x] hosted_kernelD(3) [OF assms(1) n x [unfolded Inl]]
        by (simp add: op_defs)
    next
      case (Inr y)
      with False hosted_kernelD(4) [OF assms(1) n x [unfolded Inr]] show ?thesis by simp
    qed
    with t t' show ?thesis by (auto simp: tracked_def)
  next
    case True
    then obtain y where y: "x = Inr y" "0 < cr_handle y" by blast
    obtain z t2 where z: "serve_accepted env config (cr_handle y) (s, snd t) = (z, t2)"
      by (cases "serve_accepted env config (cr_handle y) (s, snd t)")
    have t': "t' = t2" using run tx y z
      by (simp add: accept_one_def pbind_def pattempt_def pthen_def pret_def split: sum.splits)
    show ?thesis
    proof (cases "lost s")
      case True
      have "tracked exact c sockets bridges lost {cr_handle y} (s, snd t)" using True ctl by (simp add: tracked_def)
      with tracked_serve_accepted [OF assms _ _ z, of "{}" exact] True
      have "tracked exact c sockets bridges lost {} t2 \<and> lost (fst t2)" by simp
      with t' show ?thesis by (simp add: tracked_def)
    next
      case False
      note k = hosted_kernelD(4) [OF assms(1) False x [unfolded y(1)]] hosted_kernelD(1) [OF assms(1) False x]
      have "tracked exact c sockets bridges lost (insert (cr_handle y) held) (s, snd t)" "cr_handle y \<notin> held"
        using k t by (auto simp: tracked_def)
      with tracked_serve_accepted [OF assms _ _ z] t' show ?thesis by blast
    qed
  qed
qed

lemma tracked_get: "preserves (tracked exact c sockets bridges lost held) (rt_get f)"
  by (rule preservesI) (simp add: rt_get_def)

lemma tracked_accept_loop:
  assumes "hosted_kernel c sockets bridges lost" "quiet env (seen sockets bridges lost)"
  shows "preserves (tracked exact c sockets bridges lost held) (accept_loop k env config l)"
proof (induction k)
  case (Suc k)
  show ?case unfolding accept_loop.simps
    by (intro preserves_intros tracked_get tracked_accept_one [OF assms] Suc.IH)
qed (simp add: preserves_pret)

text \<open>
  C6: Polling the runtime leaves no accepted socket behind and no bridge untracked.  As long as the
  transport does not fail, whatever the kernel answers and whatever is raised, the sockets that the
  client holds are the same afterwards and every live bridge is among the tracked ones; and a
  poll that returns leaves no other bridge tracked where none was before.  (A poll that raises may: a result that
  was read but is not accepted leaves its bridge tracked.)
\<close>

theorem poll_once_no_socket_leak:
  assumes "hosted_kernel c sockets bridges lost" "quiet env (\<lambda>w. (sockets w, bridges w, lost w))"
    "rt_control rt = Some c" "rt_process rt = Some p" "keeps (\<lambda>w. (sockets w, bridges w, lost w)) (p_poll p)"
    "bridges s \<subseteq> rt_active_bridges rt" "poll_once k env config (s, rt) = (r, (s', rt'))" "\<not> lost s'"
  shows "sockets s' = sockets s \<and> bridges s' \<subseteq> rt_active_bridges rt'
    \<and> (bridges s = rt_active_bridges rt \<and> \<not> isl r \<longrightarrow> bridges s' = rt_active_bridges rt')"
proof -
  define exact where "exact \<longleftrightarrow> bridges s = rt_active_bridges rt"
  let ?P = "tracked exact c sockets bridges lost (sockets s)" and ?Q = "tracked False c sockets bridges lost (sockets s)"
  note weaken = tracked_weaken [of exact c sockets bridges lost "sockets s"]
  obtain x s1 where x: "p_poll p s = (x, s1)" by (cases "p_poll p s")
  have s1: "sockets s1 = sockets s" "bridges s1 = bridges s" "lost s1 = lost s" using keepsD [OF assms(5) x] by simp_all
  have P1: "?P (s1, rt)" using s1 assms(3,6) by (simp add: tracked_def exact_def)
  show ?thesis
  proof (cases "x = Inr None")
    case True
    then have run: "pthen (reap_bridges env config) (accept_available k env config) (s1, rt) = (r, (s', rt'))"
      using assms(4,7) x by (simp add: poll_once_def ensure_running_def pthen_def pbind_def on_fst_def pret_def)
    have reap: "settles ?P ?Q (reap_bridges env config)"
      unfolding reap_bridges_def BRIDGE_JOIN_POLL_MS_def
      by (intro settles_intros settles_preserves [OF tracked_get weaken] tracked_join [OF assms(1,2)]) simp_all
    have "preserves ?P (accept_available k env config)"
      unfolding accept_available_def by (intro preserves_intros tracked_get tracked_accept_loop [OF assms(1,2)])
    from settlesD [OF settles_pthen [OF reap settles_preserves [OF this weaken]] P1 run] assms(8) show ?thesis
      by (auto simp: tracked_def exact_def split: if_splits)
  next
    case False
    then have "s' = s1 \<and> rt' = rt" using assms(4,7) x
      by (auto simp: poll_once_def ensure_running_def pthen_def pbind_def on_fst_def pret_def praise_def
          split: sum.splits option.splits)
    with s1 assms(6) show ?thesis by simp
  qed
qed

text \<open>The small kernel accepts a socket number again only after it was given back.\<close>

definition fresh_tx :: "small_kernel channel" where
  "fresh_tx op h a0 a1 d allowed w =
     (if op = OP_ACCEPT_NONBLOCK \<and> (\<exists>n. sk_pending w = Suc n \<and> int n + 10 \<in> sk_sockets w)
      then (Inl (ControlOperationError op (- EAGAIN)), w)
      else if op = OP_BRIDGE_START \<and> h \<le> 0 then (Inl (ControlOperationError op (- EBADF)), w)
      else small_tx op h a0 a1 d allowed w)"

lemma fresh_tx_hosted: "hosted_kernel fresh_tx sk_sockets sk_bridges (\<lambda>_. False)"
  unfolding hosted_kernel_def
  by (intro conjI allI impI)
    (auto simp: fresh_tx_def small_tx_def op_defs answer_def ENOENT_def ETIMEDOUT_def split: if_splits nat.splits)

lemma small_env_quiet: "quiet small_env obs"
  unfolding quiet_def small_env_def by (simp add: keeps_pret)

lemma fresh_poll:
  "\<exists>w' rt'. poll_once 2 small_env sample_service
       (\<lparr>sk_pending = 1, sk_sockets = {1}, sk_bridges = {}, sk_running = True\<rparr>,
        (small_runtime {})\<lparr>rt_control := Some fresh_tx\<rparr>) = (Inr True, (w', rt')) \<and> rt_active_bridges rt' = {100}"
proof -
  obtain t where t: "Endpoint_str (sc_backend sample_service) = Inr t" using sample_backend(1) by blast
  obtain u where u: "Endpoint_ipv4_u32 (sc_backend sample_service) = Inr u" using sample_backend(2) by blast
  have c: "sc_cc sample_service = ''bbr''" "sc_max_connections sample_service = 2" by (simp_all add: sample_service_def)
  show ?thesis
    by (simp add: poll_once_def ensure_running_def reap_bridges_def accept_available_def numeral_2_eq_2 accept_one_def
        serve_accepted_def offer_bridge_def bridge_answer_def verify_cc_def rt_transact_def channel_def emit_def
        small_runtime_def small_env_def small_process_def fresh_tx_def small_tx_def op_defs answer_def pbind_def pthen_def
        pattempt_def on_fst_def pret_def plift_def decode_bbr c t u rt_mod_def rt_get_def admits_def active_connections_def)
qed

theorem poll_once_no_socket_leak_witness:
  "\<exists>w' rt'. poll_once 2 small_env sample_service
       (\<lparr>sk_pending = 1, sk_sockets = {1}, sk_bridges = {}, sk_running = True\<rparr>,
        (small_runtime {})\<lparr>rt_control := Some fresh_tx\<rparr>) = (Inr True, (w', rt'))
     \<and> sk_sockets w' = {1} \<and> sk_bridges w' = {100}"
proof -
  let ?w = "\<lparr>sk_pending = 1, sk_sockets = {1}, sk_bridges = {}, sk_running = True\<rparr>"
  let ?rt = "(small_runtime {})\<lparr>rt_control := Some fresh_tx\<rparr>"
  obtain w' rt' where run: "poll_once 2 small_env sample_service (?w, ?rt) = (Inr True, (w', rt'))"
    "rt_active_bridges rt' = {100}" using fresh_poll by blast
  have "sk_sockets w' = sk_sockets ?w \<and> sk_bridges w' \<subseteq> rt_active_bridges rt'
      \<and> (sk_bridges ?w = rt_active_bridges ?rt \<and> \<not> isl (Inr True :: exn + bool) \<longrightarrow> sk_bridges w' = rt_active_bridges rt')"
    by (rule poll_once_no_socket_leak [OF fresh_tx_hosted small_env_quiet _ _ _ _ run(1), where p = small_process])
      (simp_all add: small_runtime_def small_process_def keeps_def)
  then have "sk_sockets w' = {1}" "sk_bridges w' = {100}" using run(2) by (simp_all add: small_runtime_def)
  with run(1) show ?thesis by blast
qed

end
