(* ===== verification/Runtime_Shutdown.thy ===== *)
theory Runtime_Shutdown
  imports Runtime_Safety Journal
begin

text \<open>
  The end of the hosted runtime: a second shutdown does nothing, a shutdown that returns leaves no
  process behind and its pipes closed, and both the accept loop and the drain come to an end.
\<close>

section \<open>Closing once\<close>

text \<open>\<open>shutdown\<close> as the \<open>close\<close> of the object that holds the kernel.\<close>

definition runtime_close ::
  "nat \<Rightarrow> 's runtime_env \<Rightarrow> ServiceConfig \<Rightarrow> 's runtime \<Rightarrow> 's \<Rightarrow> (exn + unit) \<times> 's runtime \<times> 's" where
  "runtime_close n env config rt s =
     (case shutdown n env config (s, rt) of
        (r, (s', rt')) \<Rightarrow> (case r of Inl e \<Rightarrow> Inl e | Inr _ \<Rightarrow> Inr (), rt', s'))"

lemma shutdown_closes:
  assumes "shutdown n env config t = (r, t')"
  shows "rt_closed (snd t')"
proof -
  let ?t1 = "(fst t, (snd t)\<lparr>rt_closed := True\<rparr>)"
  show ?thesis
  proof (cases "rt_closed (snd t) \<or> rt_process (snd t) = None")
    case True
    with assms show ?thesis by (auto simp: shutdown_def Let_def split: if_splits)
  next
    case False
    then obtain p where p: "rt_process (snd t) = Some p" "\<not> rt_closed (snd t)" by auto
    have run: "stop_process n env config p ?t1 = (r, t')" using assms p by (simp add: shutdown_def Let_def)
    from preservesD [OF closed.holds_stop_process [OF field_steps(1)] run] show ?thesis by simp
  qed
qed

interpretation runtime_lease: lease "runtime_close n env config" rt_closed
  for n and env :: "'s runtime_env" and config
proof
  fix rt rt' :: "'s runtime" and s s' r
  assume "runtime_close n env config rt s = (r, rt', s')"
  then obtain x where "shutdown n env config (s, rt) = (x, (s', rt'))"
    by (auto simp: runtime_close_def split: prod.splits)
  from shutdown_closes [OF this] show "rt_closed rt'" by simp
next
  fix rt :: "'s runtime" and s
  assume "rt_closed rt"
  then show "runtime_close n env config rt s = (Inr (), rt, s)" by (simp add: runtime_close_def shutdown_def)
qed

section \<open>The process is gone\<close>

text \<open>
  What \<^verbatim>\<open>subprocess.Popen\<close> documents: \<open>poll\<close> reports a status exactly when the process has ended, a
  \<open>wait\<close> that returns saw it end, and \<open>close\<close> closes a pipe even where it raises.  The pipes are
  numbered 0 and 1.
\<close>

definition pipe_closes :: "'s callback option \<Rightarrow> ('s \<Rightarrow> bool) \<Rightarrow> ('s \<Rightarrow> nat set) \<Rightarrow> nat \<Rightarrow> bool" where
  "pipe_closes pipe alive pipes i \<longleftrightarrow>
     (case pipe of
        None \<Rightarrow> False
      | Some f \<Rightarrow> \<forall>s r s'. f s = (r, s') \<longrightarrow> alive s' = alive s \<and> pipes s' = pipes s - {i})"

definition process_contract :: "'s process \<Rightarrow> ('s \<Rightarrow> bool) \<Rightarrow> ('s \<Rightarrow> nat set) \<Rightarrow> bool" where
  "process_contract p alive pipes \<longleftrightarrow>
     (\<forall>s r s'. p_poll p s = (r, s') \<longrightarrow> (\<exists>st. r = Inr st \<and> (st = None \<longleftrightarrow> alive s)) \<and> alive s' = alive s)
     \<and> (\<forall>q s st s'. p_wait p q s = (Inr st, s') \<longrightarrow> \<not> alive s')
     \<and> pipe_closes (p_stdin p) alive pipes 0 \<and> pipe_closes (p_stdout p) alive pipes 1"

lemma close_pipe_closes:
  assumes "pipe_closes pipe alive pipes i" "close_pipe pipe t = (r, t')"
  shows "alive (fst t') = alive (fst t)" "pipes (fst t') = pipes (fst t) - {i}"
proof -
  obtain f where f: "pipe = Some f" using assms(1) by (cases pipe) (simp_all add: pipe_closes_def)
  obtain x s where x: "f (fst t) = (x, s)" by (cases "f (fst t)")
  have "t' = (s, snd t)" using assms(2) f x by (simp add: close_pipe_def on_fst_def)
  moreover have "alive s = alive (fst t) \<and> pipes s = pipes (fst t) - {i}"
    using assms(1) f x by (simp add: pipe_closes_def)
  ultimately show "alive (fst t') = alive (fst t)" "pipes (fst t') = pipes (fst t) - {i}" by simp_all
qed

lemma process_contractD:
  assumes "process_contract p alive pipes"
  shows "p_poll p s = (x, s') \<Longrightarrow> \<exists>st. x = Inr st \<and> (st = None \<longleftrightarrow> alive s) \<and> alive s' = alive s"
    "p_wait p q s = (Inr st, s') \<Longrightarrow> \<not> alive s'"
    "pipe_closes (p_stdin p) alive pipes 0" "pipe_closes (p_stdout p) alive pipes 1"
  using assms unfolding process_contract_def by simp_all

lemma force_stop_stops:
  assumes c: "process_contract p alive pipes" and p: "rt_process (snd t) = Some p"
    and run: "force_stop t = (Inr (), t')"
  shows "\<not> alive (fst t')"
proof -
  obtain r s1 where r: "p_poll p (fst t) = (r, s1)" by (cases "p_poll p (fst t)")
  from process_contractD(1) [OF c r] obtain st where st: "r = Inr st" "st = None \<longleftrightarrow> alive (fst t)" "alive s1 = alive (fst t)"
    by blast
  let ?stop = "pthen (p_terminate p) (phandle (pthen (p_wait p 2) (pret ()))
      (\<lambda>e. if is_TimeoutExpired e then pthen (p_kill p) (pthen (p_wait p 2) (pret ())) else praise e))"
  show ?thesis
  proof (cases st)
    case (Some x)
    with run p r st show ?thesis by (auto simp: force_stop_def pbind_def on_fst_def pret_def)
  next
    case None
    with run p r st(1) have "?stop s1 = (Inr (), fst t')"
      by (auto simp: force_stop_def pbind_def on_fst_def split: prod.splits)
    then obtain x s2 where "p_wait p 2 s2 = (Inr x, fst t')"
      by (auto simp: pthen_eq_Inr phandle_eq_Inr pret_def praise_def split: if_splits)
    from process_contractD(2) [OF c this] show ?thesis .
  qed
qed

lemma failures_of_run:
  "m s = (r, s') \<Longrightarrow> failures_of m s = (Inr (case r of Inl e \<Rightarrow> [e] | Inr _ \<Rightarrow> []), s')"
  by (cases r) (simp_all add: failures_of_def pbind_def pattempt_def pret_def)

lemma finish_stop_stops:
  assumes c: "process_contract p alive pipes" and p: "rt_process (snd t) = Some p"
    and run: "finish_stop p t = (r, t')"
  shows "\<exists>fs. r = Inr fs \<and> (fs = [] \<longrightarrow> \<not> alive (fst t')) \<and> pipes (fst t') \<inter> {0, 1} = {}"
proof -
  obtain x s1 where x: "p_poll p (fst t) = (x, s1)" by (cases "p_poll p (fst t)")
  from process_contractD(1) [OF c x] obtain st where
    st: "x = Inr st" "st = None \<longleftrightarrow> alive (fst t)" "alive s1 = alive (fst t)" by blast
  let ?t1 = "(s1, snd t)"
  let ?force = "if Option.is_none st then failures_of force_stop else pret []"
  have "\<exists>fs t2. ?force ?t1 = (Inr fs, t2) \<and> (fs = [] \<longrightarrow> \<not> alive (fst t2))"
  proof (cases st)
    case None
    obtain y t2 where y: "force_stop ?t1 = (y, t2)" by (cases "force_stop ?t1")
    have "\<not> alive (fst t2)" if "y = Inr ()" using force_stop_stops [OF c, of ?t1 t2] p y that by simp
    with failures_of_run [of force_stop, OF y] None show ?thesis by (cases y) auto
  next
    case (Some y)
    with st show ?thesis by (simp add: pret_def)
  qed
  then obtain fs1 t2 where t2: "?force ?t1 = (Inr fs1, t2)" "fs1 = [] \<longrightarrow> \<not> alive (fst t2)" by blast
  obtain y3 t3 where y3: "close_pipe (p_stdin p) t2 = (y3, t3)" by (cases "close_pipe (p_stdin p) t2")
  obtain y4 t4 where y4: "close_pipe (p_stdout p) t3 = (y4, t4)" by (cases "close_pipe (p_stdout p) t3")
  note e3 = close_pipe_closes [OF process_contractD(3) [OF c] y3]
    and e4 = close_pipe_closes [OF process_contractD(4) [OF c] y4]
  let ?fs = "fs1 @ (case y3 of Inl e \<Rightarrow> [e] | Inr _ \<Rightarrow> []) @ (case y4 of Inl e \<Rightarrow> [e] | Inr _ \<Rightarrow> [])"
  have "finish_stop p t = (Inr ?fs, t4)"
    using x st(1) t2(1) failures_of_run [of "close_pipe (p_stdin p)", OF y3] failures_of_run [of "close_pipe (p_stdout p)", OF y4]
    by (simp add: finish_stop_def pbind_def on_fst_def pret_def)
  with run have "r = Inr ?fs" "t' = t4" by simp_all
  with t2(2) e3 e4 show ?thesis by auto
qed

lemma stop_process_stops:
  assumes c: "process_contract p alive pipes" and p: "rt_process (snd t) = Some p"
    and run: "stop_process n env config p t = (r, t')"
  shows "(r = Inr True \<longrightarrow> \<not> alive (fst t')) \<and> (r \<noteq> Inr False \<longrightarrow> pipes (fst t') \<inter> {0, 1} = {})"
proof -
  obtain x s1 where x: "p_poll p (fst t) = (x, s1)" by (cases "p_poll p (fst t)")
  from process_contractD(1) [OF c x] obtain st where st: "x = Inr st" by blast
  let ?t1 = "(s1, snd t)" and ?stop = "stop_by_state n env config p (Option.is_none st)"
  obtain y t2 where y: "?stop ?t1 = (y, t2)" by (cases "?stop ?t1")
  have p2: "rt_process (snd t2) = Some p"
    using preservesD [OF kept_process.holds_stop_by_state [OF field_steps(1)] y] p by simp
  obtain z t3 where z: "finish_stop p t2 = (z, t3)" by (cases "finish_stop p t2")
  from finish_stop_stops [OF c p2 z] obtain fs where
    fs: "z = Inr fs" "fs = [] \<longrightarrow> \<not> alive (fst t3)" "pipes (fst t3) \<inter> {0, 1} = {}" by blast
  have run2: "(case y of Inl e \<Rightarrow> pthen (finish_stop p) (praise e)
       | Inr stopped \<Rightarrow>
           (case stopped of
              None \<Rightarrow> pret False
            | Some f1 \<Rightarrow>
                pbind (finish_stop p) (\<lambda>f2.
                  if f1 @ f2 \<noteq> [] then praise (RuntimeCleanupError (f1 @ f2)) else pret True))) t2 = (r, t')"
    using run x st y by (simp add: stop_process_def pbind_def on_fst_def pattempt_def del: append_is_Nil_conv)
  consider e where "y = Inl e" | "y = Inr None" | f1 where "y = Inr (Some f1)" by (cases y) auto
  then show ?thesis
  proof cases
    case 1
    with run2 z fs(1) have "r = Inl e" "t' = t3" by (simp_all add: pthen_def pbind_def praise_def)
    with fs(3) show ?thesis by simp
  next
    case 2
    with run2 show ?thesis by (auto simp: pret_def)
  next
    case 3
    with run2 z fs(1) have "(if f1 @ fs \<noteq> [] then praise (RuntimeCleanupError (f1 @ fs)) else pret True) t3 = (r, t')"
      by (simp add: pbind_def del: append_is_Nil_conv)
    with fs(2,3) show ?thesis by (cases "f1 @ fs = []") (auto simp: praise_def pret_def)
  qed
qed

lemma shutdown_stops_process:
  assumes "process_contract p alive pipes" "rt_process (snd t) = Some p" "\<not> rt_closed (snd t)"
    "shutdown n env config t = (r, t')"
  shows "(r = Inr True \<longrightarrow> \<not> alive (fst t')) \<and> (r \<noteq> Inr False \<longrightarrow> pipes (fst t') \<inter> {0, 1} = {})"
proof -
  have "stop_process n env config p (fst t, (snd t)\<lparr>rt_closed := True\<rparr>) = (r, t')"
    using assms(2-4) by (simp add: shutdown_def Let_def)
  from stop_process_stops [OF assms(1) _ this] assms(2) show ?thesis by simp
qed

section \<open>The drain ends\<close>

text \<open>
  Time as the calls see it: the clock is monotonic and never raises, no call takes negative time, and a
  join that times out has taken the time it was given.
\<close>

definition timed :: "'s runtime_env \<Rightarrow> 's channel \<Rightarrow> ('s \<Rightarrow> rat) \<Rightarrow> bool" where
  "timed env c now \<longleftrightarrow>
     (\<forall>s r s'. re_clock env s = (r, s') \<longrightarrow> (\<exists>v. r = Inr v \<and> now s \<le> v \<and> v \<le> now s'))
     \<and> outside_moves (\<lambda>s s'. now s \<le> now s') env \<and> channel_moves (\<lambda>s s'. now s \<le> now s') c
     \<and> (\<forall>h ms s e s'. c OP_BRIDGE_JOIN_RESULT h ms 0 [] [0] s = (Inl e, s') \<longrightarrow> operation_status e = Some (- ETIMEDOUT)
          \<longrightarrow> now s + of_int ms / 1000 \<le> now s')"

lemma timed_clock: "timed env c now \<Longrightarrow> re_clock env s = (r, s') \<Longrightarrow> \<exists>v. r = Inr v \<and> now s \<le> v \<and> v \<le> now s'"
  unfolding timed_def by simp

lemma timed_join:
  "timed env c now \<Longrightarrow> c OP_BRIDGE_JOIN_RESULT h ms 0 [] [0] s = (Inl e, s') \<Longrightarrow>
     operation_status e = Some (- ETIMEDOUT) \<Longrightarrow> now s + of_int ms / 1000 \<le> now s'"
  unfolding timed_def by simp

text \<open>What a part of the drain keeps: later than \<open>s0\<close>, with no bridge that was not in \<open>A\<close>.\<close>

definition draining ::
  "'s runtime_env \<Rightarrow> 's channel \<Rightarrow> ('s \<Rightarrow> rat) \<Rightarrow> 's \<Rightarrow> int set \<Rightarrow> 's \<times> 's runtime \<Rightarrow> bool" where
  "draining env c now s0 A t \<longleftrightarrow>
     timed env c now \<and> now s0 \<le> now (fst t) \<and> rt_active_bridges (snd t) \<subseteq> A \<and> rt_control (snd t) = Some c"

lemma draining_on_fst:
  assumes "timed env c now \<Longrightarrow> moves (\<lambda>s s'. now s \<le> now s') m"
  shows "preserves (draining env c now s0 A) (on_fst m)"
proof (rule preservesI)
  fix t r t'
  assume d: "draining env c now s0 A t" and run: "on_fst m t = (r, t')"
  obtain x s where x: "m (fst t) = (x, s)" by (cases "m (fst t)")
  have "now (fst t) \<le> now s" using movesD [OF assms x] d by (simp add: draining_def)
  moreover have "t' = (s, snd t)" using run x by (simp add: on_fst_def)
  ultimately show "draining env c now s0 A t'" using d by (auto simp: draining_def)
qed

interpretation draining: draining_invariant env "draining env c now s0 A"
  for env and c :: "'s channel" and now s0 A
proof
  fix s and rt :: "'s runtime" and h t and c2 :: "'s channel"
  show "draining env c now s0 A (s, rt) \<Longrightarrow>
      draining env c now s0 A (s, rt\<lparr>rt_active_bridges := rt_active_bridges rt - {h}\<rparr>)"
    by (auto simp: draining_def)
  show "outside_steps (draining env c now s0 A) env"
    unfolding outside_steps_def emit_def diagnose_def
    by (intro conjI allI draining_on_fst) (simp_all add: timed_def outside_moves_def)
  assume "draining env c now s0 A t" "rt_control (snd t) = Some c2"
  then have "c2 = c" by (simp add: draining_def)
  then show "channel_steps (draining env c now s0 A) c2"
    unfolding channel_steps_def by (intro allI draining_on_fst) (simp add: timed_def channel_moves_def)
qed

lemma join_progress:
  assumes "timed env c now" "rt_control (snd t) = Some c" "join_bridge_result env config h ms t = (Inr b, t')"
  shows "if b then h \<notin> rt_active_bridges (snd t') else now (fst t) + of_int ms / 1000 \<le> now (fst t')"
proof -
  obtain x s where x: "c OP_BRIDGE_JOIN_RESULT h ms 0 [] [0] (fst t) = (x, s)"
    by (cases "c OP_BRIDGE_JOIN_RESULT h ms 0 [] [0] (fst t)")
  have q: "quiet env (\<lambda>_. ())" by (simp add: quiet_def keeps_def)
  have ends: "yields (\<lambda>b. b) (bridge_failed env config h st)" "yields (\<lambda>b. b) (bridge_joined env config h result)" for st result
    unfolding bridge_failed_def bridge_joined_def by (intro yields_intros TrueI)+
  from assms(2) x assms(3) show ?thesis
  proof (cases rule: join_bridge_cases)
    case kept
    then obtain e where e: "x = Inl e" "operation_status e = Some (- ETIMEDOUT)" "b = False" by auto
    with timed_join [OF assms(1) x [unfolded e(1)]] kept(1) show ?thesis by simp
  next
    case (failed e st)
    from bridge_closed_effect(1) [OF q failed(4)] yieldsD [OF ends(1) failed(4)] show ?thesis by simp
  next
    case (joined y result)
    from bridge_closed_effect(2) [OF q joined(2)] yieldsD [OF ends(2) joined(2)] show ?thesis by simp
  qed
qed

text \<open>The measure of the drain: the bridges that are left and the milliseconds to the deadline.\<close>

definition drain_left :: "('s \<Rightarrow> rat) \<Rightarrow> rat \<Rightarrow> 's \<times> 's runtime \<Rightarrow> nat" where
  "drain_left now deadline t =
     card (rt_active_bridges (snd t)) + nat \<lceil>(deadline - now (fst t)) * 1000\<rceil>"

lemma ceiling_later: "(a :: rat) \<le> b \<Longrightarrow> nat \<lceil>(d - b) * 1000\<rceil> \<le> nat \<lceil>(d - a) * 1000\<rceil>"
  by (intro nat_mono ceiling_mono) simp

lemma ceiling_earlier:
  fixes a b d :: rat
  assumes "a + 1 / 1000 \<le> b" "a < d"
  shows "nat \<lceil>(d - b) * 1000\<rceil> < nat \<lceil>(d - a) * 1000\<rceil>"
proof -
  have "(d - b) * 1000 \<le> (d - a) * 1000 - 1" using assms(1) by simp
  then have "\<lceil>(d - b) * 1000\<rceil> \<le> \<lceil>(d - a) * 1000 - 1\<rceil>" by (rule ceiling_mono)
  moreover have "0 < \<lceil>(d - a) * 1000\<rceil>" using assms(2) by simp
  ultimately show ?thesis by simp
qed

lemma drain_left_mono:
  assumes "finite (rt_active_bridges (snd t))" "rt_active_bridges (snd t') \<subseteq> rt_active_bridges (snd t)"
    "now (fst t) \<le> now (fst t')"
  shows "drain_left now d t' \<le> drain_left now d t"
  unfolding drain_left_def using card_mono [OF assms(1,2)] ceiling_later [OF assms(3)] by (rule add_mono)

lemma drain_left_less:
  assumes "finite (rt_active_bridges (snd t))" "rt_active_bridges (snd t') \<subseteq> rt_active_bridges (snd t)"
    "now (fst t) \<le> now (fst t')" "now (fst t) < d"
    "rt_active_bridges (snd t') \<noteq> rt_active_bridges (snd t) \<or> now (fst t) + 1 / 1000 \<le> now (fst t')"
  shows "drain_left now d t' < drain_left now d t"
  using assms(5)
proof
  assume "rt_active_bridges (snd t') \<noteq> rt_active_bridges (snd t)"
  with assms(1,2) have "card (rt_active_bridges (snd t')) < card (rt_active_bridges (snd t))"
    by (intro psubset_card_mono psubsetI)
  with ceiling_later [OF assms(3), of d] show ?thesis unfolding drain_left_def by simp
next
  assume "now (fst t) + 1 / 1000 \<le> now (fst t')"
  from card_mono [OF assms(1,2)] ceiling_earlier [OF this assms(4)] show ?thesis
    unfolding drain_left_def by (rule add_le_less_mono)
qed

lemma slice_ms_bounds: "1 \<le> slice_ms q" "slice_ms q \<le> BRIDGE_DRAIN_JOIN_SLICE_MS"
  by (simp_all add: slice_ms_def BRIDGE_DRAIN_JOIN_SLICE_MS_def)

lemma drain_round_progress:
  assumes t: "timed env c now" "rt_control (snd t) = Some c" "finite (rt_active_bridges (snd t))"
    and h: "h \<in> rt_active_bridges (snd t)" and run: "drain_round env config d (h # hs) t = (Inr (), t')"
  shows "d \<le> now (fst t') \<or> drain_left now d t' < drain_left now d t"
proof -
  obtain x s1 where x: "re_clock env (fst t) = (x, s1)" by (cases "re_clock env (fst t)")
  from timed_clock [OF t(1) x] obtain v where v: "x = Inr v" "now (fst t) \<le> v" "v \<le> now s1" by blast
  show ?thesis
  proof (cases "d - v \<le> 0")
    case True
    with run x v have "t' = (s1, snd t)" by (simp add: pbind_def on_fst_def pret_def)
    with True v show ?thesis by simp
  next
    case False
    let ?t1 = "(s1, snd t)" and ?ms = "slice_ms (d - v)"
    obtain y t2 where y: "join_bridge_result env config h ?ms ?t1 = (y, t2)"
      by (cases "join_bridge_result env config h ?ms ?t1")
    with run x v False obtain b where b: "y = Inr b" and rest: "drain_round env config d hs t2 = (Inr (), t')"
      by (auto simp: pbind_def pthen_def on_fst_def split: sum.splits)
    have "draining env c now s1 (rt_active_bridges (snd t)) ?t1" using t(1,2) by (simp add: draining_def)
    from preservesD [OF draining.holds_join y this]
    have t2: "now s1 \<le> now (fst t2)" "rt_active_bridges (snd t2) \<subseteq> rt_active_bridges (snd t)" "rt_control (snd t2) = Some c"
      by (simp_all add: draining_def)
    have "draining env c now (fst t2) (rt_active_bridges (snd t2)) t2" using t(1) t2(3) by (simp add: draining_def)
    from preservesD [OF draining.holds_drain_round rest this]
    have t3: "now (fst t2) \<le> now (fst t')" "rt_active_bridges (snd t') \<subseteq> rt_active_bridges (snd t2)"
      by (simp_all add: draining_def)
    have "1 / 1000 \<le> (of_int ?ms :: rat) / 1000" using slice_ms_bounds(1) [of "d - v"] by (simp add: divide_right_mono)
    with join_progress [OF t(1) _ y [unfolded b]] t(2)
    have "h \<notin> rt_active_bridges (snd t2) \<or> now s1 + 1 / 1000 \<le> now (fst t2)" by (auto split: if_splits)
    with h t2 t3 v have "rt_active_bridges (snd t') \<noteq> rt_active_bridges (snd t) \<or> now (fst t) + 1 / 1000 \<le> now (fst t')"
      by auto
    moreover have "now (fst t) < d" using False v by simp
    ultimately show ?thesis using drain_left_less [of t t' now d] t(3) t2 t3 v by auto
  qed
qed

definition enumerates :: "(int set \<Rightarrow> int list) \<Rightarrow> bool" where
  "enumerates order \<longleftrightarrow> (\<forall>A. finite A \<longrightarrow> set (order A) = A)"

lemma drain_loop_ends:
  assumes "timed env c now" "enumerates (re_order env)" "rt_control (snd t) = Some c"
    "finite (rt_active_bridges (snd t))" "drain_left now d t < n" "drain_loop n env config d t = (r, t')"
  shows "r \<noteq> Inr False"
  using assms(3-)
proof (induction n arbitrary: t)
  case (Suc n)
  let ?A = "rt_active_bridges (snd t)"
  show ?case
  proof (cases "?A = {}")
    case True
    with Suc.prems(4) show ?thesis by (auto simp: pbind_def rt_get_def pret_def)
  next
    case False
    have "set (re_order env ?A) = ?A" using assms(2) Suc.prems(2) by (simp add: enumerates_def)
    with False obtain h hs where hs: "re_order env ?A = h # hs" "h \<in> ?A" by (cases "re_order env ?A") auto
    obtain x t1 where x: "drain_round env config d (h # hs) t = (x, t1)" by (cases "drain_round env config d (h # hs) t")
    show ?thesis
    proof (cases x)
      case (Inl e)
      with Suc.prems(4) False hs x show ?thesis
        by (simp add: pbind_def pthen_def rt_get_def del: drain_round.simps) blast
    next
      case (Inr u)
      have "draining env c now (fst t) ?A t" using assms(1) Suc.prems(1) by (simp add: draining_def)
      from preservesD [OF draining.holds_drain_round x this]
      have t1: "now (fst t) \<le> now (fst t1)" "rt_active_bridges (snd t1) \<subseteq> ?A" "rt_control (snd t1) = Some c"
        by (simp_all add: draining_def)
      obtain y s2 where y: "re_clock env (fst t1) = (y, s2)" by (cases "re_clock env (fst t1)")
      from timed_clock [OF assms(1) y] obtain v where v: "y = Inr v" "now (fst t1) \<le> v" "v \<le> now s2" by blast
      let ?t2 = "(s2, snd t1)"
      have step: "(if d \<le> v then pret True else drain_loop n env config d) ?t2 = (r, t')"
        using Suc.prems(4) False hs x Inr y v
        by (simp add: pbind_def pthen_def rt_get_def on_fst_def del: drain_round.simps)
      show ?thesis
      proof (cases "d \<le> v")
        case True
        with step show ?thesis by (auto simp: pret_def)
      next
        case later: False
        have "drain_round env config d (h # hs) t = (Inr (), t1)" using x Inr by simp
        from drain_round_progress [OF assms(1) Suc.prems(1,2) hs(2) this]
        have "drain_left now d t1 < drain_left now d t" using v later by auto
        moreover have fin: "finite (rt_active_bridges (snd t1))" using t1(2) Suc.prems(2) finite_subset by blast
        moreover have "drain_left now d ?t2 \<le> drain_left now d t1" using v by (intro drain_left_mono fin) simp_all
        ultimately show ?thesis using Suc.IH [of ?t2] Suc.prems(3) t1(3) step later by simp
      qed
    qed
  qed
qed simp

lemma drain_bridges_ends:
  assumes t: "timed env c now" "enumerates (re_order env)" "rt_control (snd t) = Some c" "finite (rt_active_bridges (snd t))"
    and n: "card (rt_active_bridges (snd t)) + nat \<lceil>grace_seconds config * 1000\<rceil> < n"
    and run: "drain_bridges n env config t = (r, t')"
  shows "r \<noteq> Inr False"
proof (cases "rt_active_bridges (snd t) = {}")
  case True
  with run show ?thesis by (auto simp: drain_bridges_def pbind_def rt_get_def pret_def)
next
  case False
  let ?grace = "grace_seconds config"
  let ?emit = "emit env ''draining''
    [(''active_connections'', JInt (int (card (rt_active_bridges (snd t))))), (''grace_period'', JFloat (re_float env ?grace))]"
  obtain x t1 where x: "?emit t = (x, t1)" by (cases "?emit t")
  have snd1: "snd t1 = snd t" by (rule keepsD [OF keeps_object(4) x])
  show ?thesis
  proof (cases "isl x \<or> ?grace \<le> 0")
    case True
    with run False x show ?thesis
      by (cases x) (auto simp: drain_bridges_def pbind_def pthen_def rt_get_def pret_def)
  next
    case later: False
    obtain y s2 where y: "re_clock env (fst t1) = (y, s2)" by (cases "re_clock env (fst t1)")
    from timed_clock [OF t(1) y] obtain v where v: "y = Inr v" "v \<le> now s2" by blast
    let ?t2 = "(s2, snd t)"
    have "drain_left now (v + ?grace) ?t2 < n"
      using n ceiling_later [OF v(2), of "v + ?grace"] by (simp add: drain_left_def)
    note ends = drain_loop_ends [OF t(1,2) _ _ this]
    obtain z t3 where z: "drain_loop n env config (v + ?grace) ?t2 = (z, t3)"
      by (cases "drain_loop n env config (v + ?grace) ?t2")
    have "z \<noteq> Inr False" using ends [OF _ _ z] t(3,4) by simp
    then consider e where "z = Inl e" | "z = Inr True" by (cases z) auto
    then show ?thesis
    proof cases
      case (1 e)
      with run False later x y v z snd1 show ?thesis
        by (auto simp: drain_bridges_def pbind_def pthen_def rt_get_def on_fst_def split: sum.splits)
    next
      case 2
      have "yields (\<lambda>b. b) (pthen (drain_expired env config) (pret True))" by (intro yields_intros TrueI)
      moreover have "pthen (drain_expired env config) (pret True) t3 = (r, t')" using run False later x y v z snd1 2
        by (auto simp: drain_bridges_def pbind_def pthen_def rt_get_def on_fst_def split: sum.splits)
      ultimately show ?thesis using yieldsD by force
    qed
  qed
qed

lemma keeps_close_listener: "keeps (\<lambda>t. (rt_active_bridges (snd t), rt_control (snd t))) close_listener"
proof -
  let ?obs = "\<lambda>t :: 's \<times> 's runtime. (rt_active_bridges (snd t), rt_control (snd t))"
  note field = keeps_field [where f = "\<lambda>rt. (rt_active_bridges rt, rt_control rt)"]
  have "keeps ?obs (rt_mod (\<lambda>rt. rt\<lparr>rt_listener_handle := None\<rparr>))" by (rule keepsI) (auto simp: rt_mod_def)
  then show ?thesis unfolding close_listener_def failures_of_def
    by (intro keeps_intros field [OF keeps_object(2)] field [OF keeps_object(3)])
qed

lemma orderly_stop_ends:
  assumes t: "timed env c now" "enumerates (re_order env)" "rt_control (snd t) = Some c" "finite (rt_active_bridges (snd t))"
    and n: "card (rt_active_bridges (snd t)) + nat \<lceil>grace_seconds config * 1000\<rceil> < n"
    and run: "orderly_stop n env config p t = (r, t')"
  shows "r \<noteq> Inr None"
proof -
  obtain x t1 where x: "close_listener t = (x, t1)" by (cases "close_listener t")
  from keepsD [OF keeps_close_listener x]
  have t1: "rt_active_bridges (snd t1) = rt_active_bridges (snd t)" "rt_control (snd t1) = rt_control (snd t)" by simp_all
  obtain y t2 where y: "drain_bridges n env config t1 = (y, t2)" by (cases "drain_bridges n env config t1")
  have drained: "y \<noteq> Inr False" using drain_bridges_ends [OF t(1,2) _ _ _ y] t(3,4) n t1 by simp
  show ?thesis
  proof (cases x)
    case (Inl e)
    with run x show ?thesis by (auto simp: orderly_stop_def pbind_def)
  next
    case (Inr f1)
    let ?f2 = "case y of Inl e \<Rightarrow> [e] | Inr _ \<Rightarrow> []"
    let ?rest = "pbind (rt_get rt_active_bridges) (\<lambda>active.
       pbind (collect_failures cancel_bridge (re_order env active)) (\<lambda>f3.
       pbind (rt_get rt_active_bridges) (\<lambda>active2.
       pbind (collect_failures (stop_bridge env config) (re_order env active2)) (\<lambda>f4.
       pbind (stop_kernel env p) (\<lambda>f5. pret (Some (f1 @ ?f2 @ f3 @ f4 @ f5)))))))"
    have "?rest t2 = (r, t')" using run x Inr y drained
      by (simp add: orderly_stop_def pbind_def pattempt_def Let_def)
    moreover have "yields (\<lambda>v. v \<noteq> None) ?rest" by (intro yields_intros) simp
    ultimately show ?thesis using yieldsD by fastforce
  qed
qed

lemma stop_by_state_ends:
  assumes t: "timed env c now" "enumerates (re_order env)" "rt_control (snd t) = Some c" "finite (rt_active_bridges (snd t))"
    and n: "card (rt_active_bridges (snd t)) + nat \<lceil>grace_seconds config * 1000\<rceil> < n"
    and run: "stop_by_state n env config p running t = (r, t')"
  shows "r \<noteq> Inr None"
proof (cases "running \<and> rt_l3_attached (snd t)")
  case True
  with run t(3) have "orderly_stop n env config p t = (r, t')" by (simp add: stop_by_state_def pbind_def rt_get_def)
  from orderly_stop_ends [OF t n this] show ?thesis .
next
  case False
  let ?dead = "pbind (on_fst (p_poll p)) (\<lambda>st.
         if st = Some 0 \<or> Option.is_none st then pret (Some [])
         else pbind (on_fst (p_poll p)) (\<lambda>st2.
           pret (Some [RuntimeExitedError (''hosted kernel was already dead during shutdown with '' @ ''status ''
             @ (case st2 of Some code \<Rightarrow> str_int code | None \<Rightarrow> ''None''))])))"
  have "(if running then pthen force_stop (pret (Some [])) else ?dead) t = (r, t')"
    using run t(3) False by (auto simp: stop_by_state_def pbind_def rt_get_def)
  moreover have "yields (\<lambda>v. v \<noteq> None) (if running then pthen force_stop (pret (Some [])) else ?dead)"
    by (intro yields_intros) simp_all
  ultimately show ?thesis using yieldsD by fastforce
qed

lemma shutdown_ends:
  assumes t: "timed env c now" "enumerates (re_order env)" "rt_control (snd t) = Some c" "finite (rt_active_bridges (snd t))"
    and n: "card (rt_active_bridges (snd t)) + nat \<lceil>grace_seconds config * 1000\<rceil> < n"
    and run: "shutdown n env config t = (r, t')"
  shows "r \<noteq> Inr False"
proof (cases "rt_closed (snd t) \<or> rt_process (snd t) = None")
  case True
  with run show ?thesis by (auto simp: shutdown_def Let_def split: if_splits)
next
  case False
  then obtain p where p: "rt_process (snd t) = Some p" "\<not> rt_closed (snd t)" by auto
  let ?t1 = "(fst t, (snd t)\<lparr>rt_closed := True\<rparr>)"
  have stop: "stop_process n env config p ?t1 = (r, t')" using run p by (simp add: shutdown_def Let_def)
  obtain x s1 where x: "p_poll p (fst t) = (x, s1)" by (cases "p_poll p (fst t)")
  show ?thesis
  proof (cases x)
    case (Inl e)
    with stop x show ?thesis by (auto simp: stop_process_def pbind_def on_fst_def)
  next
    case (Inr st)
    let ?t2 = "(s1, (snd t)\<lparr>rt_closed := True\<rparr>)"
    obtain y t3 where y: "stop_by_state n env config p (Option.is_none st) ?t2 = (y, t3)"
      by (cases "stop_by_state n env config p (Option.is_none st) ?t2")
    have "y \<noteq> Inr None" using stop_by_state_ends [OF t(1,2) _ _ _ y] t(3,4) n by simp
    then consider e where "y = Inl e" | f1 where "y = Inr (Some f1)" by (cases y) auto
    then show ?thesis
    proof cases
      case (1 e)
      have "pthen (finish_stop p) (praise e) t3 = (r, t')"
        using stop x Inr y 1 by (simp add: stop_process_def pbind_def on_fst_def pattempt_def)
      moreover have "yields (\<lambda>b. b) (pthen (finish_stop p) (praise e))" by (intro yields_intros)
      ultimately show ?thesis using yieldsD by force
    next
      case (2 f1)
      let ?m = "pbind (finish_stop p) (\<lambda>f2. if f1 @ f2 \<noteq> [] then praise (RuntimeCleanupError (f1 @ f2)) else pret True)"
      have "?m t3 = (r, t')"
        using stop x Inr y 2 by (simp add: stop_process_def pbind_def on_fst_def pattempt_def del: append_is_Nil_conv)
      moreover have "yields (\<lambda>b. b) ?m" by (intro yields_intros TrueI)
      ultimately show ?thesis using yieldsD by force
    qed
  qed
qed

text \<open>
  C4: A shutdown of a started runtime always comes to an end, after at most one round of the drain for each
  active bridge and each millisecond of the grace period.  Whatever failed on the way, the pipes of the
  kernel process are closed then; where no error is reported the process has ended; and shutting
  down again does nothing.
\<close>

theorem shutdown_complete:
  assumes "timed env c now" "enumerates (re_order env)" "process_contract p alive pipes"
    "rt_control rt = Some c" "rt_process rt = Some p" "\<not> rt_closed rt" "finite (rt_active_bridges rt)"
    "card (rt_active_bridges rt) + nat \<lceil>grace_seconds config * 1000\<rceil> < n"
    "shutdown n env config (s, rt) = (r, (s', rt'))"
  shows "r \<noteq> Inr False \<and> (r = Inr True \<longrightarrow> \<not> alive s') \<and> pipes s' \<inter> {0, 1} = {}
    \<and> (\<forall>m s2. shutdown m env config (s2, rt') = (Inr True, (s2, rt')))"
proof -
  have ends: "r \<noteq> Inr False" using shutdown_ends [OF assms(1,2) _ _ _ assms(9)] assms(4,7,8) by simp
  have "rt_closed rt'" using shutdown_closes [OF assms(9)] by simp
  then have "shutdown m env config (s2, rt') = (Inr True, (s2, rt'))" for m s2 by (simp add: shutdown_def)
  with shutdown_stops_process [OF assms(3) _ _ assms(9)] assms(5,6) ends show ?thesis by simp
qed

text \<open>A kernel with one bridge that never ends, in a world with a clock.\<close>

record stuck_kernel =
  sw_now :: rat
  sw_alive :: bool
  sw_pipes :: "nat set"

definition stuck_tx :: "stuck_kernel channel" where
  "stuck_tx op h a0 a1 d allowed w =
     (if op = OP_BRIDGE_JOIN_RESULT
      then (Inl (ControlOperationError op (- ETIMEDOUT)), w\<lparr>sw_now := sw_now w + of_int (max 0 a0) / 1000\<rparr>)
      else (Inr (answer op 0 []), w\<lparr>sw_alive := sw_alive w \<and> op \<noteq> OP_SHUTDOWN\<rparr>))"

definition stuck_process :: "stuck_kernel process" where
  "stuck_process =
     \<lparr>p_pid = 7, p_stdin = Some (\<lambda>w. (Inr (), w\<lparr>sw_pipes := sw_pipes w - {0}\<rparr>)),
      p_stdout = Some (\<lambda>w. (Inr (), w\<lparr>sw_pipes := sw_pipes w - {1}\<rparr>)),
      p_poll = (\<lambda>w. (Inr (if sw_alive w then None else Some 0), w)),
      p_wait = (\<lambda>timeout w. if sw_alive w then (Inl (TimeoutExpired []), w) else (Inr 0, w)),
      p_terminate = pret (), p_kill = (\<lambda>w. (Inr (), w\<lparr>sw_alive := False\<rparr>))\<rparr>"

definition stuck_service :: ServiceConfig where
  "stuck_service = sample_service\<lparr>sc_shutdown_grace_period := PInt 30\<rparr>"

definition stuck_env :: "stuck_kernel runtime_env" where
  "stuck_env =
     \<lparr>re_emitter = \<lparr>em_event = (\<lambda>event members. pret ()), em_diagnostic = (\<lambda>message. pret ())\<rparr>,
      re_process_factory = (\<lambda>argv fd. pret stuck_process), re_control_factory = (\<lambda>p. pret stuck_tx),
      re_shutdown_timeout = DEFAULT_KERNEL_SHUTDOWN_TIMEOUT, re_clock = (\<lambda>w. (Inr (sw_now w), w)),
      re_order = sorted_list_of_set, re_float = (\<lambda>q. []), re_strerror = (\<lambda>n. None)\<rparr>"

lemma stuck_timed: "timed stuck_env stuck_tx sw_now"
proof -
  have "channel_moves (\<lambda>s s'. sw_now s \<le> sw_now s') stuck_tx"
    by (auto simp: channel_moves_def moves_def stuck_tx_def split: if_splits)
  moreover have "outside_moves (\<lambda>s s'. sw_now s \<le> sw_now s') stuck_env"
    by (auto simp: outside_moves_def moves_def stuck_env_def pret_def)
  ultimately show ?thesis
    unfolding timed_def by (auto simp: stuck_env_def stuck_tx_def divide_right_mono)
qed

lemma stuck_contract: "process_contract stuck_process sw_alive sw_pipes"
  by (auto simp: process_contract_def pipe_closes_def stuck_process_def split: if_splits)

theorem shutdown_complete_witness:
  "\<exists>n r w rt. shutdown n stuck_env stuck_service
       (\<lparr>sw_now = 0, sw_alive = True, sw_pipes = {0, 1, 2}\<rparr>,
        \<lparr>rt_process = Some stuck_process, rt_control = Some stuck_tx, rt_ifindex = Some 1, rt_listener_handle = Some 1,
         rt_active_bridges = {5}, rt_l3_attached = True, rt_closed = False\<rparr>) = (r, (w, rt))
     \<and> r \<noteq> Inr False \<and> (r = Inr True \<longrightarrow> \<not> sw_alive w) \<and> sw_pipes w \<inter> {0, 1} = {}"
proof -
  let ?w = "\<lparr>sw_now = 0, sw_alive = True, sw_pipes = {0, 1, 2}\<rparr>"
  let ?rt = "\<lparr>rt_process = Some stuck_process, rt_control = Some stuck_tx, rt_ifindex = Some 1, rt_listener_handle = Some 1,
         rt_active_bridges = {5}, rt_l3_attached = True, rt_closed = False\<rparr>"
  let ?n = "Suc (Suc (nat \<lceil>grace_seconds stuck_service * 1000\<rceil>))"
  obtain r w rt where run: "shutdown ?n stuck_env stuck_service (?w, ?rt) = (r, (w, rt))"
    by (cases "shutdown ?n stuck_env stuck_service (?w, ?rt)") auto
  have "enumerates (re_order stuck_env)" by (simp add: enumerates_def stuck_env_def)
  from shutdown_complete [OF stuck_timed this stuck_contract _ _ _ _ _ run]
  have "r \<noteq> Inr False \<and> (r = Inr True \<longrightarrow> \<not> sw_alive w) \<and> sw_pipes w \<inter> {0, 1} = {}" by simp
  with run show ?thesis by blast
qed

section \<open>The accept loop ends\<close>

text \<open>
  The connections of the listener, counted: \<open>arrived\<close> have entered its queue so far, at any time and
  during any call, and \<open>accepted\<close> have left it.  An accept that succeeds takes one out, and one that is
  refused because the queue is empty has found every connection taken that had arrived when it
  was called.
\<close>

abbreviation counts :: "('s \<Rightarrow> nat) \<Rightarrow> ('s \<Rightarrow> nat) \<Rightarrow> 's \<Rightarrow> 's \<Rightarrow> bool" where
  "counts arrived accepted \<equiv> \<lambda>s s'. arrived s \<le> arrived s' \<and> accepted s \<le> accepted s'"

definition listening :: "'s channel \<Rightarrow> ('s \<Rightarrow> nat) \<Rightarrow> ('s \<Rightarrow> nat) \<Rightarrow> bool" where
  "listening c arrived accepted \<longleftrightarrow>
     (\<forall>s. accepted s \<le> arrived s) \<and> channel_moves (counts arrived accepted) c
     \<and> (\<forall>l s y s'. c OP_ACCEPT_NONBLOCK l 0 0 [] [0] s = (Inr y, s') \<longrightarrow> accepted s < accepted s')
     \<and> (\<forall>l s e s'. c OP_ACCEPT_NONBLOCK l 0 0 [] [0] s = (Inl e, s') \<longrightarrow>
          operation_status e \<in> {Some (- EAGAIN), Some (- EWOULDBLOCK)} \<longrightarrow> arrived s \<le> accepted s')"

definition calm :: "'s runtime_env \<Rightarrow> 's channel \<Rightarrow> ('s \<Rightarrow> nat) \<Rightarrow> ('s \<Rightarrow> nat) \<Rightarrow> 's \<times> 's runtime \<Rightarrow> bool" where
  "calm env c arrived accepted t \<longleftrightarrow>
     listening c arrived accepted \<and> outside_moves (counts arrived accepted) env \<and> rt_control (snd t) = Some c
     \<and> (\<forall>p. rt_process (snd t) = Some p \<longrightarrow> process_moves (counts arrived accepted) p)"

lemma counts_order: "reflp (counts arrived accepted)" "transp (counts arrived accepted)"
  by (rule reflpI, simp, rule transpI, auto)

lemma calm_guarded: "calm env c arrived accepted t \<Longrightarrow> guarded (counts arrived accepted) env (fst t) t"
  using counts_order [of arrived accepted] unfolding calm_def guarded_def listening_def by simp

interpretation calm_fields: serving_invariant env
  "\<lambda>t. rt_control (snd t) = Some c \<and> (\<forall>p. rt_process (snd t) = Some p \<longrightarrow> F p)" for env c F
  by standard
    (rule field_steps [where F = "\<lambda>rt. rt_control rt = Some c \<and> (\<forall>p. rt_process rt = Some p \<longrightarrow> F p)"] | simp)+

lemma calm_after:
  assumes "preserves (guarded (counts arrived accepted) env (fst t)) m"
    "preserves (\<lambda>t. rt_control (snd t) = Some c
       \<and> (\<forall>p. rt_process (snd t) = Some p \<longrightarrow> process_moves (counts arrived accepted) p)) m"
    "calm env c arrived accepted t" "m t = (r, t')"
  shows "calm env c arrived accepted t' \<and> counts arrived accepted (fst t) (fst t')"
proof -
  have g: "guarded (counts arrived accepted) env (fst t) t'"
    by (rule preservesD [OF assms(1,4) calm_guarded [OF assms(3)]])
  have f: "rt_control (snd t) = Some c \<and> (\<forall>p. rt_process (snd t) = Some p \<longrightarrow> process_moves (counts arrived accepted) p)"
    using assms(3) unfolding calm_def by (elim conjE) (intro conjI)
  note f' = preservesD [OF assms(2,4) f]
  have "listening c arrived accepted \<and> outside_moves (counts arrived accepted) env"
    using assms(3) unfolding calm_def by (elim conjE) (intro conjI)
  with f' have "calm env c arrived accepted t'" unfolding calm_def by (elim conjE) (intro conjI)
  moreover have "counts arrived accepted (fst t) (fst t')" using g unfolding guarded_def by (elim conjE) (intro conjI)
  ultimately show ?thesis by (rule conjI)
qed

text \<open>A round takes a connection out of the queue, or it found the queue empty.\<close>

lemma accept_one_counts:
  assumes "calm env c arrived accepted t" "accept_one env config l t = (Inr b, t')"
  shows "calm env c arrived accepted t' \<and> arrived (fst t) \<le> arrived (fst t')
    \<and> (if b then accepted (fst t) < accepted (fst t') else arrived (fst t) \<le> accepted (fst t'))"
proof -
  obtain x s1 where x: "c OP_ACCEPT_NONBLOCK l 0 0 [] [0] (fst t) = (x, s1)"
    by (cases "c OP_ACCEPT_NONBLOCK l 0 0 [] [0] (fst t)")
  have c: "rt_control (snd t) = Some c" "listening c arrived accepted" using assms(1) by (simp_all add: calm_def)
  note transact = rt_transact_run [OF c(1) x]
  have mono: "counts arrived accepted (fst t) s1"
    using c(2) x unfolding listening_def channel_moves_def moves_def by blast
  have calm1: "calm env c arrived accepted (s1, snd t)" using assms(1) by (simp add: calm_def)
  show ?thesis
  proof (cases x)
    case (Inl e)
    with assms(2) transact have "t' = (s1, snd t)" "\<not> b" "operation_status e \<in> {Some (- EAGAIN), Some (- EWOULDBLOCK)}"
      by (auto simp: accept_one_def pbind_def pattempt_def pret_def praise_def split: if_splits)
    moreover have "arrived (fst t) \<le> accepted s1" using c(2) x Inl calculation(3) unfolding listening_def by blast
    ultimately show ?thesis using calm1 mono by simp
  next
    case (Inr y)
    have pos: "0 < cr_handle y" using assms(2) transact Inr
      by (auto simp: accept_one_def pbind_def pattempt_def praise_def split: if_splits)
    obtain z t2 where z: "serve_accepted env config (cr_handle y) (s1, snd t) = (z, t2)"
      by (cases "serve_accepted env config (cr_handle y) (s1, snd t)")
    have t': "t' = t2" "b" using assms(2) transact Inr pos z
      by (auto simp: accept_one_def pbind_def pattempt_def pthen_def pret_def split: sum.splits)
    have "accepted (fst t) < accepted s1" using c(2) x Inr unfolding listening_def by blast
    with calm_after [OF guarded.holds_serve_accepted calm_fields.holds_serve_accepted calm1 z] t' mono show ?thesis by simp
  qed
qed

lemma accept_loop_counts:
  assumes "calm env c arrived accepted t" "accept_loop k env config l t = (r, t')"
  shows "(r = Inr False \<longrightarrow> accepted (fst t) + k \<le> accepted (fst t'))
    \<and> (r = Inr True \<longrightarrow> arrived (fst t) \<le> accepted (fst t') \<or> \<not> admits config (snd t'))"
  using assms
proof (induction k arbitrary: t)
  case 0
  then show ?case by (auto simp: pret_def)
next
  case (Suc k)
  show ?case
  proof (cases "admits config (snd t)")
    case False
    with Suc.prems(2) show ?thesis by (auto simp: pbind_def rt_get_def pret_def)
  next
    case True
    obtain x t1 where x: "accept_one env config l t = (x, t1)" by (cases "accept_one env config l t")
    show ?thesis
    proof (cases x)
      case (Inl e)
      with Suc.prems(2) True x show ?thesis by (auto simp: pbind_def rt_get_def)
    next
      case (Inr b)
      note step = accept_one_counts [OF Suc.prems(1) x [unfolded Inr]]
      show ?thesis
      proof (cases b)
        case False
        with Suc.prems(2) True x Inr have "r = Inr True" "t' = t1" by (simp_all add: pbind_def rt_get_def pret_def)
        with step False show ?thesis by simp
      next
        case go: True
        with Suc.prems(2) True x Inr have "accept_loop k env config l t1 = (r, t')" by (simp add: pbind_def rt_get_def)
        from Suc.IH [OF _ this] step go show ?thesis by auto
      qed
    qed
  qed
qed

text \<open>
  C14: A poll goes on only as long as there are connections to accept.  Connections may arrive
  at any time.  One that is still accepting after \<open>k\<close> rounds has at least \<open>k\<close> connections behind it,
  those that were waiting at its start and those that arrived during it, so that it comes to an end once
  fewer than that come; and where it ends without an error it has accepted every connection
  that had arrived when it began, unless the admission limit is reached.
\<close>

theorem poll_once_ends:
  assumes "listening c arrived accepted" "outside_moves (counts arrived accepted) env" "rt_control rt = Some c"
    "rt_process rt = Some p" "process_moves (counts arrived accepted) p"
    "poll_once k env config (s, rt) = (r, (s', rt'))"
  shows "(r = Inr False \<longrightarrow> k \<le> (arrived s - accepted s) + (arrived s' - arrived s))
    \<and> (r = Inr True \<longrightarrow> arrived s \<le> accepted s' \<or> \<not> admits config rt')"
proof -
  let ?first = "pthen ensure_running (reap_bridges env config)"
  have c0: "calm env c arrived accepted (s, rt)" using assms(1-5) by (simp add: calm_def)
  have all: "counts arrived accepted s s'"
    using calm_after [OF guarded.holds_poll_once calm_fields.holds_poll_once c0 assms(6)] by simp
  obtain x t1 where x: "?first (s, rt) = (x, t1)" by (cases "?first (s, rt)")
  have t1: "calm env c arrived accepted t1" "counts arrived accepted s (fst t1)"
    using calm_after [OF preserves_pthen [OF guarded.holds_ensure_running guarded.holds_reap]
      preserves_pthen [OF calm_fields.holds_ensure_running calm_fields.holds_reap] c0 x] by simp_all
  have run: "pthen ?first (accept_available k env config) (s, rt) = (r, (s', rt'))"
    using assms(6) by (simp add: poll_once_def pthen_def pbind_assoc)
  have le: "accepted s \<le> arrived s" "accepted s' \<le> arrived s'" using assms(1) by (simp_all add: listening_def)
  show ?thesis
  proof (cases x)
    case (Inl e)
    with run x show ?thesis by (auto simp: pthen_raise)
  next
    case (Inr u)
    with run x have "accept_available k env config t1 = (r, (s', rt'))" by (simp add: pthen_return)
    then consider e where "r = Inl e" | l where "accept_loop k env config l t1 = (r, (s', rt'))"
      by (cases "rt_listener_handle (snd t1)") (auto simp: accept_available_def pbind_def rt_get_def praise_def)
    then show ?thesis
    proof cases
      case (2 l)
      from accept_loop_counts [OF t1(1) this] t1(2) all le show ?thesis by auto
    qed simp
  qed
qed

text \<open>
  A kernel that counts its connections and refuses every bridge; one more connection arrives while the
  first one is looked at.
\<close>

record busy_kernel =
  bk_queue :: nat
  bk_taken :: nat

definition busy_tx :: "busy_kernel channel" where
  "busy_tx op h a0 a1 d allowed w =
     (if op = OP_ACCEPT_NONBLOCK
      then (case bk_queue w of
              0 \<Rightarrow> (Inl (ControlOperationError op (- EAGAIN)), w)
            | Suc n \<Rightarrow> (Inr (answer op (int (bk_taken w) + 10) []), w\<lparr>bk_queue := n, bk_taken := Suc (bk_taken w)\<rparr>))
      else if op = OP_GET_CC
      then (Inr (answer op h (encode_ascii ''bbr'')), if bk_taken w = 1 then w\<lparr>bk_queue := Suc (bk_queue w)\<rparr> else w)
      else if op = OP_BRIDGE_START then (Inl (ControlOperationError op (- ETIMEDOUT)), w)
      else (Inr (answer op 1 []), w))"

definition busy_process :: "busy_kernel process" where
  "busy_process =
     \<lparr>p_pid = 8, p_stdin = Some (pret ()), p_stdout = Some (pret ()), p_poll = pret None,
      p_wait = (\<lambda>timeout. praise (TimeoutExpired [])), p_terminate = pret (), p_kill = pret ()\<rparr>"

definition busy_env :: "busy_kernel runtime_env" where
  "busy_env =
     \<lparr>re_emitter = \<lparr>em_event = (\<lambda>event members. pret ()), em_diagnostic = (\<lambda>message. pret ())\<rparr>,
      re_process_factory = (\<lambda>argv fd. pret busy_process), re_control_factory = (\<lambda>p. pret busy_tx),
      re_shutdown_timeout = DEFAULT_KERNEL_SHUTDOWN_TIMEOUT, re_clock = pret 0, re_order = sorted_list_of_set,
      re_float = (\<lambda>q. []), re_strerror = (\<lambda>n. None)\<rparr>"

definition busy_runtime :: "busy_kernel runtime" where
  "busy_runtime =
     \<lparr>rt_process = Some busy_process, rt_control = Some busy_tx, rt_ifindex = Some 1, rt_listener_handle = Some 1,
      rt_active_bridges = {}, rt_l3_attached = True, rt_closed = False\<rparr>"

lemma busy_listening: "listening busy_tx (\<lambda>w. bk_taken w + bk_queue w) bk_taken"
  unfolding listening_def channel_moves_def moves_def
  by (auto simp: busy_tx_def op_defs split: if_splits nat.splits)

lemma busy_accept:
  assumes "bk_queue w = Suc n"
  shows "accept_one busy_env sample_service 1 (w, busy_runtime) =
     (Inr True, (\<lparr>bk_queue = (if bk_taken w = 0 then Suc n else n), bk_taken = Suc (bk_taken w)\<rparr>, busy_runtime))"
proof -
  obtain t where t: "Endpoint_str (sc_backend sample_service) = Inr t" using sample_backend(1) by blast
  obtain u where u: "Endpoint_ipv4_u32 (sc_backend sample_service) = Inr u" using sample_backend(2) by blast
  have cc: "sc_cc sample_service = ''bbr''" by (simp add: sample_service_def)
  show ?thesis
    by (simp add: accept_one_def serve_accepted_def offer_bridge_def bridge_answer_def verify_cc_def rt_transact_def channel_def
        emit_def diagnose_def release_accepted_def phandle_def busy_runtime_def busy_env_def busy_tx_def op_defs assms answer_def
        pbind_def pthen_def pattempt_def on_fst_def pret_def plift_def decode_bbr cc t u)
qed

lemma busy_poll:
  "poll_once 4 busy_env sample_service (\<lparr>bk_queue = 2, bk_taken = 0\<rparr>, busy_runtime) =
     (Inr True, (\<lparr>bk_queue = 0, bk_taken = 3\<rparr>, busy_runtime))"
proof -
  have e: "accept_one busy_env sample_service 1 (\<lparr>bk_queue = 0, bk_taken = 3\<rparr>, busy_runtime) =
      (Inr False, (\<lparr>bk_queue = 0, bk_taken = 3\<rparr>, busy_runtime))"
    by (simp add: accept_one_def rt_transact_def channel_def busy_runtime_def busy_tx_def pbind_def pattempt_def on_fst_def pret_def)
  have a: "admits sample_service busy_runtime"
    by (simp add: admits_def active_connections_def busy_runtime_def sample_service_def)
  have n: "(4 :: nat) = Suc (Suc (Suc (Suc 0)))" "(3 :: nat) = Suc (Suc (Suc 0))" "(2 :: nat) = Suc (Suc 0)" by simp_all
  have "accept_loop 4 busy_env sample_service 1 (\<lparr>bk_queue = 2, bk_taken = 0\<rparr>, busy_runtime) =
      (Inr True, (\<lparr>bk_queue = 0, bk_taken = 3\<rparr>, busy_runtime))"
    using e unfolding n by (simp add: pbind_def rt_get_def pret_def a busy_accept)
  moreover have "ensure_running (w, busy_runtime) = (Inr (), (w, busy_runtime))"
    "reap_bridges busy_env sample_service (w, busy_runtime) = (Inr (), (w, busy_runtime))"
    "rt_listener_handle busy_runtime = Some 1" for w
    by (simp_all add: ensure_running_def reap_bridges_def busy_runtime_def busy_process_def busy_env_def pbind_def rt_get_def
        on_fst_def pret_def)
  ultimately show ?thesis by (simp add: poll_once_def accept_available_def pthen_def pbind_def rt_get_def)
qed

theorem poll_once_ends_witness:
  "\<exists>w'. poll_once 4 busy_env sample_service (\<lparr>bk_queue = 2, bk_taken = 0\<rparr>, busy_runtime) = (Inr True, (w', busy_runtime))
     \<and> 2 \<le> bk_taken w'"
proof -
  have "outside_moves (counts (\<lambda>w. bk_taken w + bk_queue w) bk_taken) busy_env"
    "process_moves (counts (\<lambda>w. bk_taken w + bk_queue w) bk_taken) busy_process"
    by (auto simp: outside_moves_def process_moves_def moves_def busy_env_def busy_process_def pret_def praise_def)
  from poll_once_ends [OF busy_listening this(1) _ _ this(2) busy_poll] busy_poll show ?thesis
    by (auto simp: busy_runtime_def admits_def active_connections_def sample_service_def)
qed

end
