(* ===== verification/Service.thy ===== *)
theory Service
  imports Host_Network Signals Kernel_Image Runtime_Shutdown
begin

text \<open>
  One run of the service (\<^verbatim>\<open>run_service\<close> and \<^verbatim>\<open>main\<close> of \<^verbatim>\<open>tools/tcpcc_cli.py\<close>): acquire the host
  network, start the hosted kernel, serve until a signal asks for the end, and unwind in strict
  order, the runtime before the lease.

  The state is the world and the local variables of the function.  The network acquirer, the
  signal manager and what the runtime is constructed with are arguments, as in the source.  Where
  the serving or the drain does not end within its bound the run has no result, \<open>None\<close>.
\<close>

section \<open>The run\<close>

record 's signal_manager =
  sm_enter :: "('s, 's stop_request) py"
  sm_exit :: "('s, unit) py"

record 's service =
  sv_lease :: "'s host_lease option"
  sv_runtime :: "'s runtime option"
  sv_ready :: bool
  sv_signal :: "int option"

type_synonym ('s, 'a) spy = "('s \<times> 's service, 'a) py"

type_synonym 's network_acquirer = "HostNetworkConfig \<Rightarrow> string \<Rightarrow> string \<Rightarrow> string \<Rightarrow> ('s, 's host_lease) py"

definition new_service :: "'s service" where
  "new_service = \<lparr>sv_lease = None, sv_runtime = None, sv_ready = False, sv_signal = None\<rparr>"

definition sv_mod :: "('s service \<Rightarrow> 's service) \<Rightarrow> ('s, unit) spy" where
  "sv_mod f t = (Inr (), (fst t, f (snd t)))"

text \<open>A method of the local variable \<open>runtime\<close>.\<close>

definition on_runtime :: "('s, 'a) rpy \<Rightarrow> ('s, 'a) spy" where
  "on_runtime m t =
     (case sv_runtime (snd t) of
        None \<Rightarrow> (Inl (OtherError ''AttributeError'' ''NoneType''), t)
      | Some rt \<Rightarrow>
          (case m (fst t, rt) of (r, (s, rt')) \<Rightarrow> (r, (s, (snd t)\<lparr>sv_runtime := Some rt'\<rparr>))))"

fun json_number :: "(rat \<Rightarrow> string) \<Rightarrow> pyval \<Rightarrow> json" where
  "json_number float_text (PInt i) = JInt i"
| "json_number float_text (PFloat q) = JFloat (float_text q)"
| "json_number float_text _ = JNull"

definition announce_ready :: "'s runtime_env \<Rightarrow> ServiceConfig \<Rightarrow> 's host_lease \<Rightarrow> ('s, unit) spy" where
  "announce_ready env config l =
     pbind (plift (Endpoint_str (sc_listen config))) (\<lambda>listen.
     pbind (plift (Endpoint_str (sc_backend config))) (\<lambda>backend.
     pbind (on_runtime (rt_get rt_ifindex)) (\<lambda>ifindex.
     pbind (on_runtime runtime_pid) (\<lambda>pid.
     pthen (on_fst (em_event (re_emitter env) ''ready''
       [(''listen'', JStr listen), (''backend'', JStr backend), (''cc'', JStr (sc_cc config)),
        (''firewall_backend'', JStr (HostNetworkLease_firewall_backend l)),
        (''firewall_resource'', JStr (HostNetworkLease_firewall_resource l)),
        (''tun'', JStr (HostNetworkLease_tun_name l)), (''hosted_address'', JStr (sc_tun_guest_address config)),
        (''hosted_ifindex'', case ifindex of None \<Rightarrow> JNull | Some i \<Rightarrow> JInt i), (''hosted_pid'', JInt pid),
        (''hosted_memory_mib'', JInt (sc_memory_mib config)), (''max_connections'', JInt (sc_max_connections config)),
        (''shutdown_grace_period'', json_number (re_float env) (sc_shutdown_grace_period config))]))
     (on_fst (em_diagnostic (re_emitter env)
       (''ready on '' @ listen @ '' with '' @ sc_cc config @ ''; '' @ ''bridging to '' @ backend @ '' via ''
          @ HostNetworkLease_tun_name l)))))))"

text \<open>The body once the lease is held: whether it ended within the bounds.\<close>

definition serve_with :: "nat \<Rightarrow> nat \<Rightarrow> 's runtime_env \<Rightarrow> ServiceConfig \<Rightarrow> 's stop_request \<Rightarrow> 's host_lease \<Rightarrow> ('s, bool) spy" where
  "serve_with n k env config stop l =
     pbind (on_fst (st_requested stop)) (\<lambda>early.
       if early then pret True
       else pthen (sv_mod (\<lambda>sv. sv\<lparr>sv_runtime := Some HostedKernelRuntime\<rparr>))
         (pbind (on_fst (HostNetworkLease_tun_fd l)) (\<lambda>fd.
          pthen (on_runtime (start env config fd))
         (pbind (on_fst (st_requested stop)) (\<lambda>late.
            if late then pret True
            else pthen (announce_ready env config l)
              (pthen (sv_mod (\<lambda>sv. sv\<lparr>sv_ready := True\<rparr>)) (on_runtime (serve n k env config stop))))))))"

definition record_signal :: "'s stop_request \<Rightarrow> ('s, unit) spy" where
  "record_signal stop = pbind (on_fst (st_requested_signal stop)) (\<lambda>signum. sv_mod (\<lambda>sv. sv\<lparr>sv_signal := signum\<rparr>))"

definition service_body ::
  "nat \<Rightarrow> nat \<Rightarrow> 's runtime_env \<Rightarrow> ServiceConfig \<Rightarrow> ('s, 's host_lease) py \<Rightarrow> 's stop_request \<Rightarrow> ('s, bool) spy" where
  "service_body n k env config acquire stop =
     pbind (on_fst acquire) (\<lambda>l.
     pthen (sv_mod (\<lambda>sv. sv\<lparr>sv_lease := Some l\<rparr>))
     (pbind (serve_with n k env config stop l) (\<lambda>finished.
        if \<not> finished then pret False else pthen (record_signal stop) (pret True))))"

text \<open>The \<open>except\<close> clause: the primary error, if any; \<open>None\<close> where the body did not end.\<close>

definition service_try ::
  "nat \<Rightarrow> nat \<Rightarrow> 's runtime_env \<Rightarrow> ServiceConfig \<Rightarrow> ('s, 's host_lease) py \<Rightarrow> 's stop_request
   \<Rightarrow> ('s, exn option option) spy" where
  "service_try n k env config acquire stop =
     pbind (pattempt (service_body n k env config acquire stop)) (\<lambda>r.
       case r of
         Inl e \<Rightarrow> pthen (record_signal stop) (pret (Some (Some e)))
       | Inr finished \<Rightarrow> pret (if finished then Some None else None))"

text \<open>The \<open>finally\<close> clause: the failures of the cleanup; \<open>None\<close> where the drain did not end.\<close>

definition stop_runtime :: "nat \<Rightarrow> 's runtime_env \<Rightarrow> ServiceConfig \<Rightarrow> ('s, exn list option) spy" where
  "stop_runtime m env config t =
     (if sv_runtime (snd t) = None then (Inr (Some []), t)
      else pbind (pattempt (on_runtime (shutdown m env config))) (\<lambda>r.
        pret (case r of Inl e \<Rightarrow> Some [e] | Inr finished \<Rightarrow> if finished then Some [] else None)) t)"

definition close_lease :: "('s, exn list) spy" where
  "close_lease t =
     (case sv_lease (snd t) of
        None \<Rightarrow> (Inr [], t)
      | Some l \<Rightarrow>
          (case HostNetworkLease_close l (fst t) of
             (r, l', s) \<Rightarrow> (Inr (case r of Inl e \<Rightarrow> [e] | Inr _ \<Rightarrow> []), (s, (snd t)\<lparr>sv_lease := Some l'\<rparr>))))"

definition unwind :: "nat \<Rightarrow> 's runtime_env \<Rightarrow> ServiceConfig \<Rightarrow> ('s, exn list option) spy" where
  "unwind m env config =
     pbind (stop_runtime m env config) (\<lambda>r.
       case r of
         None \<Rightarrow> pret None
       | Some failures \<Rightarrow> pbind close_lease (\<lambda>more. pret (Some (failures @ more))))"

text \<open>The statement under \<open>with\<close>: the primary error and the failures of the cleanup.\<close>

definition service_block ::
  "nat \<Rightarrow> nat \<Rightarrow> nat \<Rightarrow> 's runtime_env \<Rightarrow> ServiceConfig \<Rightarrow> ('s, 's host_lease) py \<Rightarrow> 's stop_request
   \<Rightarrow> ('s, (exn option \<times> exn list) option) spy" where
  "service_block n k m env config acquire stop =
     pbind (pattempt (service_try n k env config acquire stop)) (\<lambda>r.
       if r = Inr None then pret None
       else pbind (unwind m env config) (\<lambda>u.
         case u of
           None \<Rightarrow> pret None
         | Some failures \<Rightarrow>
             (case r of
                Inl e \<Rightarrow> praise e
              | Inr primary \<Rightarrow> pret (Some (case primary of Some p \<Rightarrow> p | None \<Rightarrow> None, failures)))))"

definition conclude :: "'s runtime_env \<Rightarrow> 's service \<Rightarrow> exn option \<Rightarrow> exn list \<Rightarrow> ('s, int option) py" where
  "conclude env sv primary failures =
     (if failures \<noteq> [] then praise (ServiceCleanupError primary failures)
      else case primary of
        Some e \<Rightarrow> praise e
      | None \<Rightarrow>
          pthen (if sv_ready sv
                 then pthen (em_event (re_emitter env) ''stopped''
                        [(''signal'', case sv_signal sv of None \<Rightarrow> JNull | Some n \<Rightarrow> JInt n), (''clean'', JBool True)])
                      (em_diagnostic (re_emitter env) ''stopped cleanly'')
                 else pret ())
            (pret (Some 0)))"

definition run_block ::
  "nat \<Rightarrow> nat \<Rightarrow> nat \<Rightarrow> 's runtime_env \<Rightarrow> ServiceConfig \<Rightarrow> ('s, 's host_lease) py \<Rightarrow> 's signal_manager
   \<Rightarrow> 's stop_request \<Rightarrow> ('s, int option) py" where
  "run_block n k m env config acquire manager stop s =
     (case service_block n k m env config acquire stop (s, new_service) of
        (r, (s1, sv)) \<Rightarrow>
          (case r of
             Inl e \<Rightarrow> pthen (sm_exit manager) (praise e) s1
           | Inr None \<Rightarrow> (Inr None, s1)
           | Inr (Some (primary, failures)) \<Rightarrow>
               pthen (sm_exit manager) (conclude env sv primary failures) s1))"

definition run_service ::
  "nat \<Rightarrow> nat \<Rightarrow> nat \<Rightarrow> 's runtime_env \<Rightarrow> 's network_acquirer \<Rightarrow> ('s, 's signal_manager) py \<Rightarrow> ServiceConfig
   \<Rightarrow> ('s, int option) py" where
  "run_service n k m env network_acquirer signal_manager_factory config =
     pbind (plift (host_network_config config)) (\<lambda>network_config.
     pbind (plift (rbind (Endpoint_version (sc_listen config)) (iptables_paths (sc_iptables_variant config)))) (\<lambda>paths.
     pbind signal_manager_factory (\<lambda>manager.
     pbind (sm_enter manager)
       (run_block n k m env config
          (network_acquirer network_config (fst paths) (fst (snd paths)) (snd (snd paths))) manager))))"

section \<open>The command\<close>

fun report_text :: "exn \<Rightarrow> string option" where
  "report_text (HostPreflightError report) = Some (preflight_to_json report)"
| "report_text (StaleOwnershipError report) = Some (report_to_json report)"
| "report_text _ = None"

definition main_failed :: "(string \<Rightarrow> ('s, unit) py) \<Rightarrow> (int \<Rightarrow> string option) \<Rightarrow> exn \<Rightarrow> ('s, int option) py" where
  "main_failed print_stderr strerror e =
     (if is_Exception e
      then pthen (case report_text e of None \<Rightarrow> pret () | Some t \<Rightarrow> print_stderr t)
        (pthen (print_stderr (''tcpcc: error: '' @ exn_str strerror e)) (pret (Some 1)))
      else praise e)"

definition main ::
  "('s, arguments) py \<Rightarrow> (arguments \<Rightarrow> ('s, ServiceConfig) py) \<Rightarrow> (ServiceConfig \<Rightarrow> ('s, int option) py)
   \<Rightarrow> (string \<Rightarrow> ('s, unit) py) \<Rightarrow> (int \<Rightarrow> string option) \<Rightarrow> ('s, int option) py" where
  "main parse_args from_namespace run print_stderr strerror =
     pbind parse_args (\<lambda>namespace.
       phandle (pbind (from_namespace namespace) run) (main_failed print_stderr strerror))"

section \<open>What a run keeps\<close>

text \<open>The signals, seen from the run: what they are asked moves the world along \<open>R\<close>, and the last signal is always known.\<close>

definition stop_moves :: "('s \<Rightarrow> 's \<Rightarrow> bool) \<Rightarrow> 's stop_request \<Rightarrow> bool" where
  "stop_moves R stop \<longleftrightarrow>
     moves R (st_requested stop) \<and> moves R (st_requested_signal stop) \<and> (\<forall>q. moves R (st_wait stop q))"

definition manager_moves :: "('s \<Rightarrow> 's \<Rightarrow> bool) \<Rightarrow> 's signal_manager \<Rightarrow> bool" where
  "manager_moves R manager \<longleftrightarrow>
     moves R (sm_enter manager) \<and> moves R (sm_exit manager) \<and> returns (sm_exit manager)
     \<and> yields (\<lambda>stop. stop_moves R stop \<and> returns (st_requested_signal stop)) (sm_enter manager)"

lemma stop_runtime_returns: "\<exists>v t'. stop_runtime m env config t = (Inr v, t')"
  by (cases "on_runtime (shutdown m env config) t") (simp add: stop_runtime_def pbind_def pattempt_def pret_def)

lemma service_try_returns:
  assumes "returns (st_requested_signal stop)"
  shows "\<exists>v t'. service_try n k env config acquire stop t = (Inr v, t')"
proof -
  obtain x t1 where x: "service_body n k env config acquire stop t = (x, t1)"
    by (cases "service_body n k env config acquire stop t")
  obtain y s where y: "st_requested_signal stop (fst t1) = (Inr y, s)" using assms unfolding returns_def by blast
  show ?thesis
    by (cases x) (simp_all add: service_try_def pbind_def pattempt_def x record_signal_def pthen_def on_fst_def y
        sv_mod_def pret_def)
qed

text \<open>A run that acquired none has nothing to unwind.\<close>

lemma service_block_refused:
  assumes "moves R (st_requested_signal stop)" "returns (st_requested_signal stop)" "acquire s0 = (Inl e, s1)"
    "service_block n k m env config acquire stop (s0, new_service) = (r, (s', sv))"
  shows "R s1 s' \<and> r = Inr (Some (Some e, []))"
proof -
  obtain y s where y: "st_requested_signal stop s1 = (Inr y, s)" using assms(2) unfolding returns_def by blast
  have "service_block n k m env config acquire stop (s0, new_service) =
      (Inr (Some (Some e, [])), (s, new_service\<lparr>sv_signal := y\<rparr>))"
    by (simp add: service_block_def service_try_def service_body_def pbind_def pattempt_def on_fst_def assms(3)
        record_signal_def pthen_def y sv_mod_def pret_def unwind_def stop_runtime_def close_lease_def new_service_def)
  with assms(4) movesD [OF assms(1) y] show ?thesis by simp
qed

lemma moves_pthen:
  assumes "transp R" "moves R m" "moves R k"
  shows "moves R (pthen m k)"
  unfolding moves_def
proof (intro allI impI)
  fix s r s'
  assume run: "pthen m k s = (r, s')"
  obtain x s1 where x: "m s = (x, s1)" by (cases "m s")
  show "R s s'"
  proof (cases x)
    case (Inl e)
    with run x movesD [OF assms(2) x] show ?thesis by (simp add: pthen_raise)
  next
    case (Inr v)
    with run x have "k s1 = (r, s')" by (simp add: pthen_return)
    with transpD [OF assms(1) movesD [OF assms(2) x] movesD [OF assms(3)]] show ?thesis by blast
  qed
qed

lemma moves_conclude:
  assumes "reflp R" "transp R" "outside_moves R env"
  shows "moves R (conclude env sv primary failures)"
proof -
  have p: "moves R (pret x)" "moves R (praise e)" for x e
    using reflpD [OF assms(1)] by (simp_all add: moves_def pret_def praise_def)
  show ?thesis using assms(3) unfolding conclude_def outside_moves_def
    by (auto intro!: moves_pthen [OF assms(2)] p split: option.splits)
qed

lemma run_block_refused:
  assumes R: "reflp R" "transp R" "outside_moves R env" and st: "stop_moves R stop" "returns (st_requested_signal stop)"
    and ex: "moves R (sm_exit manager)" and a: "acquire s0 = (Inl e, s1)"
    and run: "run_block n k m env config acquire manager stop s0 = (r, s')"
  shows "R s1 s'"
proof -
  obtain x s2 sv where b: "service_block n k m env config acquire stop (s0, new_service) = (x, (s2, sv))"
    by (cases "service_block n k m env config acquire stop (s0, new_service)") auto
  have "moves R (st_requested_signal stop)" using st(1) by (simp add: stop_moves_def)
  from service_block_refused [where R = R, OF this st(2) a b] have x: "R s1 s2" "x = Inr (Some (Some e, []))" by simp_all
  have "pthen (sm_exit manager) (conclude env sv (Some e) []) s2 = (r, s')" using run b x(2) by (simp add: run_block_def)
  from movesD [OF moves_pthen [OF R(2) ex moves_conclude [OF R]] this] x(1) show ?thesis by (rule transpD [OF R(2), rotated])
qed

text \<open>A run fails before its block begins, or it is the block.\<close>

lemma run_service_cases:
  assumes R: "reflp R" "transp R" and m: "moves R signal_manager_factory" "yields (manager_moves R) signal_manager_factory"
    and run: "run_service n k m env network_acquirer signal_manager_factory config s = (r, s')"
  obtains (refused) e where "r = Inl e" "R s s'"
  | (block) nc a b c manager stop s2 where "host_network_config config = Inr nc" "R s s2" "stop_moves R stop"
      "returns (st_requested_signal stop)" "moves R (sm_exit manager)" "returns (sm_exit manager)"
      "run_block n k m env config (network_acquirer nc a b c) manager stop s2 = (r, s')"
proof -
  let ?paths = "rbind (Endpoint_version (sc_listen config)) (iptables_paths (sc_iptables_variant config))"
  note unfold = run_service_def pbind_def plift_def praise_def pret_def
  show thesis
  proof (cases "isl (host_network_config config) \<or> isl ?paths")
    case True
    with run have "isl r" "s' = s" by (auto simp: unfold split: sum.splits)
    with refused reflpD [OF R(1)] show thesis by (metis isl_def)
  next
    case False
    then obtain nc paths where ok: "host_network_config config = Inr nc" "?paths = Inr paths"
      by (cases "host_network_config config"; cases ?paths) auto
    obtain x s1 where x: "signal_manager_factory s = (x, s1)" by (cases "signal_manager_factory s")
    show thesis
    proof (cases x)
      case (Inl e)
      with run ok x have "r = Inl e" "s' = s1" by (auto simp: unfold)
      with refused movesD [OF m(1) x] show thesis by blast
    next
      case manager: (Inr manager)
      from yieldsD [OF m(2) x [unfolded manager]]
      have mm: "moves R (sm_enter manager)" "moves R (sm_exit manager)" "returns (sm_exit manager)"
        "yields (\<lambda>stop. stop_moves R stop \<and> returns (st_requested_signal stop)) (sm_enter manager)"
        by (simp_all add: manager_moves_def)
      obtain y s2 where y: "sm_enter manager s1 = (y, s2)" by (cases "sm_enter manager s1")
      have m2: "R s s2" by (rule transpD [OF R(2) movesD [OF m(1) x] movesD [OF mm(1) y]])
      show thesis
      proof (cases y)
        case (Inl e)
        with run ok x manager y have "r = Inl e" "s' = s2" by (auto simp: unfold)
        with refused m2 show thesis by blast
      next
        case stop: (Inr stop)
        from run ok x manager y stop have "run_block n k m env config
            (network_acquirer nc (fst paths) (fst (snd paths)) (snd (snd paths))) manager stop s2 = (r, s')"
          by (simp add: unfold)
        with block ok(1) m2 mm(2,3) yieldsD [OF mm(4) y [unfolded stop]] show thesis by blast
      qed
    qed
  qed
qed

section \<open>A kernel behind its pipes\<close>

text \<open>
  A run that holds a lease changes nothing on the host but the descriptors \<open>A\<close>, which are the
  two pipes of the kernel once there is one.
\<close>

definition same_but ::
  "('w \<Rightarrow> int set) \<Rightarrow> ('w \<Rightarrow> (string \<times> string) set) \<Rightarrow> int set \<Rightarrow> 'w host_store \<Rightarrow> 'w host_store \<Rightarrow> bool" where
  "same_but fds tables A st st' \<longleftrightarrow>
     fds (hs_world st') - A = fds (hs_world st) - A \<and> tables (hs_world st') = tables (hs_world st)
     \<and> hs_tuns st' = hs_tuns st \<and> hs_leases st' = hs_leases st"

abbreviation same_host ::
  "('w \<Rightarrow> int set) \<Rightarrow> ('w \<Rightarrow> (string \<times> string) set) \<Rightarrow> 'w host_store \<Rightarrow> 'w host_store \<Rightarrow> bool" where
  "same_host fds tables \<equiv> same_but fds tables {}"

lemma same_but_order: "reflp (same_but fds tables A)" "transp (same_but fds tables A)"
  by (rule reflpI, simp add: same_but_def, rule transpI, simp add: same_but_def)

lemma same_host_but: "same_host fds tables st st' \<Longrightarrow> same_but fds tables A st st'"
  by (simp add: same_but_def)

lemma moves_but: "moves (same_host fds tables) m \<Longrightarrow> moves (same_but fds tables A) m"
  unfolding moves_def using same_host_but by blast

lemma calls_but:
  "outside_moves (same_host fds tables) env \<Longrightarrow> outside_moves (same_but fds tables A) env"
  "channel_moves (same_host fds tables) c \<Longrightarrow> channel_moves (same_but fds tables A) c"
  "stop_moves (same_host fds tables) stop \<Longrightarrow> stop_moves (same_but fds tables A) stop"
  unfolding outside_moves_def channel_moves_def stop_moves_def by (simp_all add: moves_but)

lemma control_but: "control_moves (same_host fds tables) env \<Longrightarrow> control_moves (same_but fds tables A) env"
  unfolding control_moves_def yields_def using moves_but calls_but(2) by blast

text \<open>
  What \<^verbatim>\<open>subprocess.Popen\<close> does with \<^verbatim>\<open>PIPE\<close> for both streams: it opens two new descriptors, the
  process object that it returns then touches no other, and its two streams close one each.  Where it
  raises it leaves none open.
\<close>

definition pipe_numbers :: "('w \<Rightarrow> int set) \<Rightarrow> int \<Rightarrow> int \<Rightarrow> 'w host_store \<Rightarrow> nat set" where
  "pipe_numbers fds a b st =
     (if a \<in> fds (hs_world st) then {0} else {}) \<union> (if b \<in> fds (hs_world st) then {1} else {})"

definition popen_pipes ::
  "('w \<Rightarrow> int set) \<Rightarrow> ('w \<Rightarrow> (string \<times> string) set) \<Rightarrow> ('w host_store \<Rightarrow> bool) \<Rightarrow> 'w host_store runtime_env \<Rightarrow> bool" where
  "popen_pipes fds tables alive env \<longleftrightarrow>
     (\<forall>argv fd st r st'. re_process_factory env argv fd st = (r, st') \<longrightarrow>
        (case r of
           Inl e \<Rightarrow> same_host fds tables st st'
         | Inr p \<Rightarrow>
             \<exists>a b. a \<noteq> b \<and> {a, b} \<inter> fds (hs_world st) = {} \<and> {a, b} \<subseteq> fds (hs_world st')
               \<and> same_but fds tables {a, b} st st' \<and> process_moves (same_but fds tables {a, b}) p
               \<and> process_contract p alive (pipe_numbers fds a b)))"

text \<open>An object that is not closed, with the process \<open>x\<close>.\<close>

interpretation kept_open: attaching_invariant env "\<lambda>t. rt_process (snd t) = x \<and> \<not> rt_closed (snd t)" for env x
  by standard (rule field_steps [where F = "\<lambda>rt. rt_process rt = x \<and> \<not> rt_closed rt"] | simp)+

interpretation kept_open_serve: serving_invariant env "\<lambda>t. rt_process (snd t) = x \<and> \<not> rt_closed (snd t)" for env x
  by standard simp

definition tied :: "('s \<Rightarrow> 's \<Rightarrow> bool) \<Rightarrow> 's process option \<Rightarrow> 's runtime_env \<Rightarrow> 's \<Rightarrow> 's \<times> 's runtime \<Rightarrow> bool" where
  "tied R x env s0 t \<longleftrightarrow> linked R env s0 t \<and> rt_process (snd t) = x \<and> \<not> rt_closed (snd t)"

lemma preserves_tied:
  assumes "preserves (linked R env s0) m" "preserves (\<lambda>t. rt_process (snd t) = x \<and> \<not> rt_closed (snd t)) m"
  shows "preserves (tied R x env s0) m"
  using assms unfolding tied_def preserves_def by blast

lemma tied_on_fst: "moves R m \<Longrightarrow> preserves (tied R x env s0) (on_fst m)"
  by (rule preserves_tied [OF preserves_linked [OF guarded_on_fst]])
    (assumption, rule preserves_fields [where F = "\<lambda>rt. rt_process rt = x \<and> \<not> rt_closed rt"])

lemma tied_reads: "preserves (tied R x env s0) (rt_get f)" "preserves (tied R x env s0) runtime_pid"
  by (rule preservesI, simp add: rt_get_def, rule preservesI, auto simp: runtime_pid_def split: option.splits)

lemma tied_serve:
  assumes "stop_moves R stop"
  shows "preserves (tied R x env s0) (serve n k env config stop)"
proof -
  have q: "moves R (st_requested stop)" "moves R (st_wait stop v)" for v using assms by (simp_all add: stop_moves_def)
  show ?thesis
    by (rule preserves_tied [OF preserves_linked [OF guarded.holds_serve] kept_open_serve.holds_serve])
      (rule guarded_on_fst q preserves_fields [where F = "\<lambda>rt. rt_process rt = x \<and> \<not> rt_closed rt"])+
qed

lemma tied_set_up:
  "preserves (tied R x env s0)
     (pthen (if c then praise e else pbind (on_fst (re_control_factory env p)) (\<lambda>c. rt_mod (\<lambda>rt. rt\<lparr>rt_control := Some c\<rparr>)))
       (pthen (attach_l3 config fd) (open_listener config)))"
  by (intro preserves_pthen preserves_if preserves_praise
      preserves_tied [OF linked.holds_connect kept_open.holds_connect]
      preserves_tied [OF linked.holds_attach kept_open.holds_attach]
      preserves_tied [OF linked.holds_open_listener kept_open.holds_open_listener])

text \<open>A runtime of the run: not started, or with a kernel behind two descriptors that are new since \<open>s1\<close>.\<close>

definition piped ::
  "('w \<Rightarrow> int set) \<Rightarrow> ('w \<Rightarrow> (string \<times> string) set) \<Rightarrow> ('w host_store \<Rightarrow> bool) \<Rightarrow> 'w host_store runtime_env
   \<Rightarrow> 'w host_store \<Rightarrow> 'w host_store \<times> 'w host_store runtime \<Rightarrow> bool" where
  "piped fds tables alive env s1 t \<longleftrightarrow>
     tied (same_host fds tables) None env s1 t
     \<or> (\<exists>p a b. {a, b} \<inter> fds (hs_world s1) = {} \<and> process_contract p alive (pipe_numbers fds a b)
          \<and> tied (same_but fds tables {a, b}) (Some p) env s1 t)"

lemma preserves_piped:
  assumes "\<And>A x. preserves (tied (same_but fds tables A) x env s1) m"
  shows "preserves (piped fds tables alive env s1) m"
proof (rule preservesI)
  fix t r t'
  assume t: "piped fds tables alive env s1 t" and run: "m t = (r, t')"
  have "tied (same_but fds tables A) x env s1 t'" if "tied (same_but fds tables A) x env s1 t" for A x
    by (rule preservesD [OF assms run that])
  with t show "piped fds tables alive env s1 t'" unfolding piped_def by blast
qed

lemma pthen_from: "m t = m' t' \<Longrightarrow> pthen m k t = pthen m' k t'"
  by (simp add: pthen_def pbind_def)

lemma piped_start:
  assumes "popen_pipes fds tables alive env"
  shows "preserves (piped fds tables alive env s1) (start env config fd)"
proof (rule preservesI)
  fix t r t'
  assume t: "piped fds tables alive env s1 t" and run: "start env config fd t = (r, t')"
  show "piped fds tables alive env s1 t'"
  proof (cases "rt_process (snd t) \<noteq> None \<or> fd < 3")
    case True
    with run have "t' = t" by (auto simp: start_def pbind_def rt_get_def praise_def Option.is_none_def split: if_splits)
    with t show ?thesis by simp
  next
    case False
    with t have tied: "tied (same_host fds tables) None env s1 t" by (auto simp: piped_def tied_def)
    let ?argv = "[sc_kernel config, ''--memory-mib='' @ str_int (sc_memory_mib config)]"
    let ?connect = "\<lambda>p. if Option.is_none (p_stdin p) \<or> Option.is_none (p_stdout p)
      then praise (RuntimeError ''hosted process did not expose control pipes'')
      else pbind (on_fst (re_control_factory env p)) (\<lambda>c. rt_mod (\<lambda>rt. rt\<lparr>rt_control := Some c\<rparr>))"
    let ?rest = "pthen (attach_l3 config fd) (open_listener config)"
    have go: "pthen (start_process env config fd) ?rest t = (r, t')"
      using run False by (simp add: start_def pbind_def rt_get_def)
    obtain x s where x: "re_process_factory env ?argv fd (fst t) = (x, s)" by (cases "re_process_factory env ?argv fd (fst t)")
    note popen = assms [unfolded popen_pipes_def, rule_format, OF x]
    show ?thesis
    proof (cases x)
      case (Inl e)
      with go x have "t' = (s, snd t)" by (simp add: start_process_def pthen_def pbind_def on_fst_def)
      moreover have "same_host fds tables s1 s"
        using popen Inl tied transpD [OF same_but_order(2)] by (auto simp: tied_def linked_def guarded_def)
      ultimately show ?thesis using tied by (simp add: piped_def tied_def linked_def guarded_def)
    next
      case (Inr p)
      let ?t1 = "(s, (snd t)\<lparr>rt_process := Some p\<rparr>)"
      from popen Inr obtain a b where ab: "{a, b} \<inter> fds (hs_world (fst t)) = {}" "same_but fds tables {a, b} (fst t) s"
        "process_moves (same_but fds tables {a, b}) p" "process_contract p alive (pipe_numbers fds a b)" by auto
      have s1: "same_host fds tables s1 (fst t)" using tied by (simp add: tied_def linked_def guarded_def)
      then have "fds (hs_world s1) = fds (hs_world (fst t))" by (simp add: same_but_def)
      with ab(1) have fresh: "{a, b} \<inter> fds (hs_world s1) = {}" by simp
      have "same_but fds tables {a, b} s1 s" by (rule transpD [OF same_but_order(2) same_host_but [OF s1] ab(2)])
      with tied ab(3) have "tied (same_but fds tables {a, b}) (Some p) env s1 ?t1"
        by (auto simp: tied_def linked_def guarded_def same_but_order control_but calls_but)
      moreover have "start_process env config fd t = ?connect p ?t1"
        using x Inr by (simp add: start_process_def pthen_def pbind_def on_fst_def rt_mod_def)
      from pthen_from [of "start_process env config fd" t "?connect p" ?t1 ?rest, OF this] go have "pthen (?connect p) ?rest ?t1 = (r, t')" by simp
      ultimately have "tied (same_but fds tables {a, b}) (Some p) env s1 t'" by (rule preservesD [OF tied_set_up, rotated])
      with fresh ab(4) show ?thesis unfolding piped_def by blast
    qed
  qed
qed

text \<open>A shutdown that ends has closed the pipes, whatever it returns or raises.\<close>

lemma piped_shutdown:
  assumes "piped fds tables alive env s1 t" "shutdown m env config t = (r, t')" "r \<noteq> Inr False"
  shows "same_host fds tables s1 (fst t')"
  using assms(1) unfolding piped_def
proof (elim disjE exE conjE)
  assume "tied (same_host fds tables) None env s1 t"
  with assms(2) show ?thesis by (auto simp: tied_def linked_def guarded_def shutdown_def Let_def)
next
  fix p a b
  assume fresh: "{a, b} \<inter> fds (hs_world s1) = {}" and c: "process_contract p alive (pipe_numbers fds a b)"
    and tied: "tied (same_but fds tables {a, b}) (Some p) env s1 t"
  then have g: "guarded (same_but fds tables {a, b}) env s1 t" "rt_process (snd t) = Some p" "\<not> rt_closed (snd t)"
    by (simp_all add: tied_def linked_def)
  have "guarded (same_but fds tables {a, b}) env s1 t'"
    by (rule preservesD [OF guarded.holds_shutdown assms(2) g(1)]) (simp add: guarded_def)
  then have but: "same_but fds tables {a, b} s1 (fst t')" by (simp add: guarded_def)
  have "pipe_numbers fds a b (fst t') \<inter> {0, 1} = {}" using shutdown_stops_process [OF c g(2,3) assms(2)] assms(3) by simp
  then have "{a, b} \<inter> fds (hs_world (fst t')) = {}" by (auto simp: pipe_numbers_def split: if_splits)
  with fresh but show ?thesis by (auto simp: same_but_def)
qed

section \<open>The host is left as it was\<close>

text \<open>A run that holds the lease \<open>l\<close> since \<open>s1\<close>.\<close>

definition held ::
  "('w \<Rightarrow> int set) \<Rightarrow> ('w \<Rightarrow> (string \<times> string) set) \<Rightarrow> ('w host_store \<Rightarrow> bool) \<Rightarrow> 'w host_store runtime_env
   \<Rightarrow> 'w host_store host_lease \<Rightarrow> 'w host_store \<Rightarrow> 'w host_store \<times> 'w host_store service \<Rightarrow> bool" where
  "held fds tables alive env l s1 t \<longleftrightarrow>
     sv_lease (snd t) = Some l
     \<and> (case sv_runtime (snd t) of
          None \<Rightarrow> same_host fds tables s1 (fst t)
        | Some rt \<Rightarrow> piped fds tables alive env s1 (fst t, rt))"

lemma held_on_fst:
  assumes "moves (same_host fds tables) m"
  shows "preserves (held fds tables alive env l s1) (on_fst m)"
proof (rule preservesI)
  fix t r t'
  assume h: "held fds tables alive env l s1 t" and run: "on_fst m t = (r, t')"
  obtain x s where x: "m (fst t) = (x, s)" by (cases "m (fst t)")
  have t': "t' = (s, snd t)" using run x by (simp add: on_fst_def)
  show "held fds tables alive env l s1 t'"
  proof (cases "sv_runtime (snd t)")
    case None
    with h t' transpD [OF same_but_order(2) _ movesD [OF assms x]] show ?thesis by (auto simp: held_def)
  next
    case (Some rt)
    have "on_fst m (fst t, rt) = (x, (s, rt))" using x by (simp add: on_fst_def)
    from preservesD [OF preserves_piped [OF tied_on_fst [OF moves_but [OF assms]]] this] h t' Some
    show ?thesis by (simp add: held_def)
  qed
qed

lemma held_on_runtime:
  assumes "preserves (piped fds tables alive env s1) m"
  shows "preserves (held fds tables alive env l s1) (on_runtime m)"
proof (rule preservesI)
  fix t r t'
  assume h: "held fds tables alive env l s1 t" and run: "on_runtime m t = (r, t')"
  show "held fds tables alive env l s1 t'"
  proof (cases "sv_runtime (snd t)")
    case None
    with run h show ?thesis by (simp add: on_runtime_def)
  next
    case (Some rt)
    obtain x s rt' where x: "m (fst t, rt) = (x, (s, rt'))" by (cases "m (fst t, rt)") auto
    have "t' = (s, (snd t)\<lparr>sv_runtime := Some rt'\<rparr>)" using run Some x by (simp add: on_runtime_def)
    with preservesD [OF assms x] h Some show ?thesis by (simp add: held_def)
  qed
qed

lemma held_sv_mod:
  assumes "\<And>sv. sv_lease (f sv) = sv_lease sv" "\<And>sv. sv_runtime (f sv) = sv_runtime sv"
  shows "preserves (held fds tables alive env l s1) (sv_mod f)"
proof (rule preservesI)
  fix t r t'
  assume h: "held fds tables alive env l s1 t" and run: "sv_mod f t = (r, t')"
  have "t' = (fst t, f (snd t))" using run by (simp add: sv_mod_def)
  with h show "held fds tables alive env l s1 t'" by (cases "sv_runtime (snd t)") (simp_all add: held_def assms)
qed

lemma held_announce:
  assumes "outside_moves (same_host fds tables) env"
  shows "preserves (held fds tables alive env l s1) (announce_ready env config l2)"
  unfolding announce_ready_def using assms unfolding outside_moves_def
  by (intro preserves_intros held_on_runtime preserves_piped tied_reads held_on_fst) simp_all

lemma held_serve_with:
  assumes out: "outside_moves (same_host fds tables) env" "control_moves (same_host fds tables) env"
      "popen_pipes fds tables alive env" "stop_moves (same_host fds tables) stop"
    and fd: "moves (same_host fds tables) (HostNetworkLease_tun_fd l)"
    and t: "held fds tables alive env l s1 t" "sv_runtime (snd t) = None"
    and run: "serve_with n k env config stop l t = (r, t')"
  shows "held fds tables alive env l s1 t'"
proof -
  let ?H = "held fds tables alive env l s1" and ?sv = "(snd t)\<lparr>sv_runtime := Some HostedKernelRuntime\<rparr>"
  let ?rest = "pbind (on_fst (HostNetworkLease_tun_fd l)) (\<lambda>fd.
          pthen (on_runtime (start env config fd))
         (pbind (on_fst (st_requested stop)) (\<lambda>late.
            if late then pret True
            else pthen (announce_ready env config l)
              (pthen (sv_mod (\<lambda>sv. sv\<lparr>sv_ready := True\<rparr>)) (on_runtime (serve n k env config stop))))))"
  have q: "moves (same_host fds tables) (st_requested stop)" using out(4) by (simp add: stop_moves_def)
  obtain x s where x: "st_requested stop (fst t) = (x, s)" by (cases "st_requested stop (fst t)")
  have s: "same_host fds tables s1 s"
    using t transpD [OF same_but_order(2) _ movesD [OF q x]] by (simp add: held_def)
  show ?thesis
  proof (cases "x = Inr False")
    case False
    with run x have "t' = (s, snd t)"
      by (cases x) (auto simp: serve_with_def pbind_def on_fst_def pret_def split: if_splits)
    with t s show ?thesis by (simp add: held_def)
  next
    case True
    with run x have "?rest (s, ?sv) = (r, t')" by (simp add: serve_with_def pbind_def pthen_def on_fst_def sv_mod_def)
    moreover have "tied (same_host fds tables) None env s1 (s, HostedKernelRuntime)"
      using out(1,2) s same_but_order [of fds tables "{}"] by (simp add: tied_def linked_def guarded_def HostedKernelRuntime_def)
    then have "?H (s, ?sv)" using t(1) by (simp add: held_def piped_def)
    moreover have "preserves ?H ?rest"
      by (intro preserves_intros held_on_fst fd q held_on_runtime piped_start [OF out(3)] held_announce [OF out(1)]
          held_sv_mod preserves_piped tied_serve [OF calls_but(3) [OF out(4)]]) simp_all
    ultimately show ?thesis by (blast dest: preservesD)
  qed
qed

lemma held_record_signal:
  assumes "stop_moves (same_host fds tables) stop"
  shows "preserves (held fds tables alive env l s1) (record_signal stop)"
proof -
  have "moves (same_host fds tables) (st_requested_signal stop)" using assms by (simp add: stop_moves_def)
  then show ?thesis unfolding record_signal_def by (intro preserves_intros held_on_fst held_sv_mod) simp_all
qed

lemma service_try_held:
  assumes out: "outside_moves (same_host fds tables) env" "control_moves (same_host fds tables) env"
      "popen_pipes fds tables alive env" "stop_moves (same_host fds tables) stop"
    and fd: "moves (same_host fds tables) (HostNetworkLease_tun_fd l)"
    and a: "acquire s0 = (Inr l, s1)" and run: "service_try n k env config acquire stop (s0, new_service) = (r, t)"
  shows "held fds tables alive env l s1 t"
proof -
  let ?t1 = "(s1, new_service\<lparr>sv_lease := Some l\<rparr>)"
  obtain x t2 where x: "serve_with n k env config stop l ?t1 = (x, t2)" by (cases "serve_with n k env config stop l ?t1")
  have "held fds tables alive env l s1 ?t1" using reflpD [OF same_but_order(1)] by (simp add: held_def new_service_def)
  from held_serve_with [OF out fd this _ x] have t2: "held fds tables alive env l s1 t2" by (simp add: new_service_def)
  let ?caught = "pbind (pattempt (case x of Inl e \<Rightarrow> praise e | Inr finished \<Rightarrow>
        if \<not> finished then pret False else pthen (record_signal stop) (pret True))) (\<lambda>r. case r of
      Inl e \<Rightarrow> pthen (record_signal stop) (pret (Some (Some e)))
    | Inr finished \<Rightarrow> pret (if finished then Some None else None))"
  have "?caught t2 = (r, t)" using a run x
    by (cases x) (simp_all add: service_try_def service_body_def pbind_def pattempt_def pthen_def on_fst_def sv_mod_def praise_def)
  moreover have "preserves (held fds tables alive env l s1) ?caught"
    by (intro preserves_intros held_record_signal [OF out(4)])
  ultimately show ?thesis using t2 by (blast dest: preservesD)
qed

lemma held_stop_runtime:
  assumes "held fds tables alive env l s1 t" "stop_runtime m env config t = (Inr (Some failures), t')"
  shows "sv_lease (snd t') = Some l \<and> same_host fds tables s1 (fst t')"
proof (cases "sv_runtime (snd t)")
  case None
  with assms show ?thesis by (simp add: stop_runtime_def held_def)
next
  case (Some rt)
  obtain x s rt' where x: "shutdown m env config (fst t, rt) = (x, (s, rt'))" by (cases "shutdown m env config (fst t, rt)") auto
  have "x \<noteq> Inr False" "t' = (s, (snd t)\<lparr>sv_runtime := Some rt'\<rparr>)"
    using assms(2) Some x by (auto simp: stop_runtime_def pbind_def pattempt_def on_runtime_def pret_def)
  moreover have "piped fds tables alive env s1 (fst t, rt)" "sv_lease (snd t) = Some l" using assms(1) Some by (simp_all add: held_def)
  ultimately show ?thesis using piped_shutdown [OF _ x] by fastforce
qed

text \<open>A run that acquired a lease closes it on the host as it was acquired on, whatever happened in between.\<close>

lemma service_block_lease:
  assumes out: "outside_moves (same_host fds tables) env" "control_moves (same_host fds tables) env"
      "popen_pipes fds tables alive env" "stop_moves (same_host fds tables) stop"
    and fd: "moves (same_host fds tables) (HostNetworkLease_tun_fd l)"
    and sig: "returns (st_requested_signal stop)" and a: "acquire s0 = (Inr l, s1)"
    and run: "service_block n k m env config acquire stop (s0, new_service) = (r, (s', sv))" "r \<noteq> Inr None"
  shows "\<exists>s2 r2 l2 primary failures. same_host fds tables s1 s2 \<and> HostNetworkLease_close l s2 = (r2, l2, s')
    \<and> r = Inr (Some (primary, failures)) \<and> (r2 \<noteq> Inr () \<longrightarrow> failures \<noteq> [])"
proof -
  obtain v t1 where v: "service_try n k env config acquire stop (s0, new_service) = (Inr v, t1)"
    using service_try_returns [OF sig] by blast
  have h1: "held fds tables alive env l s1 t1" by (rule service_try_held [OF out fd a v])
  obtain u t2 where u: "stop_runtime m env config t1 = (Inr u, t2)" using stop_runtime_returns by blast
  have "v \<noteq> None"
  proof
    assume "v = None"
    with v have "service_block n k m env config acquire stop (s0, new_service) = (Inr None, t1)"
      by (simp add: service_block_def pbind_def pattempt_def pret_def)
    with run show False by simp
  qed
  then obtain primary where primary: "v = Some primary" by auto
  then have un: "service_block n k m env config acquire stop (s0, new_service) =
      pbind (unwind m env config) (\<lambda>u. case u of None \<Rightarrow> pret None
        | Some failures \<Rightarrow> pret (Some (primary, failures))) t1"
    using v by (simp add: service_block_def pbind_def pattempt_def)
  show ?thesis
  proof (cases u)
    case None
    with un u run show ?thesis by (simp add: unwind_def pbind_def pret_def)
  next
    case (Some failures)
    from held_stop_runtime [OF h1 u [unfolded Some]] have t2: "sv_lease (snd t2) = Some l" "same_host fds tables s1 (fst t2)" by simp_all
    obtain r2 l2 s3 where c: "HostNetworkLease_close l (fst t2) = (r2, l2, s3)" by (cases "HostNetworkLease_close l (fst t2)")
    let ?more = "case r2 of Inl e \<Rightarrow> [e] | Inr _ \<Rightarrow> []"
    have close: "close_lease t2 = (Inr ?more, (s3, (snd t2)\<lparr>sv_lease := Some l2\<rparr>))"
      using t2(1) c by (simp add: close_lease_def)
    with Some un u run(1) have "r = Inr (Some (primary, failures @ ?more))" "s' = s3"
      by (simp_all add: unwind_def pbind_def pret_def)
    moreover have "r2 \<noteq> Inr () \<longrightarrow> failures @ ?more \<noteq> []" by (cases r2) auto
    ultimately show ?thesis using c t2(2) by blast
  qed
qed

lemma run_block_leased:
  assumes out: "outside_moves (same_host fds tables) env" "control_moves (same_host fds tables) env"
      "popen_pipes fds tables alive env" "stop_moves (same_host fds tables) stop" and sig: "returns (st_requested_signal stop)"
    and ex: "moves (same_host fds tables) (sm_exit manager)" "returns (sm_exit manager)"
    and a: "acquire s0 = (Inr l, s1)" "moves (same_host fds tables) (HostNetworkLease_tun_fd l)"
    and run: "run_block n k m env config acquire manager stop s0 = (r, s')" "r \<noteq> Inr None"
  shows "\<exists>s2 r2 l2 s3. same_host fds tables s1 s2 \<and> HostNetworkLease_close l s2 = (r2, l2, s3) \<and> same_host fds tables s3 s'
    \<and> (r2 \<noteq> Inr () \<longrightarrow> (\<exists>primary failures. r = Inl (ServiceCleanupError primary failures)))"
proof -
  obtain x s3 sv where b: "service_block n k m env config acquire stop (s0, new_service) = (x, (s3, sv))"
    by (cases "service_block n k m env config acquire stop (s0, new_service)") auto
  have "x \<noteq> Inr None" using run b by (auto simp: run_block_def)
  from service_block_lease [OF out a(2) sig a(1) b this] obtain s2 r2 l2 primary failures where
    c: "same_host fds tables s1 s2" "HostNetworkLease_close l s2 = (r2, l2, s3)" "x = Inr (Some (primary, failures))"
      "r2 \<noteq> Inr () \<longrightarrow> failures \<noteq> []" by blast
  have fin: "pthen (sm_exit manager) (conclude env sv primary failures) s3 = (r, s')"
    using run(1) b c(3) by (simp add: run_block_def)
  have "same_host fds tables s3 s'"
    by (rule movesD [OF moves_pthen [OF same_but_order(2) ex(1) moves_conclude [OF same_but_order out(1)]] fin])
  moreover have "r = Inl (ServiceCleanupError primary failures)" if "failures \<noteq> []"
  proof -
    obtain y s4 where "sm_exit manager s3 = (Inr y, s4)" using ex(2) unfolding returns_def by blast
    with fin that show ?thesis by (simp add: pthen_return conclude_def praise_def)
  qed
  ultimately show ?thesis using c(1,2,4) by blast
qed

text \<open>The acquirer of the source on a host with nftables.\<close>

definition nft_acquirer ::
  "'w tun_os \<Rightarrow> 'w host_env \<Rightarrow> 'w nft_backend \<Rightarrow> (string \<Rightarrow> ('w host_store, PreflightReport) py)
   \<Rightarrow> 'w host_store network_acquirer" where
  "nft_acquirer os henv nb collect config ipt restore save =
     acquire_host_network config collect (Inr (backend_object henv (NftBackend nb)))
       (Some (backend_object henv (NftBackend nb))) (Some collect) None None (default_tun_acquirer os) None
       (\<lambda>name. on_world (env_ownership henv name)) (pret OwnershipJournal)"

lemma host_network_config_dnat:
  assumes "host_network_config config = Inr nc"
  shows "valid_dnat_config (hc_dnat nc)"
  using assms NftDnatConfig_init_valid
  by (auto simp: host_network_config_def HostNetworkConfig_init_def rbind_eq_Inr)

lemma nft_run_block_clean:
  assumes h: "host_promises os henv (nb_transport nb) fds tables"
      "\<And>cc. keeps (\<lambda>st. (fds (hs_world st), tables (hs_world st))) (collect cc)"
      "valid_dnat_config (hc_dnat nc)" "plain_dnat_config (hc_dnat nc)"
    and out: "outside_moves (same_host fds tables) env" "control_moves (same_host fds tables) env" "popen_pipes fds tables alive env"
    and st: "stop_moves (same_host fds tables) stop" "returns (st_requested_signal stop)"
    and ex: "moves (same_host fds tables) (sm_exit manager)" "returns (sm_exit manager)"
    and run: "run_block n k m env config (nft_acquirer os henv nb collect nc a b c) manager stop s0 = (r, s')" "r \<noteq> Inr None"
  shows "fds (hs_world s') = fds (hs_world s0)
    \<and> (tables (hs_world s') = tables (hs_world s0) \<or> (\<exists>primary failures. r = Inl (ServiceCleanupError primary failures)))"
proof -
  obtain x s1 where x: "nft_acquirer os henv nb collect nc a b c s0 = (x, s1)"
    by (cases "nft_acquirer os henv nb collect nc a b c s0")
  note all_or_nothing = acquired_or_restored [OF h(1,3,4,2) x [unfolded nft_acquirer_def]]
  consider (refused) e where "x = Inl e" "fds (hs_world s1) = fds (hs_world s0)" "tables (hs_world s1) = tables (hs_world s0)"
    | (leased) l fd key where "x = Inr l" "fd \<notin> fds (hs_world s0)" "fds (hs_world s1) = insert fd (fds (hs_world s0))"
        "key \<notin> tables (hs_world s0)" "tables (hs_world s1) = insert key (tables (hs_world s0))"
        "\<forall>st2 r2 l2 st3. hs_tuns st2 = hs_tuns s1 \<and> hs_leases st2 = hs_leases s1
            \<and> HostNetworkLease_close l st2 = (r2, l2, st3) \<longrightarrow>
            fds (hs_world st3) = fds (hs_world st2) - {fd}
            \<and> (r2 = Inr () \<longrightarrow> tables (hs_world st3) = tables (hs_world st2) - {key})"
        "\<forall>st2. snd (HostNetworkLease_tun_fd l st2) = st2"
    using all_or_nothing by (elim disjE exE conjE) assumption+
  then show ?thesis
  proof cases
    case (refused e)
    from run_block_refused [OF same_but_order out(1) st ex(1) x [unfolded refused(1)] run(1)] refused
    show ?thesis by (simp add: same_but_def)
  next
    case (leased l fd key)
    have fd: "moves (same_host fds tables) (HostNetworkLease_tun_fd l)"
      unfolding moves_def
    proof (intro allI impI)
      fix s v s2
      assume "HostNetworkLease_tun_fd l s = (v, s2)"
      with spec [OF leased(7), of s] have "s2 = s" by simp
      then show "same_host fds tables s s2" by (simp add: same_but_def)
    qed
    from run_block_leased [OF out st ex x [unfolded leased(1)] fd run] obtain s2 r2 l2 s3 where
      s2: "same_host fds tables s1 s2" "HostNetworkLease_close l s2 = (r2, l2, s3)" "same_host fds tables s3 s'"
        "r2 \<noteq> Inr () \<longrightarrow> (\<exists>primary failures. r = Inl (ServiceCleanupError primary failures))" by blast
    have "hs_tuns s2 = hs_tuns s1 \<and> hs_leases s2 = hs_leases s1 \<and> HostNetworkLease_close l s2 = (r2, l2, s3)"
      using s2(1,2) by (simp add: same_but_def)
    with leased(6) have "fds (hs_world s3) = fds (hs_world s2) - {fd}"
      "r2 = Inr () \<longrightarrow> tables (hs_world s3) = tables (hs_world s2) - {key}" by blast+
    with leased(2-5) s2(1,3,4) show ?thesis by (auto simp: same_but_def)
  qed
qed

text \<open>
  C1: A run of the service leaves the host as it was.  With the TUN queue and the nftables backend
  of the source, a process factory that opens two pipes as \<^verbatim>\<open>subprocess.Popen\<close> does, and a control channel,
  an emitter and a signal manager that open and close nothing, a run that ends, at any
  point and for any reason, has closed every descriptor it opened, the pipes of the kernel
  included, and the tables are those from before unless the error says that the cleanup failed.
\<close>

theorem service_leaves_host_clean:
  assumes "host_promises os henv (nb_transport nb) fds tables"
    "\<And>cc. keeps (\<lambda>st. (fds (hs_world st), tables (hs_world st))) (collect cc)"
    "\<And>nc. host_network_config config = Inr nc \<Longrightarrow> plain_dnat_config (hc_dnat nc)"
    "outside_moves (same_host fds tables) env" "control_moves (same_host fds tables) env" "popen_pipes fds tables alive env"
    "moves (same_host fds tables) signal_manager_factory" "yields (manager_moves (same_host fds tables)) signal_manager_factory"
    "run_service n k m env (nft_acquirer os henv nb collect) signal_manager_factory config st = (r, st')" "r \<noteq> Inr None"
  shows "fds (hs_world st') = fds (hs_world st)
    \<and> (tables (hs_world st') = tables (hs_world st) \<or> (\<exists>primary failures. r = Inl (ServiceCleanupError primary failures)))"
  using same_but_order [of fds tables "{}"] assms(7-9)
proof (cases rule: run_service_cases)
  case (refused e)
  then show ?thesis by (simp add: same_but_def)
next
  case (block nc a b c manager stop s2)
  from nft_run_block_clean [OF assms(1,2) host_network_config_dnat [OF block(1)] assms(3) [OF block(1)] assms(4-6) block(3-7) assms(10)]
    block(2) show ?thesis by (simp add: same_but_def)
qed

text \<open>A host whose kernel lives behind two pipes, and a run that is asked to stop once the kernel is up.\<close>

record kernel_world = small_world +
  w_alive :: bool

definition world_pipe :: "int \<Rightarrow> kernel_world host_store callback" where
  "world_pipe fd st = (Inr (), st\<lparr>hs_world := (hs_world st)\<lparr>w_fds := filter (\<lambda>x. x \<noteq> fd) (w_fds (hs_world st))\<rparr>\<rparr>)"

definition world_process :: "int \<Rightarrow> int \<Rightarrow> kernel_world host_store process" where
  "world_process a b =
     \<lparr>p_pid = 9, p_stdin = Some (world_pipe a), p_stdout = Some (world_pipe b),
      p_poll = (\<lambda>st. (Inr (if w_alive (hs_world st) then None else Some 0), st)),
      p_wait = (\<lambda>timeout st. (Inr 0, st\<lparr>hs_world := (hs_world st)\<lparr>w_alive := False\<rparr>\<rparr>)),
      p_terminate = pret (), p_kill = pret ()\<rparr>"

definition world_spawn :: "(kernel_world host_store, kernel_world host_store process) py" where
  "world_spawn st =
     (let a = foldr max (w_fds (hs_world st)) 0 + 1; b = foldr max (a # w_fds (hs_world st)) 0 + 1
      in (Inr (world_process a b),
          st\<lparr>hs_world := (hs_world st)\<lparr>w_fds := b # a # w_fds (hs_world st), w_alive := True\<rparr>\<rparr>))"

definition world_tx :: "'s channel" where
  "world_tx op h a0 a1 d allowed = pret (answer op 1 (if op = OP_GET_CC then encode_ascii ''bbr'' else []))"

definition world_runtime_env :: "kernel_world host_store runtime_env" where
  "world_runtime_env =
     \<lparr>re_emitter = \<lparr>em_event = (\<lambda>event members. pret ()), em_diagnostic = (\<lambda>message. pret ())\<rparr>,
      re_process_factory = (\<lambda>argv fd. world_spawn), re_control_factory = (\<lambda>p. pret world_tx),
      re_shutdown_timeout = DEFAULT_KERNEL_SHUTDOWN_TIMEOUT, re_clock = pret 0, re_order = sorted_list_of_set,
      re_float = (\<lambda>q. []), re_strerror = (\<lambda>n. None)\<rparr>"

definition world_stop :: "kernel_world host_store stop_request" where
  "world_stop =
     \<lparr>st_requested = (\<lambda>st. (Inr (w_alive (hs_world st)), st)), st_requested_signal = pret (Some 15), st_wait = (\<lambda>q. pret True)\<rparr>"

definition world_manager :: "kernel_world host_store signal_manager" where
  "world_manager = \<lparr>sm_enter = pret world_stop, sm_exit = pret ()\<rparr>"

abbreviation world_fds :: "kernel_world \<Rightarrow> int set" where
  "world_fds \<equiv> \<lambda>w. set (w_fds w)"

lemma world_calls:
  "outside_moves (same_host world_fds w_tables) world_runtime_env"
  "control_moves (same_host world_fds w_tables) world_runtime_env"
  "moves (same_host world_fds w_tables) (pret world_manager)"
  "yields (manager_moves (same_host world_fds w_tables)) (pret world_manager)"
  by (simp_all add: outside_moves_def control_moves_def channel_moves_def yields_def manager_moves_def stop_moves_def moves_def
      returns_def world_runtime_env_def world_tx_def world_manager_def world_stop_def pret_def same_but_def)

lemma world_process_contract:
  assumes "a \<noteq> b"
  shows "process_contract (world_process a b) (\<lambda>st. w_alive (hs_world st)) (pipe_numbers world_fds a b)"
    "process_moves (same_but world_fds w_tables {a, b}) (world_process a b)"
proof -
  show "process_contract (world_process a b) (\<lambda>st. w_alive (hs_world st)) (pipe_numbers world_fds a b)"
    using assms by (auto simp: process_contract_def pipe_closes_def world_process_def world_pipe_def pipe_numbers_def)
  show "process_moves (same_but world_fds w_tables {a, b}) (world_process a b)"
    by (auto simp: process_moves_def moves_def world_process_def world_pipe_def pret_def same_but_def)
qed

lemma world_popen: "popen_pipes world_fds w_tables (\<lambda>st. w_alive (hs_world st)) world_runtime_env"
  unfolding popen_pipes_def
proof (intro allI impI)
  fix argv fd r and st st' :: "kernel_world host_store"
  let ?a = "foldr max (w_fds (hs_world st)) 0 + 1"
  let ?b = "foldr max (?a # w_fds (hs_world st)) 0 + 1"
  assume run: "re_process_factory world_runtime_env argv fd st = (r, st')"
  have fresh: "?a \<notin> world_fds (hs_world st)" "?b \<notin> set (?a # w_fds (hs_world st))" by (rule foldr_max_fresh)+
  have r: "r = Inr (world_process ?a ?b)"
    "st' = st\<lparr>hs_world := (hs_world st)\<lparr>w_fds := ?b # ?a # w_fds (hs_world st), w_alive := True\<rparr>\<rparr>"
    using run by (auto simp: world_runtime_env_def world_spawn_def Let_def)
  have ne: "?a \<noteq> ?b" using fresh(2) by (metis list.set_intros(1))
  show "case r of Inl e \<Rightarrow> same_host world_fds w_tables st st'
      | Inr p \<Rightarrow> \<exists>a b. a \<noteq> b \<and> {a, b} \<inter> world_fds (hs_world st) = {} \<and> {a, b} \<subseteq> world_fds (hs_world st')
          \<and> same_but world_fds w_tables {a, b} st st' \<and> process_moves (same_but world_fds w_tables {a, b}) p
          \<and> process_contract p (\<lambda>st. w_alive (hs_world st)) (pipe_numbers world_fds a b)"
    unfolding r(1) sum.case
  proof (intro exI conjI)
    show "{?a, ?b} \<inter> world_fds (hs_world st) = {}" using fresh by auto
    show "{?a, ?b} \<subseteq> world_fds (hs_world st')" "same_but world_fds w_tables {?a, ?b} st st'"
      by (auto simp: r(2) same_but_def)
  qed (rule ne world_process_contract [OF ne])+
qed

definition world_runtime :: "kernel_world host_store runtime" where
  "world_runtime =
     \<lparr>rt_process = Some (world_process 5 6), rt_control = Some world_tx, rt_ifindex = Some 1, rt_listener_handle = Some 1,
      rt_active_bridges = {}, rt_l3_attached = True, rt_closed = False\<rparr>"

lemma world_start:
  assumes "w_fds (hs_world st) = [4, 3]"
  shows "start world_runtime_env sample_service 4 (st, HostedKernelRuntime) =
     (Inr (), (st\<lparr>hs_world := (hs_world st)\<lparr>w_fds := [6, 5, 4, 3], w_alive := True\<rparr>\<rparr>, world_runtime))"
proof -
  obtain d1 d2 where "encode_l3_config (PStr (ip_str (IPv4 0x0A000002))) (PInt 32) = Inr d1"
    "encode_ip_endpoint (PStr (ip_str (IPv4 0x0A000002))) (PInt (ep_port sample_listen)) = Inr d2"
    using sample_set_up(6,7) by blast
  then show ?thesis
    by (simp add: start_def start_process_def attach_l3_def open_listener_def verify_cc_def rt_transact_def channel_def
        HostedKernelRuntime_def world_runtime_env_def world_spawn_def world_process_def world_tx_def op_defs answer_def
        pbind_def pthen_def on_fst_def pret_def plift_def sample_set_up(1-5) decode_bbr rt_mod_def rt_get_def
        world_runtime_def assms del: ip_str.simps)
qed

lemma world_shutdown:
  assumes "w_fds (hs_world st) = [6, 5, 4, 3]" "w_alive (hs_world st)"
  shows "\<exists>rt. shutdown 1 world_runtime_env sample_service (st, world_runtime) =
     (Inr True, (st\<lparr>hs_world := (hs_world st)\<lparr>w_fds := [4, 3], w_alive := False\<rparr>\<rparr>, rt))"
  using assms
  by (simp add: shutdown_def stop_process_def stop_by_state_def orderly_stop_def close_listener_def drain_bridges_def
      failures_of_def stop_kernel_def finish_stop_def close_pipe_def rt_transact_def channel_def rt_get_def rt_mod_def
      pbind_def pthen_def pattempt_def pret_def on_fst_def Let_def world_runtime_env_def world_runtime_def world_process_def
      world_pipe_def world_tx_def op_defs answer_def)

lemma sample_network_of: "host_network_config sample_service = Inr (network_of sample_service)"
proof -
  have "ip_str (IPv4 0x0A000003) \<noteq> ip_str (IPv4 0x0A000002)" using ip_str_inject [of "IPv4 0x0A000003" "IPv4 0x0A000002"] by simp
  then obtain nc where nc: "host_network_config sample_service = Inr nc"
    using host_network_config_succeeds [OF ServiceConfig_init_valid [OF sample_service_init]] sample_listen_valid
    by (auto simp: sample_service_def sample_listen_def simp del: ip_str.simps)
  moreover have "nc = network_of sample_service"
    using host_network_config_network_of [OF _ _ nc] ServiceConfig_init_valid [OF sample_service_init] sample_listen_valid
    by (simp add: sample_service_def)
  ultimately show ?thesis by simp
qed

lemma sample_run_service:
  "run_service n k m env acq (pret manager) sample_service =
     pbind (sm_enter manager) (run_block n k m env sample_service
       (acq (network_of sample_service) ''iptables'' ''iptables-restore'' ''iptables-save'') manager)"
proof -
  have "iptables_paths (sc_iptables_variant sample_service) 4 = Inr (''iptables'', ''iptables-restore'', ''iptables-save'')"
    by (simp add: iptables_paths_def sample_service_def IPTABLES_VARIANTS_def)
  then show ?thesis using sample_set_up(3,4)
    by (auto simp: fun_eq_iff run_service_def sample_network_of pbind_def plift_def pret_def split: prod.splits sum.splits)
qed

lemma sample_network_suits: "world_suits (network_of sample_service)"
proof -
  let ?d = "hc_dnat (network_of sample_service)"
  have "plain_dnat_config ?d"
    by (simp add: network_of_def plain_dnat_config_def sample_service_def sample_listen_def v4_str_word)
  moreover have "table_family ?d = ''ip''"
    by (simp add: network_of_def table_family_def dnat_ip_version_def sample_service_def sample_listen_def sample_address del: ip_str.simps)
  ultimately show ?thesis using host_network_config_dnat [OF sample_network_of]
    unfolding world_suits_def
    by (simp add: network_of_def sample_service_def sample_tun_def DEFAULT_TUN_MTU_def del: ip_str.simps)
qed

lemma world_run:
  "\<exists>st'. run_service 1 1 1 world_runtime_env (nft_acquirer world_os world_env world_backend world_collect)
     (pret world_manager) sample_service
     \<lparr>hs_world = \<lparr>w_fds = [3], w_tables = {}, w_alive = False\<rparr>, hs_tuns = [], hs_leases = []\<rparr> = (Inr (Some 0), st')"
proof -
  let ?w = "\<lparr>w_fds = [3], w_tables = {}, w_alive = False\<rparr> :: kernel_world"
  let ?st = "\<lparr>hs_world = ?w, hs_tuns = [], hs_leases = []\<rparr>" and ?key = "(''ip'', ''tcpcc_'')"
  let ?acq = "nft_acquirer world_os world_env world_backend world_collect (network_of sample_service)
      ''iptables'' ''iptables-restore'' ''iptables-save''"
  obtain l st1 where a: "?acq ?st = (Inr l, st1)" "hs_world st1 = ?w\<lparr>w_fds := [4, 3], w_tables := {?key}\<rparr>"
    "\<forall>st2. hs_tuns st2 = hs_tuns st1 \<longrightarrow> HostNetworkLease_tun_fd l st2 = (Inr 4, st2)"
    "\<forall>st2. hs_tuns st2 = hs_tuns st1 \<and> hs_leases st2 = hs_leases st1 \<and> ?key \<in> w_tables (hs_world st2)
       \<longrightarrow> fst (HostNetworkLease_close l st2) = Inr ()"
    using world_acquire [OF sample_network_suits, of ?w world_collect "Inr (backend_object world_env (NftBackend world_backend))"]
    unfolding nft_acquirer_def by auto
  let ?st2 = "st1\<lparr>hs_world := (hs_world st1)\<lparr>w_fds := [6, 5, 4, 3], w_alive := True\<rparr>\<rparr>"
  let ?st3 = "st1\<lparr>hs_world := (hs_world st1)\<lparr>w_fds := [4, 3], w_alive := False\<rparr>\<rparr>"
  let ?sv = "new_service\<lparr>sv_lease := Some l, sv_runtime := Some world_runtime\<rparr>"
  have s: "start world_runtime_env sample_service 4 (st1, HostedKernelRuntime) = (Inr (), (?st2, world_runtime))"
    by (rule world_start) (simp add: a(2))
  obtain rt where d: "shutdown 1 world_runtime_env sample_service (?st2, world_runtime) = (Inr True, (?st3, rt))"
    using world_shutdown [of ?st2] by auto
  have "fst (HostNetworkLease_close l ?st3) = Inr ()" using a(2,4) by simp
  then obtain l2 st4 where c: "HostNetworkLease_close l ?st3 = (Inr (), l2, st4)" by (cases "HostNetworkLease_close l ?st3") auto
  have sig: "st_requested_signal world_stop = pret (Some 15)" by (simp add: world_stop_def)
  have "serve_with 1 1 world_runtime_env sample_service world_stop l (st1, new_service\<lparr>sv_lease := Some l\<rparr>) = (Inr True, (?st2, ?sv))"
    using s a(2,3) by (simp add: serve_with_def world_stop_def pbind_def pthen_def on_fst_def pret_def sv_mod_def on_runtime_def)
  then have "service_try 1 1 world_runtime_env sample_service ?acq world_stop (?st, new_service) =
      (Inr (Some None), (?st2, ?sv\<lparr>sv_signal := Some 15\<rparr>))"
    using a(1) by (simp add: service_try_def service_body_def record_signal_def pbind_def pthen_def pattempt_def on_fst_def
        pret_def sv_mod_def sig)
  then obtain sv where "service_block 1 1 1 world_runtime_env sample_service ?acq world_stop (?st, new_service) =
      (Inr (Some (None, [])), (st4, sv))" "\<not> sv_ready sv"
    using d c by (simp add: service_block_def unwind_def stop_runtime_def close_lease_def pbind_def pattempt_def
        on_runtime_def pret_def new_service_def)
  then have "run_block 1 1 1 world_runtime_env sample_service ?acq world_manager world_stop ?st = (Inr (Some 0), st4)"
    by (simp add: run_block_def world_manager_def conclude_def pthen_def pbind_def pret_def)
  then show ?thesis unfolding sample_run_service by (simp add: pbind_def) (simp add: world_manager_def pret_def)
qed

theorem service_leaves_host_clean_witness:
  "\<exists>st'. run_service 1 1 1 world_runtime_env (nft_acquirer world_os world_env world_backend world_collect)
       (pret world_manager) sample_service
       \<lparr>hs_world = \<lparr>w_fds = [3], w_tables = {}, w_alive = False\<rparr>, hs_tuns = [], hs_leases = []\<rparr> = (Inr (Some 0), st')
     \<and> set (w_fds (hs_world st')) = {3} \<and> w_tables (hs_world st') = {}"
proof -
  obtain st' where run: "run_service 1 1 1 world_runtime_env (nft_acquirer world_os world_env world_backend world_collect)
       (pret world_manager) sample_service
       \<lparr>hs_world = \<lparr>w_fds = [3], w_tables = {}, w_alive = False\<rparr>, hs_tuns = [], hs_leases = []\<rparr> = (Inr (Some 0), st')"
    using world_run by blast
  have p: "host_promises world_os world_env (nb_transport world_backend) world_fds w_tables"
    using world_promises by (simp add: world_backend_def)
  have k: "keeps (\<lambda>st. (world_fds (hs_world st), w_tables (hs_world st)))
      (world_collect cc :: (kernel_world host_store, PreflightReport) py)" for cc by (rule keeps_pret)
  have plain: "plain_dnat_config (hc_dnat nc)" if "host_network_config sample_service = Inr nc" for nc
    using that sample_network_of sample_network_suits by (simp add: world_suits_def)
  from service_leaves_host_clean [OF p k plain world_calls(1,2) world_popen world_calls(3,4) run] run show ?thesis by simp
qed

section \<open>The kernel is stopped\<close>

text \<open>
  No call but the factory's brings a process to life, and the factory makes processes that keep
  the contract of \<^verbatim>\<open>subprocess.Popen\<close>.
\<close>

abbreviation stays_dead :: "('s \<Rightarrow> bool) \<Rightarrow> 's \<Rightarrow> 's \<Rightarrow> bool" where
  "stays_dead alive \<equiv> \<lambda>s s'. alive s' \<longrightarrow> alive s"

definition spawns :: "('s process \<Rightarrow> bool) \<Rightarrow> 's runtime_env \<Rightarrow> bool" where
  "spawns good env \<longleftrightarrow> (\<forall>argv fd. yields good (re_process_factory env argv fd))"

definition lease_moves :: "('s \<Rightarrow> 's \<Rightarrow> bool) \<Rightarrow> 's host_lease \<Rightarrow> bool" where
  "lease_moves R l \<longleftrightarrow>
     moves R (HostNetworkLease_tun_fd l) \<and> (\<forall>s r l' s'. HostNetworkLease_close l s = (r, l', s') \<longrightarrow> R s s')"

definition acquirer_moves :: "('s \<Rightarrow> 's \<Rightarrow> bool) \<Rightarrow> 's network_acquirer \<Rightarrow> bool" where
  "acquirer_moves R acq \<longleftrightarrow> (\<forall>nc a b c. moves R (acq nc a b c) \<and> yields (lease_moves R) (acq nc a b c))"

definition running :: "('s process \<Rightarrow> bool) \<Rightarrow> 's runtime_env \<Rightarrow> 's \<times> 's runtime \<Rightarrow> bool" where
  "running good env t \<longleftrightarrow>
     spawns good env \<and> (\<exists>p. rt_process (snd t) = Some p \<and> good p) \<and> \<not> rt_closed (snd t)"

lemma running_eq:
  "running good env = (\<lambda>t. (\<lambda>rt. spawns good env \<and> (\<exists>p. rt_process rt = Some p \<and> good p) \<and> \<not> rt_closed rt) (snd t))"
  by (simp add: fun_eq_iff running_def)

lemma running_steps:
  "process_steps (running good env) p" "channel_steps (running good env) c" "outside_steps (running good env) env'"
  unfolding running_eq by (rule field_steps)+

interpretation running: runtime_invariant env "running good env" for good :: "'s process \<Rightarrow> bool" and env
proof
  fix s rt argv fd p s'
  assume "running good env (s, rt)" "re_process_factory env argv fd s = (Inr p, s')"
  then show "running good env (s', rt\<lparr>rt_process := Some p\<rparr>)"
    by (auto simp: running_def spawns_def dest: yieldsD)
qed (rule running_steps | simp add: running_def)+

interpretation running_serve: serving_invariant env "running good env" for good :: "'s process \<Rightarrow> bool" and env
  by standard (simp add: running_def)

lemma start_running:
  assumes "spawns good env" "start env config fd (s, HostedKernelRuntime) = (Inr (), t')"
  shows "running good env t'"
proof -
  let ?rest = "pthen (attach_l3 config fd) (open_listener config)"
  have "pthen (start_process env config fd) ?rest (s, HostedKernelRuntime) = (Inr (), t')"
    using assms(2) by (simp add: start_def pbind_def rt_get_def HostedKernelRuntime_def praise_def split: if_splits)
  then obtain u t1 where t1: "start_process env config fd (s, HostedKernelRuntime) = (Inr u, t1)" "?rest t1 = (Inr (), t')"
    by (auto simp: pthen_eq_Inr)
  let ?argv = "[sc_kernel config, ''--memory-mib='' @ str_int (sc_memory_mib config)]"
  obtain p s1 where p: "re_process_factory env ?argv fd s = (Inr p, s1)"
    using t1(1) by (cases "re_process_factory env ?argv fd s") (auto simp: start_process_def pbind_def on_fst_def split: sum.splits)
  let ?connect = "if Option.is_none (p_stdin p) \<or> Option.is_none (p_stdout p)
    then praise (RuntimeError ''hosted process did not expose control pipes'')
    else pbind (on_fst (re_control_factory env p)) (\<lambda>c. rt_mod (\<lambda>rt. rt\<lparr>rt_control := Some c\<rparr>))"
  let ?t0 = "(s1, HostedKernelRuntime\<lparr>rt_process := Some p\<rparr>)"
  have "good p" using assms(1) p by (auto simp: spawns_def dest: yieldsD)
  then have r0: "running good env ?t0" using assms(1) by (simp add: running_def HostedKernelRuntime_def)
  have c: "?connect ?t0 = (Inr u, t1)"
    using t1(1) p by (simp add: start_process_def pbind_def pthen_def on_fst_def rt_mod_def)
  have "preserves (running good env) ?connect"
    by (rule preserves_if, rule preserves_praise, rule running.holds_connect)
  from preservesD [OF this c r0] have "running good env t1" .
  from preservesD [OF preserves_pthen [OF running.holds_attach running.holds_open_listener] t1(2) this] show ?thesis .
qed

text \<open>A run that holds the lease and either has no runtime or a running one.\<close>

definition underway :: "('s process \<Rightarrow> bool) \<Rightarrow> 's runtime_env \<Rightarrow> 's host_lease \<Rightarrow> 's \<times> 's service \<Rightarrow> bool" where
  "underway good env l t \<longleftrightarrow>
     sv_lease (snd t) = Some l \<and> (\<exists>rt. sv_runtime (snd t) = Some rt \<and> running good env (fst t, rt))"

lemma underway_on_fst: "preserves (underway good env l) (on_fst m)"
  by (rule preservesI) (auto simp: underway_def on_fst_def running_def split: prod.splits)

lemma underway_sv_mod:
  assumes "\<And>sv. sv_lease (f sv) = sv_lease sv" "\<And>sv. sv_runtime (f sv) = sv_runtime sv"
  shows "preserves (underway good env l) (sv_mod f)"
  by (rule preservesI) (auto simp: sv_mod_def underway_def assms)

lemma underway_on_runtime:
  assumes "preserves (running good env) m"
  shows "preserves (underway good env l) (on_runtime m)"
proof (rule preservesI)
  fix t r t'
  assume u: "underway good env l t" and run: "on_runtime m t = (r, t')"
  then obtain rt where rt: "sv_runtime (snd t) = Some rt" "running good env (fst t, rt)" by (auto simp: underway_def)
  obtain x s rt' where x: "m (fst t, rt) = (x, (s, rt'))" by (cases "m (fst t, rt)") auto
  have "t' = (s, (snd t)\<lparr>sv_runtime := Some rt'\<rparr>)" using run rt(1) x by (simp add: on_runtime_def)
  with preservesD [OF assms x rt(2)] u show "underway good env l t'" by (simp add: underway_def)
qed

lemma running_pid: "preserves (running good env) runtime_pid"
  by (rule preservesI) (auto simp: runtime_pid_def split: option.splits)

lemma running_serving: "preserves (running good env) (serve n k env config stop)"
  by (rule running_serve.holds_serve; unfold running_eq; rule preserves_fields)

lemma underway_serving:
  "preserves (underway good env l) (pthen (announce_ready env config l2)
     (pthen (sv_mod (\<lambda>sv. sv\<lparr>sv_ready := True\<rparr>)) (on_runtime (serve n k env config stop))))"
  unfolding announce_ready_def
  by (intro preserves_intros underway_on_runtime running.holds_get running_pid underway_on_fst running_serving underway_sv_mod)
    simp_all

definition at_rest :: "('s \<Rightarrow> bool) \<Rightarrow> 's host_lease \<Rightarrow> 's \<times> 's service \<Rightarrow> bool" where
  "at_rest alive l t \<longleftrightarrow> sv_lease (snd t) = Some l \<and> sv_runtime (snd t) = None \<and> \<not> alive (fst t)"

lemma serve_with_outcome:
  assumes "spawns good env" "moves (stays_dead alive) (st_requested stop)" "at_rest alive l t"
    "serve_with n k env config stop l t = (Inr True, t')"
  shows "underway good env l t' \<or> at_rest alive l t'"
proof -
  obtain x s1 where x: "st_requested stop (fst t) = (x, s1)" by (cases "st_requested stop (fst t)")
  with assms(4) obtain early where e: "x = Inr early"
    by (cases x) (auto simp: serve_with_def pbind_def on_fst_def)
  show ?thesis
  proof (cases early)
    case True
    with assms(4) x e have "t' = (s1, snd t)" by (simp add: serve_with_def pbind_def on_fst_def pret_def)
    with movesD [OF assms(2) x] assms(3) show ?thesis by (simp add: at_rest_def)
  next
    case False
    let ?rest = "pbind (on_fst (st_requested stop)) (\<lambda>late.
            if late then pret True
            else pthen (announce_ready env config l)
              (pthen (sv_mod (\<lambda>sv. sv\<lparr>sv_ready := True\<rparr>)) (on_runtime (serve n k env config stop))))"
    let ?sv = "(snd t)\<lparr>sv_runtime := Some HostedKernelRuntime\<rparr>"
    have run: "pbind (on_fst (HostNetworkLease_tun_fd l)) (\<lambda>fd. pthen (on_runtime (start env config fd)) ?rest) (s1, ?sv) = (Inr True, t')"
      using assms(4) x e False by (simp add: serve_with_def pbind_def pthen_def on_fst_def sv_mod_def)
    obtain f s2 where f: "HostNetworkLease_tun_fd l s1 = (f, s2)" by (cases "HostNetworkLease_tun_fd l s1")
    with run obtain fd where fd: "f = Inr fd" by (cases f) (simp_all add: pbind_def on_fst_def)
    obtain y s3 rt where y: "start env config fd (s2, HostedKernelRuntime) = (y, (s3, rt))"
      by (cases "start env config fd (s2, HostedKernelRuntime)") auto
    with run f fd have ok: "y = Inr ()" by (cases y) (simp_all add: pbind_def pthen_def on_fst_def on_runtime_def)
    let ?t3 = "(s3, ?sv\<lparr>sv_runtime := Some rt\<rparr>)"
    have rest: "?rest ?t3 = (Inr True, t')"
      using run f fd y ok by (simp add: pbind_def [of "on_fst (HostNetworkLease_tun_fd l)"] pthen_def pbind_def [of "on_runtime _"]
          on_fst_def on_runtime_def)
    have "running good env (s3, rt)" by (rule start_running [OF assms(1) y [unfolded ok]])
    with assms(3) have u: "underway good env l ?t3" by (simp add: underway_def at_rest_def)
    have "preserves (underway good env l) ?rest"
      by (rule preserves_pbind, rule underway_on_fst, rule preserves_if, rule preserves_pret, rule underway_serving)
    from preservesD [OF this rest u] show ?thesis ..
  qed
qed

lemma stop_runtime_dead:
  assumes "underway (\<lambda>p. process_contract p alive pipes) env l t \<or> at_rest alive l t"
    "stop_runtime m env config t = (Inr (Some []), t')"
  shows "\<not> alive (fst t') \<and> sv_lease (snd t') = Some l"
  using assms(1)
proof
  assume "at_rest alive l t"
  with assms(2) show ?thesis by (auto simp: at_rest_def stop_runtime_def)
next
  assume u: "underway (\<lambda>p. process_contract p alive pipes) env l t"
  then obtain rt p where rt: "sv_runtime (snd t) = Some rt" "rt_process rt = Some p" "process_contract p alive pipes"
    "\<not> rt_closed rt" "sv_lease (snd t) = Some l" by (auto simp: underway_def running_def)
  obtain x s1 rt1 where x: "shutdown m env config (fst t, rt) = (x, (s1, rt1))"
    by (cases "shutdown m env config (fst t, rt)") auto
  have "x = Inr True" "t' = (s1, (snd t)\<lparr>sv_runtime := Some rt1\<rparr>)"
    using assms(2) rt(1) x by (auto simp: stop_runtime_def pbind_def pattempt_def on_runtime_def pret_def split: sum.splits if_splits)
  with shutdown_stops_process [OF rt(3) _ _ x] rt show ?thesis by simp
qed

lemma service_body_outcome:
  assumes "spawns good env" "stop_moves (stays_dead alive) stop" "acquire s = (y, s1)" "\<not> alive s1"
    "service_body n k env config acquire stop (s, new_service) = (Inr True, t)"
  shows "\<exists>l. y = Inr l \<and> (underway good env l t \<or> at_rest alive l t)"
proof -
  obtain l where l: "y = Inr l" using assms(3,5) by (cases y) (simp_all add: service_body_def pbind_def on_fst_def)
  let ?t1 = "(s1, new_service\<lparr>sv_lease := Some l\<rparr>)"
  have "pbind (serve_with n k env config stop l) (\<lambda>finished.
        if \<not> finished then pret False else pthen (record_signal stop) (pret True)) ?t1 = (Inr True, t)"
    using assms(3,5) l by (simp add: service_body_def pbind_def pthen_def on_fst_def sv_mod_def)
  then obtain b t2 where t2: "serve_with n k env config stop l ?t1 = (Inr b, t2)"
    and rest: "(if \<not> b then pret False else pthen (record_signal stop) (pret True)) t2 = (Inr True, t)"
    unfolding pbind_eq_Inr by (elim exE conjE)
  have b: "b" using rest by (cases b) (simp_all add: pret_def)
  have q: "moves (stays_dead alive) (st_requested stop)" "moves (stays_dead alive) (st_requested_signal stop)"
    using assms(2) by (simp_all add: stop_moves_def)
  have "at_rest alive l ?t1" using assms(4) by (simp add: at_rest_def new_service_def)
  from serve_with_outcome [OF assms(1) q(1) this] t2 b have t2': "underway good env l t2 \<or> at_rest alive l t2" by simp
  obtain z s3 where z: "st_requested_signal stop (fst t2) = (z, s3)" by (cases "st_requested_signal stop (fst t2)")
  have "t = (s3, (snd t2)\<lparr>sv_signal := projr z\<rparr>)" using rest b z
    by (cases z) (auto simp: record_signal_def pthen_def pbind_def on_fst_def sv_mod_def pret_def)
  then have t: "fst t = s3" "sv_lease (snd t) = sv_lease (snd t2)" "sv_runtime (snd t) = sv_runtime (snd t2)" by simp_all
  have "underway good env l t \<or> at_rest alive l t" using t2'
  proof
    assume "underway good env l t2"
    then have "underway good env l t" unfolding underway_def running_def t by simp
    then show ?thesis ..
  next
    assume "at_rest alive l t2"
    with movesD [OF q(2) z] have "at_rest alive l t" unfolding at_rest_def t by simp
    then show ?thesis ..
  qed
  with l show ?thesis by simp
qed

lemma run_block_dead:
  assumes sp: "spawns (\<lambda>p. process_contract p alive pipes) env" and st: "stop_moves (stays_dead alive) stop"
    and ex: "moves (stays_dead alive) (sm_exit manager)" and out: "outside_moves (stays_dead alive) env"
    and acq: "moves (stays_dead alive) acquire" "yields (lease_moves (stays_dead alive)) acquire" and dead: "\<not> alive s"
    and run: "run_block n k m env config acquire manager stop s = (Inr (Some x), s')"
  shows "x = 0 \<and> \<not> alive s'"
proof -
  let ?D = "stays_dead alive"
  obtain v s1 sv where b: "service_block n k m env config acquire stop (s, new_service) = (v, (s1, sv))"
    by (cases "service_block n k m env config acquire stop (s, new_service)") auto
  obtain primary failures where v: "v = Inr (Some (primary, failures))"
    and fin: "pthen (sm_exit manager) (conclude env sv primary failures) s1 = (Inr (Some x), s')"
    using run b by (auto simp: run_block_def pthen_eq_Inr praise_def split: sum.splits option.splits)
  have order: "reflp ?D" "transp ?D" by (rule reflpI, simp, rule transpI, simp)
  have "?D s1 s'" by (rule movesD [OF moves_pthen [OF order(2) ex moves_conclude [OF order out]] fin])
  moreover obtain u s2 where c: "conclude env sv primary failures s2 = (Inr (Some x), s')"
    using fin unfolding pthen_eq_Inr by blast
  then have none: "failures = []" "primary = None" "x = 0"
    by (auto simp: conclude_def praise_def pthen_eq_Inr pret_def split: if_splits option.splits)
  obtain y s3 where y: "acquire s = (y, s3)" by (cases "acquire s")
  have d3: "\<not> alive s3" using movesD [OF acq(1) y] dead by simp
  obtain z t where z: "service_body n k env config acquire stop (s, new_service) = (z, t)"
    by (cases "service_body n k env config acquire stop (s, new_service)")
  have "\<not> alive s1"
  proof -
    obtain w t1 where w: "service_try n k env config acquire stop (s, new_service) = (w, t1)"
      by (cases "service_try n k env config acquire stop (s, new_service)")
    have "w = Inr (Some None)" using b v none w
      by (auto simp: service_block_def pbind_def pattempt_def pret_def praise_def split: sum.splits option.splits if_splits prod.splits)
    with w z have zt: "z = Inr True" "t1 = t"
      by (auto simp: service_try_def pbind_def pattempt_def pret_def pthen_eq_Inr split: sum.splits if_splits prod.splits)
    from service_body_outcome [where acquire = acquire and s = s, OF sp st y d3 z [unfolded zt(1)]] obtain l where l: "y = Inr l"
      "underway (\<lambda>p. process_contract p alive pipes) env l t \<or> at_rest alive l t" by auto
    obtain q t2 where q: "stop_runtime m env config t = (Inr q, t2)" using stop_runtime_returns by blast
    have "unwind m env config t = (Inr (Some []), (s1, sv))" using b v none w \<open>w = Inr (Some None)\<close> zt(2)
      by (auto simp: service_block_def pbind_def pattempt_def pret_def split: sum.splits option.splits prod.splits)
    then have q0: "q = Some []" and cl: "close_lease t2 = (Inr [], (s1, sv))" using q
      by (auto simp: unwind_def pbind_def pret_def split: option.splits sum.splits prod.splits)
    from stop_runtime_dead [OF l(2)] q q0 have t2: "\<not> alive (fst t2)" "sv_lease (snd t2) = Some l" by auto
    obtain r2 l2 where "HostNetworkLease_close l (fst t2) = (r2, l2, s1)"
      using cl t2(2) by (auto simp: close_lease_def split: prod.splits)
    moreover have "lease_moves ?D l" using yieldsD [OF acq(2)] y l(1) by blast
    ultimately show ?thesis using t2(1) by (auto simp: lease_moves_def)
  qed
  ultimately show ?thesis using none(3) by simp
qed

text \<open>
  C3: A run of the service that returns, returns 0 and has stopped the kernel it started: the process
  has ended, whether the run served connections or was asked to stop before it began.
\<close>

theorem service_stops_kernel:
  assumes "spawns (\<lambda>p. process_contract p alive pipes) env" "outside_moves (stays_dead alive) env"
    "acquirer_moves (stays_dead alive) network_acquirer" "moves (stays_dead alive) signal_manager_factory"
    "yields (manager_moves (stays_dead alive)) signal_manager_factory" "\<not> alive s"
    "run_service n k m env network_acquirer signal_manager_factory config s = (Inr (Some x), s')"
  shows "x = 0 \<and> \<not> alive s'"
proof -
  let ?D = "stays_dead alive"
  have order: "reflp ?D" "transp ?D" by (rule reflpI, simp, rule transpI, simp)
  from order assms(4,5,7) show ?thesis
  proof (cases rule: run_service_cases)
    case (block nc a b c manager stop s2)
    have "moves ?D (network_acquirer nc a b c)" "yields (lease_moves ?D) (network_acquirer nc a b c)"
      using assms(3) unfolding acquirer_moves_def by blast+
    from run_block_dead [OF assms(1) block(3,5) assms(2) this _ block(7)] block(2) assms(6) show ?thesis by blast
  qed simp
qed

text \<open>A run that is asked to stop once the small kernel runs.\<close>

definition bare_lease :: "'s host_lease" where
  "bare_lease =
     \<lparr>hl_preflight = \<lparr>pr_requested_cc = ''bbr'', pr_checks = []\<rparr>, hl_ownership = NftOwnershipReport [],
      hl_tun = \<lparr>th_name = ''tcpcc0'', th_fd = pret 5, th_close = pret ()\<rparr>,
      hl_dnat = \<lparr>dh_backend_id = ''nft-exec'', dh_resource_name = ''tcpcc_0'', dh_close = pret ()\<rparr>,
      hl_journal = OwnershipJournal\<rparr>"

definition quick_stop :: "small_kernel stop_request" where
  "quick_stop = \<lparr>st_requested = (\<lambda>w. (Inr (sk_running w), w)), st_requested_signal = pret (Some 15), st_wait = (\<lambda>q. pret True)\<rparr>"

definition quick_manager :: "small_kernel signal_manager" where
  "quick_manager = \<lparr>sm_enter = pret quick_stop, sm_exit = pret ()\<rparr>"

lemma bare_lease_close: "HostNetworkLease_close bare_lease s = (Inr (), bare_lease\<lparr>hl_journal := OwnershipJournal\<lparr>j_closed := True\<rparr>\<rparr>, s)"
  by (simp add: HostNetworkLease_close_def bare_lease_def close_journal_def OwnershipJournal_def)

lemma small_shutdown:
  assumes "sk_running w"
  shows "\<exists>t. shutdown 1 small_env sample_service (w, small_runtime {}) = (Inr True, t)"
  using assms
  by (simp add: shutdown_def stop_process_def stop_by_state_def orderly_stop_def close_listener_def drain_bridges_def
      failures_of_def stop_kernel_def finish_stop_def close_pipe_def rt_transact_def channel_def rt_get_def rt_mod_def
      pbind_def pthen_def pattempt_def pret_def on_fst_def Let_def small_env_def small_runtime_def small_process_def
      small_tx_def op_defs answer_def)

lemma quick_run:
  "\<exists>w'. run_service 1 1 1 small_env (\<lambda>nc a b c. pret bare_lease) (pret quick_manager) sample_service
     \<lparr>sk_pending = 0, sk_sockets = {}, sk_bridges = {}, sk_running = False\<rparr> = (Inr (Some 0), w')"
proof -
  let ?w = "\<lparr>sk_pending = 0, sk_sockets = {}, sk_bridges = {}, sk_running = False\<rparr>"
  obtain w1 where w1: "start small_env sample_service 5 (?w, HostedKernelRuntime) = (Inr (), (w1, small_runtime {}))" "sk_running w1"
    using small_start by blast
  obtain w2 rt where w2: "shutdown 1 small_env sample_service (w1, small_runtime {}) = (Inr True, (w2, rt))"
    using small_shutdown [OF w1(2)] by auto
  let ?sv = "new_service\<lparr>sv_lease := Some bare_lease, sv_runtime := Some (small_runtime {})\<rparr>"
  have fd: "HostNetworkLease_tun_fd bare_lease = pret 5" by (simp add: HostNetworkLease_tun_fd_def bare_lease_def)
  have "serve_with 1 1 small_env sample_service quick_stop bare_lease (?w, new_service\<lparr>sv_lease := Some bare_lease\<rparr>) = (Inr True, (w1, ?sv))"
    using w1 by (simp add: serve_with_def quick_stop_def fd pbind_def pthen_def on_fst_def pret_def sv_mod_def on_runtime_def)
  then have "service_try 1 1 small_env sample_service (pret bare_lease) quick_stop (?w, new_service) =
      (Inr (Some None), (w1, ?sv\<lparr>sv_signal := Some 15\<rparr>))"
    by (simp add: service_try_def service_body_def record_signal_def quick_stop_def pbind_def pthen_def pattempt_def on_fst_def
        pret_def sv_mod_def)
  then obtain sv where "service_block 1 1 1 small_env sample_service (pret bare_lease) quick_stop (?w, new_service) =
      (Inr (Some (None, [])), (w2, sv))" "\<not> sv_ready sv"
    using w2 by (simp add: service_block_def unwind_def stop_runtime_def close_lease_def bare_lease_close pbind_def pattempt_def
        on_runtime_def pret_def new_service_def)
  then have "run_block 1 1 1 small_env sample_service (pret bare_lease) quick_manager quick_stop ?w = (Inr (Some 0), w2)"
    by (simp add: run_block_def quick_manager_def conclude_def pthen_def pbind_def pret_def)
  then show ?thesis unfolding sample_run_service by (simp add: pbind_def) (simp add: quick_manager_def pret_def)
qed

theorem service_stops_kernel_witness:
  "\<exists>w'. run_service 1 1 1 small_env (\<lambda>nc a b c. pret bare_lease) (pret quick_manager) sample_service
     \<lparr>sk_pending = 0, sk_sockets = {}, sk_bridges = {}, sk_running = False\<rparr> = (Inr (Some 0), w') \<and> \<not> sk_running w'"
proof -
  let ?w = "\<lparr>sk_pending = 0, sk_sockets = {}, sk_bridges = {}, sk_running = False\<rparr>"
  let ?D = "stays_dead sk_running"
  obtain w' where run: "run_service 1 1 1 small_env (\<lambda>nc a b c. pret bare_lease) (pret quick_manager) sample_service ?w =
      (Inr (Some 0), w')" using quick_run by blast
  have c: "process_contract small_process sk_running (\<lambda>_. {})"
    by (auto simp: process_contract_def pipe_closes_def small_process_def pret_def split: if_splits)
  have s: "spawns (\<lambda>p. process_contract p sk_running (\<lambda>_. {})) small_env"
    using c by (simp add: spawns_def yields_def small_env_def)
  have o: "outside_moves ?D small_env" by (simp add: outside_moves_def moves_def small_env_def pret_def)
  have a: "acquirer_moves ?D (\<lambda>nc a b c. pret bare_lease)"
    unfolding acquirer_moves_def lease_moves_def yields_def moves_def
    by (simp add: pret_def bare_lease_close HostNetworkLease_tun_fd_def) (simp add: bare_lease_def pret_def)
  have m: "yields (manager_moves ?D) (pret quick_manager)" "moves ?D (pret quick_manager)"
    by (simp_all add: yields_def manager_moves_def quick_manager_def quick_stop_def stop_moves_def moves_def returns_def pret_def)
  from service_stops_kernel [OF s o a m(2,1) _ run] run show ?thesis by simp
qed

section \<open>The exit code\<close>

lemma run_service_zero:
  assumes "run_service n k m env network_acquirer signal_manager_factory config s = (Inr (Some x), s')"
  shows "x = 0"
proof -
  have c: "yields (\<lambda>v. \<forall>x. v = Some x \<longrightarrow> x = 0) (conclude env sv primary failures)" for sv primary failures
    unfolding conclude_def by (intro yields_intros) simp
  have "yields (\<lambda>v. \<forall>x. v = Some x \<longrightarrow> x = 0) (run_block n k m env config acquire manager stop)" for acquire manager stop
    unfolding yields_def
  proof (intro allI impI)
    fix s v s' x
    assume run: "run_block n k m env config acquire manager stop s = (Inr v, s')" and v: "v = Some x"
    obtain y s1 sv where b: "service_block n k m env config acquire stop (s, new_service) = (y, (s1, sv))"
      by (cases "service_block n k m env config acquire stop (s, new_service)") auto
    with run v obtain primary failures where "pthen (sm_exit manager) (conclude env sv primary failures) s1 = (Inr v, s')"
      by (auto simp: run_block_def pthen_eq_Inr praise_def split: sum.splits option.splits)
    from yieldsD [OF yields_pthen [OF c] this] v show "x = 0" by simp
  qed
  then have "yields (\<lambda>v. \<forall>x. v = Some x \<longrightarrow> x = 0) (run_service n k m env network_acquirer signal_manager_factory config)"
    unfolding run_service_def by (intro yields_pbind)
  from yieldsD [OF this assms] show ?thesis by simp
qed

text \<open>
  C36: Once its arguments are parsed, the command ends with 0 or 1 and lets no \<^verbatim>\<open>Exception\<close> escape.  It
  ends with 1 exactly where reading the configuration or the run raised one, and then its
  last line is the error's message, after the report where the host was refused; only an
  interrupt is raised.
\<close>

theorem main_exit_code:
  assumes "\<And>line s. \<exists>s'. print_stderr line s = (Inr (), s') \<and> printed s' = printed s @ [line]"
    "parse_args w0 = (Inr ns, w)"
    "pbind (from_namespace ns) (run_service n k m env network_acquirer signal_manager_factory) w = (x, w1)"
    "main parse_args from_namespace (run_service n k m env network_acquirer signal_manager_factory) print_stderr strerror w0 = (r, w')"
  shows "case x of
      Inr v \<Rightarrow> r = Inr v \<and> w' = w1 \<and> (v = None \<or> v = Some 0)
    | Inl e \<Rightarrow>
        (if is_Exception e
         then r = Inr (Some 1) \<and> printed w' = printed w1 @ (case report_text e of None \<Rightarrow> [] | Some t \<Rightarrow> [t])
                                  @ [''tcpcc: error: '' @ exn_str strerror e]
         else r = Inl e \<and> w' = w1)"
proof (cases x)
  case (Inr v)
  have "pbind (from_namespace ns) (run_service n k m env network_acquirer signal_manager_factory) w = (Inr v, w1)"
    using assms(3) Inr by simp
  then obtain config s where "run_service n k m env network_acquirer signal_manager_factory config s = (Inr v, w1)"
    unfolding pbind_eq_Inr by blast
  with run_service_zero have "v = None \<or> v = Some 0" by (cases v) auto
  moreover have "r = Inr v \<and> w' = w1"
    using Inr assms(2-4) by (auto simp: main_def pbind_def [of parse_args] phandle_return)
  ultimately show ?thesis using Inr by simp
next
  case (Inl e)
  have failed: "main_failed print_stderr strerror e w1 = (r, w')"
    using Inl assms(2-4) by (simp add: main_def pbind_def [of parse_args] phandle_raise)
  show ?thesis
  proof (cases "is_Exception e")
    case False
    with failed Inl show ?thesis by (auto simp: main_failed_def praise_def)
  next
    case True
    let ?first = "case report_text e of None \<Rightarrow> pret () | Some t \<Rightarrow> print_stderr t"
    obtain w2 where w2: "?first w1 = (Inr (), w2)"
      "printed w2 = printed w1 @ (case report_text e of None \<Rightarrow> [] | Some t \<Rightarrow> [t])"
      using assms(1) by (cases "report_text e") (fastforce simp: pret_def)+
    obtain w3 where w3: "print_stderr (''tcpcc: error: '' @ exn_str strerror e) w2 = (Inr (), w3)"
      "printed w3 = printed w2 @ [''tcpcc: error: '' @ exn_str strerror e]" using assms(1) by blast
    have "main_failed print_stderr strerror e w1 = (Inr (Some 1), w3)"
      using True w2(1) w3(1) by (simp add: main_failed_def pthen_return pret_def)
    with failed w2(2) w3(2) True Inl show ?thesis by simp
  qed
qed

text \<open>A host on which the kernel cannot be started.\<close>

definition idle_env :: "'s runtime_env" where
  "idle_env =
     \<lparr>re_emitter = \<lparr>em_event = (\<lambda>event members. pret ()), em_diagnostic = (\<lambda>message. pret ())\<rparr>,
      re_process_factory = (\<lambda>argv fd. praise (OSError FileNotFoundError (Some 2) ''vmlinux'')),
      re_control_factory = (\<lambda>p. praise (OSError PlainOSError None [])),
      re_shutdown_timeout = DEFAULT_KERNEL_SHUTDOWN_TIMEOUT, re_clock = pret 0, re_order = sorted_list_of_set,
      re_float = (\<lambda>q. []), re_strerror = (\<lambda>n. None)\<rparr>"

definition idle_stop :: "'s stop_request" where
  "idle_stop = \<lparr>st_requested = pret False, st_requested_signal = pret None, st_wait = (\<lambda>q. pret False)\<rparr>"

definition idle_manager :: "'s signal_manager" where
  "idle_manager = \<lparr>sm_enter = pret idle_stop, sm_exit = pret ()\<rparr>"

definition wrong_arguments :: arguments where
  "wrong_arguments =
     \<lparr>ns_listen = sample_listen, ns_backend = \<lparr>ep_address = ''127.0.0.1'', ep_port = 8080\<rparr>, ns_cc = ''bbr'',
      ns_kernel = ''vmlinux'', ns_memory_mib = 256, ns_firewall_backend = ''nft-exec'', ns_iptables_variant = ''iptables-nft'',
      ns_tun_name = None, ns_tun_host_address = None, ns_tun_guest_address = None, ns_backlog = 16,
      ns_max_connections = 2, ns_shutdown_grace_period = 0\<rparr>"

theorem main_exit_code_witness:
  "\<exists>lines. main (pret wrong_arguments) (config_from_namespace pret)
       (run_service 1 1 1 idle_env (\<lambda>nc a b c. pret bare_lease) (pret idle_manager))
       (\<lambda>line lines. (Inr (), lines @ [line])) (\<lambda>_. None) [] = (Inr (Some 1), lines)
     \<and> lines = [''tcpcc: error: --iptables-variant is valid only with --firewall-backend=iptables'']"
proof -
  let ?run = "run_service 1 1 1 idle_env (\<lambda>nc a b c. pret bare_lease) (pret idle_manager) :: ServiceConfig \<Rightarrow> (string list, int option) py"
  let ?print = "\<lambda>line lines. (Inr (), lines @ [line])"
  let ?e = "ValueError ''--iptables-variant is valid only with --firewall-backend=iptables''"
  obtain r lines where run: "main (pret wrong_arguments) (config_from_namespace pret) ?run ?print (\<lambda>_. None) [] = (r, lines)"
    by (cases "main (pret wrong_arguments) (config_from_namespace pret) ?run ?print (\<lambda>_. None) []")
  have x: "pbind (config_from_namespace pret wrong_arguments) ?run [] = (Inl ?e, [])"
    by (simp add: config_from_namespace_def wrong_arguments_def pbind_def praise_def)
  have p: "\<exists>s'. ?print line s = (Inr (), s') \<and> id s' = id s @ [line]" for line :: string and s by simp
  have a: "pret wrong_arguments [] = (Inr wrong_arguments, [])" by (simp add: pret_def)
  from main_exit_code [where printed = id, OF p a x run] run show ?thesis by simp
qed

end
