(* ===== verification/Spec2Isabelle.thy ===== *)
theory Spec2Isabelle
  imports Control Host_Network Signals Service_Config Kernel_Image Service
begin

text \<open>
  A verification library for the Python tools of linux-tcp-cc: \<^verbatim>\<open>tools/tcpcc_control.py\<close>,
  \<^verbatim>\<open>tools/tcpcc_host.py\<close> and \<^verbatim>\<open>tools/tcpcc_cli.py\<close>.

  The service gives public TCP connections the congestion control of a Linux kernel that runs as a
  process.  \<^verbatim>\<open>tcpcc_cli.py\<close> reads the configuration, acquires the host network (a TUN queue and
  a DNAT rule of nftables or iptables) through \<^verbatim>\<open>tcpcc_host.py\<close>, starts the kernel process and talks
  to it over a pair of pipes with the records of \<^verbatim>\<open>tcpcc_control.py\<close>, hands accepted
  connections to bridges until a signal asks for the end, and unwinds everything in reverse.

  \<^bold>\<open>How the code is modelled.\<close>  A call that may raise and changes the world is a function from a state to
  an exception or a value and the next state (\<open>pym\<close> and \<open>py\<close> of \<open>Prelude\<close>); exceptions are the
  constructors of \<open>exn\<close> in \<open>Errors\<close>.  What the source injects, and what the operating system does, are
  arguments; what is known of them is a named predicate (\<open>fd_table\<close>, \<open>nft_kernel\<close>,
  \<open>iptables_kernel\<close>, \<open>signal_table\<close>, \<open>image_file\<close>, \<open>hosted_kernel\<close>, \<open>listening\<close>,
  \<open>process_contract\<close>, \<open>popen_pipes\<close>, \<open>timed\<close>) that a theorem assumes and its witness establishes for a small world.  A mutable object is a
  record that its methods return updated; \<open>Host_Network\<close> keeps the queues and leases in a store by
  index.  Arguments that the source checks dynamically are values of \<open>pyval\<close>.  Strings are lists of
  characters below 256, floats are rational numbers, integers unbounded as in Python; the
  fields of a record are packed with their widths in \<open>Struct_Codec\<close>.

  \<^bold>\<open>The theories.\<close>
  \<^item> \<open>Prelude\<close>, \<open>Py_Text\<close>: the effects, the predicates \<open>returns\<close>, \<open>keeps\<close> and \<open>preserves\<close> with their
    collections of rules, numerals and Python's string methods.
  \<^item> \<open>Control_Abi\<close>, \<open>Struct_Codec\<close>, \<open>Control\<close> (\<^verbatim>\<open>tcpcc_control.py\<close>): the encoders, the decoders, the
    reader of a record and \<^verbatim>\<open>ControlClient.transact\<close>.  The decoders accept exactly the packed form of
    a well-formed record; a transaction sends one request and consumes exactly one response.
  \<^item> \<open>Ip_Address\<close>, \<open>Json\<close>: the parts of \<^verbatim>\<open>ipaddress\<close> and \<^verbatim>\<open>json\<close> that the tools use, with their round trips.
  \<^item> \<open>Errors\<close>, \<open>Host_Names\<close>, \<open>Preflight\<close>, \<open>Journal\<close>, \<open>Tun\<close>, \<open>Ownership\<close>, \<open>Nft\<close>, \<open>Iptables\<close>,
    \<open>Host_Network\<close> (\<^verbatim>\<open>tcpcc_host.py\<close>): the messages, the names, the preflight, the ownership journal, the
    TUN queue, the ownership markers and their inspection, the two firewall backends and the transaction
    \<^verbatim>\<open>acquire_host_network\<close>.  Each resource is acquired completely or not at all and its lease
    gives back exactly what was acquired; the transaction composes them.
  \<^item> \<open>Signals\<close>: \<^verbatim>\<open>ShutdownSignals\<close> as steps of a process that signals may interrupt.
  \<^item> \<open>Service_Config\<close>, \<open>Kernel_Image\<close> (\<^verbatim>\<open>tcpcc_cli.py\<close>): \<^verbatim>\<open>Endpoint\<close>, \<^verbatim>\<open>ServiceConfig\<close>,
    \<^verbatim>\<open>host_network_config\<close> and \<^verbatim>\<open>validate_kernel_image\<close>, each with the exact set of inputs it accepts.
  \<^item> \<open>Runtime\<close>: \<^verbatim>\<open>HostedKernelRuntime\<close>.  \<open>Runtime_Steps\<close> proves once what every operation keeps, in layered
    locales for draining, stopping, attaching, serving and starting.  \<open>Runtime_Safety\<close> shows the admission limit in
    every reachable state and that no accepted socket is lost while the transport works.  \<open>Runtime_Shutdown\<close> shows
    that a shutdown ends, stops the process and closes its pipes, and that a poll ends once
    no more connections come.
  \<^item> \<open>Service\<close>: \<^verbatim>\<open>run_service\<close> and \<^verbatim>\<open>main\<close>.  A run leaves the host as it was, the pipes of the kernel
    closed and the kernel stopped, over the transaction of \<open>Host_Network\<close> and the shutdown of \<open>Runtime_Shutdown\<close>.

  \<^bold>\<open>Interfaces.\<close>  \<open>lease\<close> (what can be closed once) is interpreted on the journal, the queue, both firewall
  leases, the host lease and the runtime; \<open>control_channel\<close> on the control client; \<open>byte_codec\<close> on the signed and the
  unsigned fields; \<open>host_resources\<close> on the TUN queue with the nftables backend; the invariants of
  \<open>Runtime_Steps\<close> on the admission limit, the closed flag, the process of the object and the guarantees of the world.

  \<^bold>\<open>Bounds.\<close>  The loop of \<^verbatim>\<open>read_exact_fd\<close> always ends, since each turn that goes on has read a byte.  The
  loops of \<^verbatim>\<open>_accept_available\<close>, \<^verbatim>\<open>serve\<close> and \<^verbatim>\<open>_drain_bridges\<close> need not end; they take a bound on
  their rounds and report whether they ended within it.  A poll ends when the bound exceeds the
  connections that wait at its start and arrive during it; a drain ends when the bound exceeds the active bridges and the milliseconds of the grace
  period together.  Serving ends when a stop is requested, which is up to the world, so a theorem on a
  whole run speaks of the runs that end.  The parser of \<open>Json\<close> is given twice the length of its text and two
  more, which it never uses up.

  \<^bold>\<open>Not modelled.\<close>  What the version of Python decides is that of 3.11 (the classification of IPv4-mapped addresses), and the
  limit of 4300 digits on \<^verbatim>\<open>int\<close> and escapes of characters above 255 in a listing are left out.  \<^verbatim>\<open>build_parser\<close> declares options to \<^verbatim>\<open>argparse\<close>; a run starts from the parsed arguments.  An exception that
  arrives between two statements, such as a \<^verbatim>\<open>KeyboardInterrupt\<close> outside a call, has no step of its own.
  The C sources of the hosted kernel (\<^verbatim>\<open>linux-overlay/\<close>) and of the native runtime (\<^verbatim>\<open>native/\<close>) are other programs, seen here
  through the control records only; the scripts under \<^verbatim>\<open>scripts/\<close> test, measure, build and package them.
\<close>

end
